(* ===== verification/Forge_Prelude.thy ===== *)
theory Forge_Prelude
  imports Main
begin

text \<open>
  Prelude of the development: the machine integers of Go that the sources rely on, the
  small list, option and sum lemmas that several components share, and the
  \<^theory_text>\<open>named_theorems\<close> collections the component proofs are driven by:
  \<^item> \<open>forge_defs\<close>: the unfolding equations of plumbing definitions;
  \<^item> \<open>forge_inv\<close>: preservation facts (an operation keeps an invariant).
  Time is a number of nanoseconds since the epoch (\<^verbatim>\<open>time.Time\<close> in UTC, as
  \<^verbatim>\<open>SystemClock.Now\<close> returns it).
\<close>

named_theorems forge_defs
named_theorems forge_inv

type_synonym time = int

section \<open>Go integers\<close>

text \<open>
  Go's \<^verbatim>\<open>int64\<close> (and \<^verbatim>\<open>int\<close> on the 64-bit platforms the images are built for) is
  a mathematical integer reduced to two's complement after each arithmetic operation.
\<close>

definition int64 :: "int \<Rightarrow> int" where
  "int64 x = (x + 2 ^ 63) mod 2 ^ 64 - 2 ^ 63"

definition in_int64 :: "int \<Rightarrow> bool" where
  "in_int64 x \<longleftrightarrow> - (2 ^ 63) \<le> x \<and> x < 2 ^ 63"

definition in_int32 :: "int \<Rightarrow> bool" where
  "in_int32 x \<longleftrightarrow> - (2 ^ 31) \<le> x \<and> x < 2 ^ 31"

lemma int64_id [simp]: "in_int64 x \<Longrightarrow> int64 x = x"
  by (simp add: int64_def in_int64_def)

lemma in_int64_int64 [simp]: "in_int64 (int64 x)"
  using pos_mod_bound [of "2 ^ 64" "x + 2 ^ 63"] pos_mod_sign [of "2 ^ 64" "x + 2 ^ 63"]
  by (simp add: int64_def in_int64_def)

lemma int64_Suc_ne: "int64 (x + 1) \<noteq> x"
proof
  assume eq: "int64 (x + 1) = x"
  then have "in_int64 x" using in_int64_int64 [of "x + 1"] by simp
  then show False
    using eq by (cases "x = 2 ^ 63 - 1") (auto simp: int64_def in_int64_def)
qed

section \<open>Sums, options and lists\<close>

lemma case_sum_Inr_iff:
  "(case r of Inl e \<Rightarrow> Inl e | Inr x \<Rightarrow> f x) = Inr y \<longleftrightarrow> (\<exists>x. r = Inr x \<and> f x = Inr y)"
  by (cases r) auto

lemma case_sum_Inl_iff:
  "(case r of Inl e \<Rightarrow> Inl e | Inr x \<Rightarrow> f x) = Inl e' \<longleftrightarrow>
     r = Inl e' \<or> (\<exists>x. r = Inr x \<and> f x = Inl e')"
  by (cases r) auto

lemmas sum_case_iffs = case_sum_Inr_iff case_sum_Inl_iff

lemma find_map_None: "find P xs = None \<longleftrightarrow> (\<forall>x \<in> set xs. \<not> P x)"
  by (induction xs) auto

lemma find_SomeD: "find P xs = Some x \<Longrightarrow> x \<in> set xs \<and> P x"
  by (induction xs) (auto split: if_splits)

lemma find_Some_if: "x \<in> set xs \<Longrightarrow> P x \<Longrightarrow> \<exists>y. find P xs = Some y"
  by (induction xs) auto

text \<open>
  A primary-key lookup: when the key identifies the row, \<open>find\<close> returns exactly it.
\<close>

lemma find_by_key:
  assumes "distinct (map k xs)" and "x \<in> set xs"
  shows "find (\<lambda>y. k y = k x) xs = Some x"
  using assms by (induction xs) force+

lemma find_append: "find P (xs @ ys) = (case find P xs of None \<Rightarrow> find P ys | Some x \<Rightarrow> Some x)"
  by (induction xs) auto

lemma distinct_map_update:
  assumes "\<And>x. k (f x) = k x"
  shows "map k (map (\<lambda>x. if P x then f x else x) xs) = map k xs"
  using assms by (induction xs) auto

lemma filter_map_commute:
  assumes "\<And>x. x \<in> set xs \<Longrightarrow> P (f x) = P x"
  shows "filter P (map f xs) = map f (filter P xs)"
  using assms by (induction xs) auto

lemma filter_by_key:
  "distinct (map k xs) \<Longrightarrow> x \<in> set xs \<Longrightarrow> filter (\<lambda>y. k y = k x) xs = [x]"
  by (induction xs) (auto simp: filter_empty_conv, metis imageI)

lemma filter_key_update:
  assumes "distinct (map k xs)" and "x \<in> set xs" and "k z = k x"
  shows "filter (\<lambda>y. k y = k x) (map (\<lambda>y. if k y = k x then z else y) xs) = [z]"
    and "filter (\<lambda>y. k y \<noteq> k x) (map (\<lambda>y. if k y = k x then z else y) xs) = filter (\<lambda>y. k y \<noteq> k x) xs"
proof -
  let ?f = "\<lambda>y. if k y = k x then z else y"
  have "filter (\<lambda>y. k y = k x) (map ?f xs) = map ?f (filter (\<lambda>y. k y = k x) xs)"
    using assms(3) by (simp add: filter_map comp_def if_distrib cong: filter_cong)
  with assms(1,2) show "filter (\<lambda>y. k y = k x) (map ?f xs) = [z]" by (simp add: filter_by_key)
  show "filter (\<lambda>y. k y \<noteq> k x) (map ?f xs) = filter (\<lambda>y. k y \<noteq> k x) xs"
    using assms(3) by (induction xs) auto
qed

lemma map_id_iff: "map f xs = xs \<longleftrightarrow> (\<forall>x \<in> set xs. f x = x)"
  by (metis list.map_cong list.map_id0 id_apply map_eq_conv)

end
