(* ===== verification/Go_Strings.thy ===== *)
theory Go_Strings
  imports Forge_Prelude
begin

text \<open>
  The parts of Go's \<^verbatim>\<open>strings\<close>, \<^verbatim>\<open>strconv\<close> and \<^verbatim>\<open>regexp\<close> packages the
  sources call, over byte strings (\<open>string\<close>, one \<open>char\<close> per byte, as a Go string is a
  byte sequence): \<open>TrimSpace\<close>, \<open>HasPrefix\<close>, \<open>TrimPrefix\<close>, \<open>HasSuffix\<close>, \<open>Trim\<close> with a
  one-character cutset, \<open>IndexByte\<close>, decimal \<open>FormatInt\<close> and \<open>ParseInt\<close>, and anchored
  regular expressions with a derivative matcher proved against their language.
\<close>

section \<open>Prefixes, suffixes and trimming\<close>

definition HasPrefix :: "string \<Rightarrow> string \<Rightarrow> bool" where
  "HasPrefix s p \<longleftrightarrow> take (length p) s = p"

definition HasSuffix :: "string \<Rightarrow> string \<Rightarrow> bool" where
  "HasSuffix s p \<longleftrightarrow> HasPrefix (rev s) (rev p)"

definition TrimPrefix :: "string \<Rightarrow> string \<Rightarrow> string" where
  "TrimPrefix s p = (if HasPrefix s p then drop (length p) s else s)"

text \<open>\<^verbatim>\<open>strings.Trim(s, cutset)\<close> for a cutset of one ASCII character.\<close>

definition Trim :: "string \<Rightarrow> char \<Rightarrow> string" where
  "Trim s c = rev (dropWhile (\<lambda>x. x = c) (rev (dropWhile (\<lambda>x. x = c) s)))"

text \<open>\<^verbatim>\<open>strings.IndexByte\<close>: the first position, or \<open>-1\<close>.\<close>

fun IndexByte_from :: "nat \<Rightarrow> string \<Rightarrow> char \<Rightarrow> int" where
  "IndexByte_from i [] c = -1"
| "IndexByte_from i (x # xs) c = (if x = c then int i else IndexByte_from (Suc i) xs c)"

definition IndexByte :: "string \<Rightarrow> char \<Rightarrow> int" where
  "IndexByte s c = IndexByte_from 0 s c"

text \<open>
  \<^verbatim>\<open>unicode.IsSpace\<close>: the UTF-8 encodings of the code points it accepts. UTF-8 is
  self-synchronising, so trimming runes from either end is trimming these byte
  sequences from either end.
\<close>

definition space_runes :: "string list" where
  "space_runes =
     [[CHR 0x09], [CHR 0x0A], [CHR 0x0B], [CHR 0x0C], [CHR 0x0D], [CHR 0x20],
      [CHR 0xC2, CHR 0x85], [CHR 0xC2, CHR 0xA0], [CHR 0xE1, CHR 0x9A, CHR 0x80],
      [CHR 0xE2, CHR 0x80, CHR 0x80], [CHR 0xE2, CHR 0x80, CHR 0x81],
      [CHR 0xE2, CHR 0x80, CHR 0x82], [CHR 0xE2, CHR 0x80, CHR 0x83],
      [CHR 0xE2, CHR 0x80, CHR 0x84], [CHR 0xE2, CHR 0x80, CHR 0x85],
      [CHR 0xE2, CHR 0x80, CHR 0x86], [CHR 0xE2, CHR 0x80, CHR 0x87],
      [CHR 0xE2, CHR 0x80, CHR 0x88], [CHR 0xE2, CHR 0x80, CHR 0x89],
      [CHR 0xE2, CHR 0x80, CHR 0x8A], [CHR 0xE2, CHR 0x80, CHR 0xA8],
      [CHR 0xE2, CHR 0x80, CHR 0xA9], [CHR 0xE2, CHR 0x80, CHR 0xAF],
      [CHR 0xE2, CHR 0x81, CHR 0x9F], [CHR 0xE3, CHR 0x80, CHR 0x80]]"

function trim_left :: "string list \<Rightarrow> string \<Rightarrow> string" where
  "trim_left ws s =
     (case find (\<lambda>w. w \<noteq> [] \<and> HasPrefix s w) ws of
        None \<Rightarrow> s
      | Some w \<Rightarrow> trim_left ws (drop (length w) s))"
  by pat_completeness auto
termination
proof (relation "measure (\<lambda>(ws, s). length s)")
  fix ws s w
  assume "find (\<lambda>w. w \<noteq> [] \<and> HasPrefix s w) ws = Some w"
  then have "w \<noteq> []" and "take (length w) s = w"
    by (auto dest: find_SomeD simp: HasPrefix_def)
  then show "((ws, drop (length w) s), ws, s) \<in> measure (\<lambda>(ws, s). length s)"
    by (cases s) auto
qed simp

declare trim_left.simps [simp del]

definition TrimSpace :: "string \<Rightarrow> string" where
  "TrimSpace s = rev (trim_left (map rev space_runes) (rev (trim_left space_runes s)))"

lemma trim_left_no_prefix: "find (\<lambda>w. w \<noteq> [] \<and> HasPrefix (trim_left ws s) w) ws = None"
proof (induction ws s rule: trim_left.induct)
  case (1 ws s)
  then show ?case
    by (cases "find (\<lambda>w. w \<noteq> [] \<and> HasPrefix s w) ws") (auto simp: trim_left.simps [of ws s])
qed

lemma trim_left_fixed:
  "find (\<lambda>w. w \<noteq> [] \<and> HasPrefix s w) ws = None \<Longrightarrow> trim_left ws s = s"
  by (simp add: trim_left.simps)

lemma trim_left_suffix: "\<exists>p. s = p @ trim_left ws s"
proof (induction ws s rule: trim_left.induct)
  case (1 ws s)
  show ?case
  proof (cases "find (\<lambda>w. w \<noteq> [] \<and> HasPrefix s w) ws")
    case None
    then show ?thesis by (simp add: trim_left_fixed)
  next
    case (Some w)
    with 1 obtain p where "drop (length w) s = p @ trim_left ws (drop (length w) s)" by blast
    then have "s = (take (length w) s @ p) @ trim_left ws s"
      using Some by (simp add: trim_left.simps [of ws s])
    then show ?thesis by blast
  qed
qed

lemma HasPrefix_append: "HasPrefix s w \<Longrightarrow> HasPrefix (s @ t) w"
  unfolding HasPrefix_def by (metis append_take_drop_id append_assoc append_eq_conv_conj)

text \<open>Trimming twice is trimming once: stored values survive being parsed again.\<close>

lemma TrimSpace_idem [simp]: "TrimSpace (TrimSpace s) = TrimSpace s"
proof -
  define l where "l = trim_left space_runes s"
  define r where "r = rev (trim_left (map rev space_runes) (rev l))"
  have no_l: "find (\<lambda>w. w \<noteq> [] \<and> HasPrefix l w) space_runes = None"
    unfolding l_def by (rule trim_left_no_prefix)
  obtain p where "rev l = p @ rev r"
    using trim_left_suffix [of "rev l" "map rev space_runes"] by (auto simp: r_def)
  then have l: "l = r @ rev p" by (metis rev_append rev_rev_ident)
  have "find (\<lambda>w. w \<noteq> [] \<and> HasPrefix r w) space_runes = None"
    using no_l unfolding find_map_None l by (blast intro: HasPrefix_append)
  then have 1: "trim_left space_runes r = r" by (rule trim_left_fixed)
  have "trim_left (map rev space_runes) (rev r) = rev r"
    unfolding r_def rev_rev_ident by (rule trim_left_fixed [OF trim_left_no_prefix])
  with 1 have "TrimSpace r = r" by (simp add: TrimSpace_def)
  then show ?thesis by (simp add: TrimSpace_def r_def l_def)
qed

lemma TrimSpace_Nil [simp]: "TrimSpace [] = []"
  by (simp add: TrimSpace_def trim_left.simps space_runes_def HasPrefix_def)

text \<open>A string whose first and last byte begin and end no space is left alone.\<close>

lemma TrimSpace_fixed:
  assumes "\<And>w. w \<in> set space_runes \<Longrightarrow> \<not> HasPrefix s w"
    and "\<And>w. w \<in> set space_runes \<Longrightarrow> \<not> HasSuffix s w"
  shows "TrimSpace s = s"
proof -
  have "trim_left space_runes s = s"
    using assms(1) by (intro trim_left_fixed) (simp add: find_map_None)
  moreover have "trim_left (map rev space_runes) (rev s) = rev s"
    using assms(2) by (intro trim_left_fixed) (auto simp: find_map_None HasSuffix_def)
  ultimately show ?thesis by (simp add: TrimSpace_def)
qed

section \<open>Decimal integers\<close>

abbreviation byte :: "char \<Rightarrow> nat" where
  "byte c \<equiv> of_char c"

text \<open>Strings of seven-bit bytes other than NUL.\<close>

definition ascii :: "string \<Rightarrow> bool" where
  "ascii s \<longleftrightarrow> (\<forall>c \<in> set s. 0 < byte c \<and> byte c < 128)"

lemma ascii_simps [simp]:
  "ascii []" "ascii (c # t) \<longleftrightarrow> 0 < byte c \<and> byte c < 128 \<and> ascii t" "ascii (s @ t) \<longleftrightarrow> ascii s \<and> ascii t"
  by (auto simp: ascii_def)

definition is_digit :: "char \<Rightarrow> bool" where
  "is_digit c \<longleftrightarrow> 48 \<le> byte c \<and> byte c \<le> 57"

definition digit :: "nat \<Rightarrow> char" where
  "digit n = char_of (48 + n)"

fun format_nat :: "nat \<Rightarrow> string" where
  "format_nat n = (if n < 10 then [digit n] else format_nat (n div 10) @ [digit (n mod 10)])"

declare format_nat.simps [simp del]

text \<open>\<^verbatim>\<open>strconv.FormatInt(v, 10)\<close> and \<^verbatim>\<open>strconv.Itoa\<close>.\<close>

definition FormatInt :: "int \<Rightarrow> string" where
  "FormatInt v = (if v < 0 then CHR ''-'' # format_nat (nat (- v)) else format_nat (nat v))"

fun parse_digits :: "nat \<Rightarrow> string \<Rightarrow> nat option" where
  "parse_digits acc [] = Some acc"
| "parse_digits acc (c # cs) =
     (if is_digit c then parse_digits (10 * acc + (byte c - 48)) cs else None)"

text \<open>
  \<^verbatim>\<open>strconv.ParseInt(s, 10, 64)\<close> (and \<^verbatim>\<open>strconv.Atoi\<close>): an optional sign, at least
  one decimal digit, nothing else; a syntax error or a value out of range is \<open>None\<close>.
\<close>

definition ParseInt :: "string \<Rightarrow> int option" where
  "ParseInt s =
     (let neg = (s \<noteq> [] \<and> hd s = CHR ''-'');
          ds = (if s \<noteq> [] \<and> hd s \<in> {CHR ''+'', CHR ''-''} then tl s else s)
      in if ds = [] then None
         else case parse_digits 0 ds of
                None \<Rightarrow> None
              | Some n \<Rightarrow>
                  (let v = (if neg then - int n else int n)
                   in if in_int64 v then Some v else None))"

lemma byte_digit: "n < 10 \<Longrightarrow> byte (digit n) = 48 + n"
  by (simp add: digit_def)

lemma parse_digits_append:
  "parse_digits acc (xs @ ys) = Option.bind (parse_digits acc xs) (\<lambda>a. parse_digits a ys)"
  by (induction xs arbitrary: acc) auto

lemma parse_format_nat: "parse_digits 0 (format_nat n) = Some n"
proof (induction n rule: format_nat.induct)
  case (1 n)
  show ?case
    by (cases "n < 10")
      (use 1 in \<open>simp_all add: format_nat.simps [of n] parse_digits_append byte_digit is_digit_def\<close>)
qed

lemma format_nat_head: "\<exists>d ds. format_nat n = digit d # ds \<and> d < 10"
proof (induction n rule: format_nat.induct)
  case (1 n)
  then show ?case by (cases "n < 10") (auto simp: format_nat.simps [of n])
qed

lemma digit_not_sign: "d < 10 \<Longrightarrow> digit d \<noteq> CHR ''-'' \<and> digit d \<noteq> CHR ''+'' \<and> digit d \<noteq> CHR ''\"''"
  using byte_digit [of d] by auto

text \<open>Printing an \<^verbatim>\<open>int64\<close> and parsing it back is the identity.\<close>

lemma ParseInt_FormatInt [simp]:
  assumes "in_int64 v"
  shows "ParseInt (FormatInt v) = Some v"
proof (cases "v < 0")
  case True
  then show ?thesis
    using assms format_nat_head [of "nat (- v)"]
    by (auto simp: FormatInt_def ParseInt_def parse_format_nat Let_def)
next
  case False
  obtain d ds where "format_nat (nat v) = digit d # ds" "d < 10"
    using format_nat_head by blast
  then show ?thesis
    using assms False parse_format_nat [of "nat v"] digit_not_sign [of d]
    by (auto simp: FormatInt_def ParseInt_def Let_def)
qed

end
