(* ===== verification/Apperr.thy ===== *)
theory Apperr
  imports Go_Strings
begin

text \<open>
  \<^verbatim>\<open>internal/platform/apperr\<close>: the error values every layer returns, their HTTP
  status, and Go's error chains. A Go \<^verbatim>\<open>error\<close> is one of
  \<^item> \<open>AppError\<close>: an \<^verbatim>\<open>*apperr.Error\<close> with its five fields;
  \<^item> \<open>Errorf\<close>: \<^verbatim>\<open>fmt.Errorf("msg: %w", err)\<close>, a text wrapped around a cause;
  \<^item> \<open>PgError\<close>: a \<^verbatim>\<open>*pgconn.PgError\<close> with its SQLSTATE code;
  \<^item> \<open>ErrNoRows\<close>: the driver's sentinel for an empty single-row query;
  \<^item> \<open>OtherError\<close>: any other error value, known by its text.
  The sentinel errors of the sources are package variables that no code copies or
  changes, so comparing the pointers is comparing the values.
\<close>

datatype kind =
    KindInternal
  | KindValidation
  | KindNotFound
  | KindConflict
  | KindUnauthorized
  | KindForbidden
  | KindPreconditionFailed
  | KindTooManyRequests
  | KindUnavailable

datatype go_error =
    AppError kind string string "string list" "go_error option"
  | Errorf string go_error
  | PgError string string
  | ErrNoRows
  | OtherError string

definition New :: "kind \<Rightarrow> string \<Rightarrow> string \<Rightarrow> go_error" where
  "New k code message = AppError k code message [] None"

definition Validation :: "string \<Rightarrow> string \<Rightarrow> go_error" where
  "Validation = New KindValidation"
definition NotFound :: "string \<Rightarrow> string \<Rightarrow> go_error" where
  "NotFound = New KindNotFound"
definition Conflict :: "string \<Rightarrow> string \<Rightarrow> go_error" where
  "Conflict = New KindConflict"
definition Unauthorized :: "string \<Rightarrow> string \<Rightarrow> go_error" where
  "Unauthorized = New KindUnauthorized"
definition Forbidden :: "string \<Rightarrow> string \<Rightarrow> go_error" where
  "Forbidden = New KindForbidden"
definition Precondition :: "string \<Rightarrow> string \<Rightarrow> go_error" where
  "Precondition = New KindPreconditionFailed"
definition TooManyRequests :: "string \<Rightarrow> string \<Rightarrow> go_error" where
  "TooManyRequests = New KindTooManyRequests"
definition Internal :: "string \<Rightarrow> string \<Rightarrow> go_error" where
  "Internal = New KindInternal"
definition Unavailable :: "string \<Rightarrow> string \<Rightarrow> go_error" where
  "Unavailable = New KindUnavailable"

lemmas apperr_ctors [forge_defs] =
  New_def Validation_def NotFound_def Conflict_def Unauthorized_def Forbidden_def
  Precondition_def TooManyRequests_def Internal_def Unavailable_def

text \<open>\<^verbatim>\<open>(*Error).WithCause\<close> and \<^verbatim>\<open>(*Error).WithDetails\<close>; only \<open>AppError\<close> has them.\<close>

fun WithCause :: "go_error \<Rightarrow> go_error \<Rightarrow> go_error" where
  "WithCause (AppError k c m d _) err = AppError k c m d (Some err)"
| "WithCause e err = e"

fun WithDetails :: "go_error \<Rightarrow> string list \<Rightarrow> go_error" where
  "WithDetails (AppError k c m d u) ds = AppError k c m (d @ ds) u"
| "WithDetails e ds = e"

text \<open>\<^verbatim>\<open>err.Error()\<close>.\<close>

fun error_text :: "go_error \<Rightarrow> string" where
  "error_text (AppError k c m d (Some u)) = m @ '': '' @ error_text u"
| "error_text (AppError k c m d None) = m"
| "error_text (Errorf msg u) = msg @ '': '' @ error_text u"
| "error_text (PgError code msg) = msg"
| "error_text ErrNoRows = ''no rows in result set''"
| "error_text (OtherError msg) = msg"

fun Unwrap :: "go_error \<Rightarrow> go_error option" where
  "Unwrap (AppError k c m d u) = u"
| "Unwrap (Errorf msg u) = Some u"
| "Unwrap _ = None"

text \<open>
  \<^verbatim>\<open>errors.As(err, &e)\<close> for \<^verbatim>\<open>*apperr.Error\<close>: the first such error along the
  \<^verbatim>\<open>Unwrap\<close> chain. An \<open>AppError\<close> is itself one, so the search stops there.
\<close>

fun As :: "go_error \<Rightarrow> go_error option" where
  "As (AppError k c m d u) = Some (AppError k c m d u)"
| "As (Errorf msg u) = As u"
| "As _ = None"

text \<open>\<^verbatim>\<open>errors.Is(err, target)\<close>: some error along the chain is the target.\<close>

fun Is :: "go_error \<Rightarrow> go_error \<Rightarrow> bool" where
  "Is (AppError k c m d u) t \<longleftrightarrow>
     AppError k c m d u = t \<or> (case u of None \<Rightarrow> False | Some e \<Rightarrow> Is e t)"
| "Is (Errorf msg u) t \<longleftrightarrow> Errorf msg u = t \<or> Is u t"
| "Is e t \<longleftrightarrow> e = t"

text \<open>The first \<^verbatim>\<open>*pgconn.PgError\<close> along the chain.\<close>

fun AsPg :: "go_error \<Rightarrow> (string \<times> string) option" where
  "AsPg (AppError k c m d (Some u)) = AsPg u"
| "AsPg (Errorf msg u) = AsPg u"
| "AsPg (PgError code msg) = Some (code, msg)"
| "AsPg _ = None"

definition isUniqueViolation :: "go_error \<Rightarrow> bool" where
  "isUniqueViolation err =
     (case AsPg err of None \<Rightarrow> False | Some (code, msg) \<Rightarrow> code = ''23505'')"

fun HTTPStatus :: "go_error \<Rightarrow> nat" where
  "HTTPStatus err =
     (case As err of
        Some (AppError k c m d u) \<Rightarrow>
          (case k of
             KindValidation \<Rightarrow> 422
           | KindNotFound \<Rightarrow> 404
           | KindConflict \<Rightarrow> 409
           | KindUnauthorized \<Rightarrow> 401
           | KindForbidden \<Rightarrow> 403
           | KindPreconditionFailed \<Rightarrow> 412
           | KindTooManyRequests \<Rightarrow> 429
           | KindUnavailable \<Rightarrow> 503
           | KindInternal \<Rightarrow> 500)
      | _ \<Rightarrow> 500)"

lemma As_AppError: "As e = Some e' \<Longrightarrow> \<exists>k c m d u. e' = AppError k c m d u"
  by (induction e rule: As.induct) auto

text \<open>Every error becomes a client or server error status, never a success or a redirect.\<close>

lemma HTTPStatus_range: "HTTPStatus e \<in> {401, 403, 404, 409, 412, 422, 429, 500, 503}"
proof (cases "As e")
  case (Some e')
  then obtain k c m d u where "e' = AppError k c m d u" by (blast dest: As_AppError)
  with Some show ?thesis by (cases k) auto
qed simp

text \<open>Wrapping with \<^verbatim>\<open>%w\<close> never changes the status an error is reported with.\<close>

lemma HTTPStatus_Errorf [simp]: "HTTPStatus (Errorf msg e) = HTTPStatus e"
  by simp

end
