(* ===== verification/Aggregate.thy ===== *)
theory Aggregate
  imports Apperr
begin

text \<open>
  The contracts the two bounded contexts (catalog services and tenants) share, as
  locales that their domain theories interpret on the model's own definitions:
  \<^item> \<open>text_enum\<close>: a string-valued enumeration with its parser;
  \<^item> \<open>status_machine\<close>: a transition table with one terminal status;
  \<^item> \<open>event_recorder\<close>: an aggregate whose successful operations either change nothing or
    advance the version by one and record exactly one event.
  \<open>attempt\<close> runs a list of requested operations against an aggregate, as successive
  requests do: a refused operation leaves it as it was.
\<close>

section \<open>String enumerations\<close>

locale text_enum =
  fixes parse :: "string \<Rightarrow> go_error + 'a"
    and text_of :: "'a \<Rightarrow> string"
  assumes parse_text: "parse (text_of x) = Inr x"
    and text_parse: "parse s = Inr x \<Longrightarrow> text_of x = s"
begin

lemma parse_iff: "parse s = Inr x \<longleftrightarrow> s = text_of x"
  using parse_text text_parse by auto

lemma text_inj: "text_of x = text_of y \<longleftrightarrow> x = y"
  by (metis parse_text sum.inject(2))

lemma parse_refuses: "(\<exists>e. parse s = Inl e) \<longleftrightarrow> s \<notin> range text_of"
  by (metis Inl_Inr_False obj_sumE parse_iff rangeE rangeI)

end

section \<open>Status transition tables\<close>

text \<open>One requested change of status under a transition table.\<close>

definition move :: "('a \<Rightarrow> 'a \<Rightarrow> bool) \<Rightarrow> 'a \<Rightarrow> 'a \<Rightarrow> 'a" where
  "move can s t = (if can s t then t else s)"

locale status_machine =
  fixes can :: "'a \<Rightarrow> 'a \<Rightarrow> bool"
    and terminal :: 'a
  assumes terminal_stuck: "\<not> can terminal t"
    and terminal_open: "s \<noteq> terminal \<Longrightarrow> can s terminal"
    and can_irrefl: "\<not> can s s"
begin

lemma terminal_absorbs: "foldl (move can) terminal ts = terminal"
  by (induction ts) (simp_all add: move_def terminal_stuck)

lemma can_reach_terminal: "move can s terminal = terminal"
  by (cases "s = terminal") (simp_all add: move_def terminal_open)

lemma terminal_iff_stuck: "(\<forall>t. \<not> can s t) \<longleftrightarrow> s = terminal"
  using terminal_stuck terminal_open by blast

end

section \<open>Aggregates that record events\<close>

fun attempt :: "('s \<Rightarrow> 'op \<Rightarrow> go_error + 's) \<Rightarrow> 's \<Rightarrow> 'op list \<Rightarrow> 's" where
  "attempt step s [] = s"
| "attempt step s (x # xs) = attempt step (case step s x of Inl e \<Rightarrow> s | Inr s' \<Rightarrow> s') xs"

lemma attempt_invariant:
  assumes "\<And>s x s'. P s \<Longrightarrow> step s x = Inr s' \<Longrightarrow> P s'" and "P s"
  shows "P (attempt step s xs)"
  using assms(2) by (induction xs arbitrary: s) (auto split: sum.splits intro: assms(1))

lemma int64_add: "int64 (int64 a + b) = int64 (a + b)"
proof -
  have "(int64 a + b + 2 ^ 63) mod 2 ^ 64 = ((a + 2 ^ 63) mod 2 ^ 64 + b) mod 2 ^ 64"
    by (simp add: int64_def)
  also have "\<dots> = (a + b + 2 ^ 63) mod 2 ^ 64"
    by (subst mod_add_left_eq) (simp add: ac_simps)
  finally show ?thesis by (simp add: int64_def)
qed

locale event_recorder =
  fixes step :: "'s \<Rightarrow> 'op \<Rightarrow> go_error + 's"
    and version :: "'s \<Rightarrow> int"
    and events :: "'s \<Rightarrow> 'e list"
  assumes step_records:
    "step s x = Inr s' \<Longrightarrow>
       s' = s \<or> (version s' = int64 (version s + 1) \<and> (\<exists>e. events s' = events s @ [e]))"
begin

text \<open>Over any sequence of requests the version counts the recorded events.\<close>

lemma version_counts_events:
  assumes "in_int64 (version s)"
  shows "\<exists>new. events (attempt step s xs) = events s @ new \<and>
    version (attempt step s xs) = int64 (version s + int (length new)) \<and> length new \<le> length xs"
  using assms
proof (induction xs arbitrary: s)
  case Nil
  then show ?case by simp
next
  case (Cons x xs)
  show ?case
  proof (cases "step s x")
    case (Inl e)
    with Cons.IH [OF Cons.prems] show ?thesis by auto
  next
    case (Inr s')
    then consider "s' = s"
      | e where "version s' = int64 (version s + 1)" "events s' = events s @ [e]"
      using step_records by blast
    then show ?thesis
    proof cases
      case 1
      with Inr Cons.IH [OF Cons.prems] show ?thesis by auto
    next
      case (2 e)
      then have "in_int64 (version s')" by simp
      then obtain new where "events (attempt step s' xs) = events s' @ new"
        "version (attempt step s' xs) = int64 (version s' + int (length new))"
        "length new \<le> length xs"
        using Cons.IH by blast
      with Inr 2 show ?thesis
        by (intro exI [of _ "e # new"]) (simp add: int64_add add.assoc)
    qed
  qed
qed

text \<open>A request that takes effect is visible in the version.\<close>

lemma version_moves: "step s x = Inr s' \<Longrightarrow> s' \<noteq> s \<Longrightarrow> version s' \<noteq> version s"
  using step_records [of s x s'] int64_Suc_ne [of "version s"] by auto

end

end
