(* ===== verification/Go_Regexp.thy ===== *)
theory Go_Regexp
  imports Go_Strings
begin

text \<open>
  Regular expressions as Go's \<^verbatim>\<open>regexp\<close> package matches them when the pattern is
  anchored with \<^verbatim>\<open>^\<close> and \<^verbatim>\<open>$\<close> (the only use in the sources): the whole text must
  be in the language. \<open>lang\<close> is the language, \<open>MatchString\<close> an executable matcher by
  derivatives, and \<open>MatchString_iff\<close> relates the two.
\<close>

datatype regexp =
    Empty
  | Eps
  | Class "(char \<times> char) list"
  | Seq regexp regexp
  | Alt regexp regexp
  | Star regexp

definition in_class :: "(char \<times> char) list \<Rightarrow> char \<Rightarrow> bool" where
  "in_class rs c \<longleftrightarrow> list_ex (\<lambda>(a, b). byte a \<le> byte c \<and> byte c \<le> byte b) rs"

text \<open>\<^verbatim>\<open>r?\<close>.\<close>

definition Opt :: "regexp \<Rightarrow> regexp" where
  "Opt r = Alt Eps r"

inductive_set star :: "string set \<Rightarrow> string set" for A where
  star_Nil: "[] \<in> star A"
| star_append: "u \<in> A \<Longrightarrow> v \<in> star A \<Longrightarrow> u @ v \<in> star A"

primrec lang :: "regexp \<Rightarrow> string set" where
  "lang Empty = {}"
| "lang Eps = {[]}"
| "lang (Class rs) = {[c] | c. in_class rs c}"
| "lang (Seq r s) = {u @ v | u v. u \<in> lang r \<and> v \<in> lang s}"
| "lang (Alt r s) = lang r \<union> lang s"
| "lang (Star r) = star (lang r)"

primrec nullable :: "regexp \<Rightarrow> bool" where
  "nullable Empty = False"
| "nullable Eps = True"
| "nullable (Class rs) = False"
| "nullable (Seq r s) = (nullable r \<and> nullable s)"
| "nullable (Alt r s) = (nullable r \<or> nullable s)"
| "nullable (Star r) = True"

primrec deriv :: "char \<Rightarrow> regexp \<Rightarrow> regexp" where
  "deriv c Empty = Empty"
| "deriv c Eps = Empty"
| "deriv c (Class rs) = (if in_class rs c then Eps else Empty)"
| "deriv c (Seq r s) =
     (if nullable r then Alt (Seq (deriv c r) s) (deriv c s) else Seq (deriv c r) s)"
| "deriv c (Alt r s) = Alt (deriv c r) (deriv c s)"
| "deriv c (Star r) = Seq (deriv c r) (Star r)"

definition MatchString :: "regexp \<Rightarrow> string \<Rightarrow> bool" where
  "MatchString r s = nullable (fold deriv s r)"

lemma nullable_iff: "nullable r \<longleftrightarrow> [] \<in> lang r"
  by (induction r) (auto intro: star_Nil)

lemma star_Cons:
  "c # w \<in> star A \<longleftrightarrow> (\<exists>u v. w = u @ v \<and> c # u \<in> A \<and> v \<in> star A)" (is "?L \<longleftrightarrow> ?R")
proof
  assume ?L
  then show ?R
  proof (induction "c # w" rule: star.induct)
    case (star_append u v)
    then show ?case by (cases u) auto
  qed
next
  assume ?R
  then obtain u v where "w = u @ v" "c # u \<in> A" "v \<in> star A" by blast
  with star_append [of "c # u" A v] show ?L by simp
qed

lemma Seq_Cons:
  "c # w \<in> lang (Seq r s) \<longleftrightarrow>
     (\<exists>u v. w = u @ v \<and> c # u \<in> lang r \<and> v \<in> lang s) \<or> ([] \<in> lang r \<and> c # w \<in> lang s)"
  by (auto simp: Cons_eq_append_conv)

lemma deriv_iff: "w \<in> lang (deriv c r) \<longleftrightarrow> c # w \<in> lang r"
proof (induction r arbitrary: w)
  case (Seq r s)
  then show ?case
    unfolding Seq_Cons by (auto simp: nullable_iff)
next
  case (Star r)
  then show ?case by (auto simp: star_Cons)
qed auto

theorem MatchString_iff: "MatchString r s \<longleftrightarrow> s \<in> lang r"
  unfolding MatchString_def
  by (induction s arbitrary: r) (simp_all add: nullable_iff deriv_iff)

lemma star_class: "w \<in> star {[c] | c. P c} \<longleftrightarrow> (\<forall>c \<in> set w. P c)"
proof
  show "w \<in> star {[c] | c. P c} \<Longrightarrow> \<forall>c \<in> set w. P c"
    by (induction rule: star.induct) auto
  show "\<forall>c \<in> set w. P c \<Longrightarrow> w \<in> star {[c] | c. P c}"
  proof (induction w)
    case (Cons c w)
    then show ?case using star_append [of "[c]" "{[c] | c. P c}" w] by simp
  qed (simp add: star_Nil)
qed

section \<open>DNS-1123 labels\<close>

text \<open>
  The pattern \<^verbatim>\<open>^[a-z0-9]([-a-z0-9]*[a-z0-9])?$\<close> of both bounded contexts.
\<close>

definition alnum :: "(char \<times> char) list" where
  "alnum = [(CHR ''a'', CHR ''z''), (CHR ''0'', CHR ''9'')]"

definition dash_alnum :: "(char \<times> char) list" where
  "dash_alnum = (CHR ''-'', CHR ''-'') # alnum"

definition dns1123_regexp :: regexp where
  "dns1123_regexp = Seq (Class alnum) (Opt (Seq (Star (Class dash_alnum)) (Class alnum)))"

text \<open>What the pattern means: first and last byte alphanumeric, dashes only inside.\<close>

definition dns1123 :: "string \<Rightarrow> bool" where
  "dns1123 s \<longleftrightarrow>
     s \<noteq> [] \<and> in_class alnum (hd s) \<and> in_class alnum (last s) \<and> list_all (in_class dash_alnum) s"

lemma alnum_dash: "in_class alnum c \<Longrightarrow> in_class dash_alnum c"
  by (simp add: dash_alnum_def in_class_def)

lemma dns1123_regexp_iff: "MatchString dns1123_regexp s \<longleftrightarrow> dns1123 s" (is "?L \<longleftrightarrow> ?R")
proof
  assume ?L
  then consider c where "s = [c]" "in_class alnum c"
    | c u d where "s = c # u @ [d]" "in_class alnum c" "in_class alnum d"
        "\<forall>x \<in> set u. in_class dash_alnum x"
    by (auto simp: MatchString_iff dns1123_regexp_def Opt_def star_class)
  then show ?R
    by cases (auto simp: dns1123_def list_all_iff alnum_dash)
next
  assume r: ?R
  then obtain c t where s: "s = c # t" by (cases s) (auto simp: dns1123_def)
  have "t \<in> lang (Opt (Seq (Star (Class dash_alnum)) (Class alnum)))"
  proof (cases t rule: rev_cases)
    case (snoc u d)
    with r s show ?thesis by (auto simp: Opt_def dns1123_def star_class list_all_iff)
  qed (simp add: Opt_def)
  moreover have "[c] \<in> lang (Class alnum)"
    using r s by (simp add: dns1123_def)
  ultimately have "[c] @ t \<in> lang dns1123_regexp"
    unfolding dns1123_regexp_def lang.simps(4) by blast
  then show ?L by (simp add: MatchString_iff s)
qed

text \<open>A label has no space at either end, so trimming leaves it alone.\<close>

lemma in_class_dash_alnum:
  "in_class dash_alnum c \<longleftrightarrow> byte c = 45 \<or> (97 \<le> byte c \<and> byte c \<le> 122) \<or> (48 \<le> byte c \<and> byte c \<le> 57)"
  by (auto simp: in_class_def dash_alnum_def alnum_def)

lemma HasPrefix_hd: "HasPrefix s w \<Longrightarrow> w \<noteq> [] \<Longrightarrow> s \<noteq> [] \<and> hd s = hd w"
  unfolding HasPrefix_def by (cases s; cases w) auto

lemma HasSuffix_last: "HasSuffix s w \<Longrightarrow> w \<noteq> [] \<Longrightarrow> s \<noteq> [] \<and> last s = last w"
  unfolding HasSuffix_def by (drule HasPrefix_hd) (auto simp: hd_rev)

lemma space_runes_outside:
  "w \<in> set space_runes \<Longrightarrow> w \<noteq> [] \<and> \<not> in_class dash_alnum (hd w) \<and> \<not> in_class dash_alnum (last w)"
  by (auto simp: space_runes_def in_class_dash_alnum)

lemma dns1123_TrimSpace: "dns1123 s \<Longrightarrow> TrimSpace s = s"
  by (rule TrimSpace_fixed)
    (auto simp: dns1123_def dest!: space_runes_outside HasPrefix_hd HasSuffix_last dest: alnum_dash)

end
