(* ===== verification/Forge_Ids.thy ===== *)
theory Forge_Ids
  imports Apperr "HOL-Library.Word"
begin

text \<open>
  Identifiers. A \<^verbatim>\<open>uuid.UUID\<close> is 16 bytes, here a 128-bit word, compared bytewise from
  the most significant byte (unsigned order), as PostgreSQL's \<^verbatim>\<open>uuid\<close> type does. The
  text form is that of the third-party package \<^verbatim>\<open>github.com/google/uuid\<close>, which is a
  parameter of the model (\<open>uuid_lib\<close>); what the sources rely on is \<open>uuid_laws\<close>: the
  text is plain ASCII and parsing it gives the identifier back. The canonical 8-4-4-4-12
  hexadecimal codec at the end satisfies it and serves as the concrete instance.
\<close>

type_synonym uuid = "128 word"

record uuid_lib =
  uuid_Parse :: "string \<Rightarrow> uuid option"
  uuid_String :: "uuid \<Rightarrow> string"

definition uuid_laws :: "uuid_lib \<Rightarrow> bool" where
  "uuid_laws U \<longleftrightarrow>
     (\<forall>u. uuid_Parse U (uuid_String U u) = Some u) \<and> (\<forall>u. ascii (uuid_String U u))"

lemma uuid_laws_Parse [simp]: "uuid_laws U \<Longrightarrow> uuid_Parse U (uuid_String U u) = Some u"
  by (simp add: uuid_laws_def)

lemma uuid_laws_ascii [simp]: "uuid_laws U \<Longrightarrow> ascii (uuid_String U u)"
  by (simp add: uuid_laws_def)

lemma uuid_laws_inj: "uuid_laws U \<Longrightarrow> uuid_String U u = uuid_String U v \<longleftrightarrow> u = v"
  by (metis option.inject uuid_laws_def)

section \<open>Aggregate identifiers\<close>

datatype service_id = ServiceID (ServiceID_UUID: uuid)
datatype tenant_id = TenantID (TenantID_UUID: uuid)

definition ErrInvalidServiceID :: go_error where
  "ErrInvalidServiceID = Validation ''INVALID_SERVICE_ID'' ''service id is not a valid identifier''"

definition ErrInvalidTenantID :: go_error where
  "ErrInvalidTenantID = Validation ''INVALID_TENANT_ID'' ''tenant id is not a valid identifier''"

definition ServiceIDFromString :: "uuid_lib \<Rightarrow> string \<Rightarrow> go_error + service_id" where
  "ServiceIDFromString U s =
     (case uuid_Parse U s of None \<Rightarrow> Inl ErrInvalidServiceID | Some u \<Rightarrow> Inr (ServiceID u))"

definition TenantIDFromString :: "uuid_lib \<Rightarrow> string \<Rightarrow> go_error + tenant_id" where
  "TenantIDFromString U s =
     (case uuid_Parse U s of None \<Rightarrow> Inl ErrInvalidTenantID | Some u \<Rightarrow> Inr (TenantID u))"

definition ServiceID_String :: "uuid_lib \<Rightarrow> service_id \<Rightarrow> string" where
  "ServiceID_String U i = uuid_String U (ServiceID_UUID i)"

definition TenantID_String :: "uuid_lib \<Rightarrow> tenant_id \<Rightarrow> string" where
  "TenantID_String U i = uuid_String U (TenantID_UUID i)"

lemma ServiceID_roundtrip [simp]:
  "uuid_laws U \<Longrightarrow> ServiceIDFromString U (ServiceID_String U i) = Inr i"
  by (simp add: ServiceIDFromString_def ServiceID_String_def)

lemma TenantID_roundtrip [simp]:
  "uuid_laws U \<Longrightarrow> TenantIDFromString U (TenantID_String U i) = Inr i"
  by (simp add: TenantIDFromString_def TenantID_String_def)

lemma ServiceID_String_inj: "uuid_laws U \<Longrightarrow> ServiceID_String U i = ServiceID_String U j \<longleftrightarrow> i = j"
  by (cases i; cases j) (simp add: ServiceID_String_def uuid_laws_inj)

section \<open>The canonical text form\<close>

fun hex_digits :: "nat \<Rightarrow> nat \<Rightarrow> nat list" where
  "hex_digits 0 n = []"
| "hex_digits (Suc k) n = hex_digits k (n div 16) @ [n mod 16]"

definition hex_char :: "nat \<Rightarrow> char" where
  "hex_char d = (if d < 10 then char_of (48 + d) else char_of (87 + d))"

definition hex_value :: "char \<Rightarrow> nat option" where
  "hex_value c =
     (if 48 \<le> byte c \<and> byte c \<le> 57 then Some (byte c - 48)
      else if 97 \<le> byte c \<and> byte c \<le> 102 then Some (byte c - 87) else None)"

fun hex_parse :: "nat \<Rightarrow> string \<Rightarrow> nat option" where
  "hex_parse acc [] = Some acc"
| "hex_parse acc (c # cs) =
     (case hex_value c of None \<Rightarrow> None | Some d \<Rightarrow> hex_parse (16 * acc + d) cs)"

definition dashed :: "string \<Rightarrow> string" where
  "dashed s = take 8 s @ ''-'' @ take 4 (drop 8 s) @ ''-'' @ take 4 (drop 12 s) @ ''-'' @
     take 4 (drop 16 s) @ ''-'' @ drop 20 s"

definition undashed :: "string \<Rightarrow> string" where
  "undashed s = take 8 s @ take 4 (drop 9 s) @ take 4 (drop 14 s) @ take 4 (drop 19 s) @ drop 24 s"

definition canonical_Parse :: "string \<Rightarrow> uuid option" where
  "canonical_Parse s =
     (if length s = 36 \<and> dashed (undashed s) = s
      then map_option of_nat (hex_parse 0 (undashed s)) else None)"

definition canonical_String :: "uuid \<Rightarrow> string" where
  "canonical_String u = dashed (map hex_char (hex_digits 32 (unat u)))"

definition canonical_uuid_lib :: uuid_lib where
  "canonical_uuid_lib = \<lparr>uuid_Parse = canonical_Parse, uuid_String = canonical_String\<rparr>"

lemma length_hex_digits [simp]: "length (hex_digits k n) = k"
  by (induction k n rule: hex_digits.induct) auto

lemma hex_digits_bound: "d \<in> set (hex_digits k n) \<Longrightarrow> d < 16"
  by (induction k n rule: hex_digits.induct) auto

lemma hex_value_char: "d < 16 \<Longrightarrow> hex_value (hex_char d) = Some d"
  by (auto simp: hex_value_def hex_char_def)

lemma hex_parse_append:
  "hex_parse acc (xs @ ys) = Option.bind (hex_parse acc xs) (\<lambda>a. hex_parse a ys)"
  by (induction xs arbitrary: acc) (auto split: option.splits)

lemma hex_parse_digits: "hex_parse 0 (map hex_char (hex_digits k n)) = Some (n mod 16 ^ k)"
proof (induction k n rule: hex_digits.induct)
  case (2 k n)
  have "n mod 16 ^ Suc k = 16 * (n div 16 mod 16 ^ k) + n mod 16"
    by (simp add: mod_mult2_eq)
  with 2 show ?case by (simp add: hex_parse_append hex_value_char)
qed simp

lemma undashed_dashed: "length s = 32 \<Longrightarrow> undashed (dashed s) = s"
proof -
  assume len: "length s = 32"
  have 1: "s = take 8 s @ drop 8 s" by simp
  have 2: "drop 8 s = take 4 (drop 8 s) @ drop 12 s"
    using append_take_drop_id [of 4 "drop 8 s"] by simp
  have 3: "drop 12 s = take 4 (drop 12 s) @ drop 16 s"
    using append_take_drop_id [of 4 "drop 12 s"] by simp
  have 4: "drop 16 s = take 4 (drop 16 s) @ drop 20 s"
    using append_take_drop_id [of 4 "drop 16 s"] by simp
  have "undashed (dashed s) =
      take 8 s @ take 4 (drop 8 s) @ take 4 (drop 12 s) @ take 4 (drop 16 s) @ drop 20 s"
    using len by (simp add: undashed_def dashed_def)
  then show ?thesis using 1 2 3 4 by metis
qed

lemma length_dashed: "length s = 32 \<Longrightarrow> length (dashed s) = 36"
  by (simp add: dashed_def)

lemma ascii_dashed: "ascii s \<Longrightarrow> ascii (dashed s)"
  unfolding ascii_def dashed_def by (auto dest!: in_set_takeD in_set_dropD)

lemma canonical_uuid_laws: "uuid_laws canonical_uuid_lib"
proof -
  have "(16::nat) ^ 32 = 2 ^ 128" by simp
  then have "hex_parse 0 (map hex_char (hex_digits 32 (unat u))) = Some (unat u)" for u :: uuid
    using unsigned_less [of u, where ?'a = nat] by (simp add: hex_parse_digits)
  moreover have "ascii (map hex_char (hex_digits k n))" for k n
    using hex_digits_bound by (fastforce simp: ascii_def hex_char_def)
  then have "ascii (canonical_String u)" for u
    unfolding canonical_String_def by (rule ascii_dashed)
  ultimately show ?thesis
    by (simp add: uuid_laws_def canonical_uuid_lib_def canonical_Parse_def canonical_String_def
        undashed_dashed length_dashed)
qed

end
