(* ===== verification/Catalog_Service.thy ===== *)
theory Catalog_Service
  imports Aggregate Go_Regexp Forge_Ids
begin

text \<open>
  \<^verbatim>\<open>internal/modules/catalog/domain\<close>: the value objects (\<open>values.go\<close>), the errors
  (\<open>errors.go\<close>), the domain events (\<open>events.go\<close>) and the \<open>Service\<close> aggregate
  (\<open>service.go\<close>). A method on \<^verbatim>\<open>*Service\<close> that returns an error is a function to
  \<open>go_error + service\<close>: every method checks its guards before it writes a field, so an
  error leaves the aggregate as it was.
\<close>

section \<open>Errors\<close>

definition ErrInvalidServiceName :: go_error where
  "ErrInvalidServiceName =
     Validation ''INVALID_SERVICE_NAME'' ''service name must be a DNS-1123 label of 1 to 63 characters''"
definition ErrInvalidTier :: go_error where
  "ErrInvalidTier = Validation ''INVALID_TIER'' ''tier must be an integer from 1 to 4''"
definition ErrInvalidLifecycle :: go_error where
  "ErrInvalidLifecycle =
     Validation ''INVALID_LIFECYCLE'' ''lifecycle must be one of experimental, production, deprecated, retired''"
definition ErrInvalidOwnership :: go_error where
  "ErrInvalidOwnership = Validation ''INVALID_OWNERSHIP'' ''owning team is required''"
definition ErrIllegalTransition :: go_error where
  "ErrIllegalTransition =
     Precondition ''ILLEGAL_LIFECYCLE_TRANSITION'' ''the requested lifecycle transition is not permitted''"
definition ErrOnCallRequired :: go_error where
  "ErrOnCallRequired =
     Precondition ''ONCALL_REQUIRED'' ''a service cannot enter production without an on-call reference''"
definition ErrAlreadyRetired :: go_error where
  "ErrAlreadyRetired = Precondition ''SERVICE_RETIRED'' ''a retired service cannot be modified''"
definition ErrServiceNotFound :: go_error where
  "ErrServiceNotFound = NotFound ''SERVICE_NOT_FOUND'' ''service not found''"
definition ErrNameConflict :: go_error where
  "ErrNameConflict =
     Conflict ''SERVICE_NAME_CONFLICT'' ''a service with this name already exists in the tenant''"
definition ErrVersionConflict :: go_error where
  "ErrVersionConflict =
     Conflict ''VERSION_CONFLICT'' ''the service was modified concurrently; retry with the current version''"

lemmas catalog_errors [forge_defs] =
  ErrInvalidServiceName_def ErrInvalidTier_def ErrInvalidLifecycle_def ErrInvalidOwnership_def
  ErrIllegalTransition_def ErrOnCallRequired_def ErrAlreadyRetired_def ErrServiceNotFound_def
  ErrNameConflict_def ErrVersionConflict_def

section \<open>Value objects\<close>

datatype service_name = ServiceName (ServiceName_String: string)

definition dns1123Label :: regexp where
  "dns1123Label = Seq (Class alnum) (Opt (Seq (Star (Class dash_alnum)) (Class alnum)))"

definition NewServiceName :: "string \<Rightarrow> go_error + service_name" where
  "NewServiceName s0 =
     (let s = TrimSpace s0
      in if length s < 1 \<or> length s > 63 \<or> \<not> MatchString dns1123Label s
         then Inl ErrInvalidServiceName else Inr (ServiceName s))"

datatype tier = Tier (Tier_Int: int)

definition NewTier :: "int \<Rightarrow> go_error + tier" where
  "NewTier t = (if t < 1 \<or> t > 4 then Inl ErrInvalidTier else Inr (Tier t))"

definition Tier_IsCritical :: "tier \<Rightarrow> bool" where
  "Tier_IsCritical t \<longleftrightarrow> Tier_Int t \<le> 2"

datatype lifecycle = Experimental | Production | Deprecated | Retired

primrec Lifecycle_string :: "lifecycle \<Rightarrow> string" where
  "Lifecycle_string Experimental = ''experimental''"
| "Lifecycle_string Production = ''production''"
| "Lifecycle_string Deprecated = ''deprecated''"
| "Lifecycle_string Retired = ''retired''"

fun lifecycleTransitions :: "lifecycle \<Rightarrow> lifecycle list" where
  "lifecycleTransitions Experimental = [Production, Deprecated, Retired]"
| "lifecycleTransitions Production = [Deprecated, Retired]"
| "lifecycleTransitions Deprecated = [Production, Retired]"
| "lifecycleTransitions Retired = []"

definition ParseLifecycle :: "string \<Rightarrow> go_error + lifecycle" where
  "ParseLifecycle s =
     (case find (\<lambda>l. Lifecycle_string l = s) [Experimental, Production, Deprecated, Retired] of
        None \<Rightarrow> Inl ErrInvalidLifecycle
      | Some l \<Rightarrow> Inr l)"

definition Lifecycle_canTransitionTo :: "lifecycle \<Rightarrow> lifecycle \<Rightarrow> bool" where
  "Lifecycle_canTransitionTo l target \<longleftrightarrow> target \<in> set (lifecycleTransitions l)"

record ownership =
  OwningTeam :: string
  OnCallRef :: string

definition NewOwnership :: "string \<Rightarrow> string \<Rightarrow> go_error + ownership" where
  "NewOwnership team0 onCall =
     (let team = TrimSpace team0
      in if team = '''' then Inl ErrInvalidOwnership
         else Inr \<lparr>OwningTeam = team, OnCallRef = TrimSpace onCall\<rparr>)"

definition Ownership_hasOnCall :: "ownership \<Rightarrow> bool" where
  "Ownership_hasOnCall own \<longleftrightarrow> OnCallRef own \<noteq> ''''"

section \<open>Domain events\<close>

record ev_base =
  ev_id :: string
  ev_at :: time

datatype service_event =
    ServiceRegistered ev_base string string int
  | ServiceOwnershipChanged ev_base string string
  | ServiceLifecycleChanged ev_base string string
  | ServiceRetired ev_base

primrec EventType :: "service_event \<Rightarrow> string" where
  "EventType (ServiceRegistered b tenantID name t) = ''catalog.service.registered''"
| "EventType (ServiceOwnershipChanged b prev new) = ''catalog.service.ownership_changed''"
| "EventType (ServiceLifecycleChanged b from to) = ''catalog.service.lifecycle_changed''"
| "EventType (ServiceRetired b) = ''catalog.service.retired''"

primrec event_base :: "service_event \<Rightarrow> ev_base" where
  "event_base (ServiceRegistered b tenantID name t) = b"
| "event_base (ServiceOwnershipChanged b prev new) = b"
| "event_base (ServiceLifecycleChanged b from to) = b"
| "event_base (ServiceRetired b) = b"

definition AggregateID :: "service_event \<Rightarrow> string" where
  "AggregateID e = ev_id (event_base e)"

definition OccurredAt :: "service_event \<Rightarrow> time" where
  "OccurredAt e = ev_at (event_base e)"

section \<open>The Service aggregate\<close>

record service =
  svc_id :: service_id
  svc_tenantID :: tenant_id
  svc_name :: service_name
  svc_description :: string
  svc_tier :: tier
  svc_lifecycle :: lifecycle
  svc_repository :: string
  svc_ownership :: ownership
  svc_version :: int
  svc_createdAt :: time
  svc_updatedAt :: time
  svc_events :: "service_event list"

definition Service_touch :: "time \<Rightarrow> service \<Rightarrow> service" where
  "Service_touch now s = s\<lparr>svc_version := int64 (svc_version s + 1), svc_updatedAt := now\<rparr>"

definition Service_record :: "service_event \<Rightarrow> service \<Rightarrow> service" where
  "Service_record e s = s\<lparr>svc_events := svc_events s @ [e]\<rparr>"

definition Register ::
    "uuid_lib \<Rightarrow> service_id \<Rightarrow> tenant_id \<Rightarrow> service_name \<Rightarrow> string \<Rightarrow> tier \<Rightarrow> string \<Rightarrow> ownership \<Rightarrow>
     time \<Rightarrow> service" where
  "Register U i tenantID name description t repository own now =
     Service_record
       (ServiceRegistered \<lparr>ev_id = ServiceID_String U i, ev_at = now\<rparr>
          (TenantID_String U tenantID) (ServiceName_String name) (Tier_Int t))
       \<lparr>svc_id = i, svc_tenantID = tenantID, svc_name = name, svc_description = description,
        svc_tier = t, svc_lifecycle = Experimental, svc_repository = repository,
        svc_ownership = own, svc_version = 1, svc_createdAt = now, svc_updatedAt = now,
        svc_events = []\<rparr>"

definition Reconstitute ::
    "service_id \<Rightarrow> tenant_id \<Rightarrow> service_name \<Rightarrow> string \<Rightarrow> tier \<Rightarrow> lifecycle \<Rightarrow> string \<Rightarrow> ownership \<Rightarrow>
     int \<Rightarrow> time \<Rightarrow> time \<Rightarrow> service" where
  "Reconstitute i tenantID name description t lc repository own version createdAt updatedAt =
     \<lparr>svc_id = i, svc_tenantID = tenantID, svc_name = name, svc_description = description,
      svc_tier = t, svc_lifecycle = lc, svc_repository = repository, svc_ownership = own,
      svc_version = version, svc_createdAt = createdAt, svc_updatedAt = updatedAt,
      svc_events = []\<rparr>"

definition Service_ChangeOwnership ::
    "uuid_lib \<Rightarrow> ownership \<Rightarrow> time \<Rightarrow> service \<Rightarrow> go_error + service" where
  "Service_ChangeOwnership U own now s =
     (if svc_lifecycle s = Retired then Inl ErrAlreadyRetired
      else if svc_lifecycle s = Production \<and> \<not> Ownership_hasOnCall own then Inl ErrOnCallRequired
      else let previous = OwningTeam (svc_ownership s)
           in Inr (Service_record
                (ServiceOwnershipChanged \<lparr>ev_id = ServiceID_String U (svc_id s), ev_at = now\<rparr>
                   previous (OwningTeam own))
                (Service_touch now (s\<lparr>svc_ownership := own\<rparr>))))"

definition Service_ChangeLifecycle ::
    "uuid_lib \<Rightarrow> lifecycle \<Rightarrow> time \<Rightarrow> service \<Rightarrow> go_error + service" where
  "Service_ChangeLifecycle U target now s =
     (if svc_lifecycle s = target then Inr s
      else if \<not> Lifecycle_canTransitionTo (svc_lifecycle s) target then Inl ErrIllegalTransition
      else if target = Production \<and> \<not> Ownership_hasOnCall (svc_ownership s)
      then Inl ErrOnCallRequired
      else let from = svc_lifecycle s
           in Inr (Service_record
                (ServiceLifecycleChanged \<lparr>ev_id = ServiceID_String U (svc_id s), ev_at = now\<rparr>
                   (Lifecycle_string from) (Lifecycle_string target))
                (Service_touch now (s\<lparr>svc_lifecycle := target\<rparr>))))"

definition Service_Retire :: "uuid_lib \<Rightarrow> time \<Rightarrow> service \<Rightarrow> go_error + service" where
  "Service_Retire U now s =
     (if svc_lifecycle s = Retired then Inr s
      else Inr (Service_record
             (ServiceRetired \<lparr>ev_id = ServiceID_String U (svc_id s), ev_at = now\<rparr>)
             (Service_touch now (s\<lparr>svc_lifecycle := Retired\<rparr>))))"

definition Service_PullEvents :: "service \<Rightarrow> service_event list \<times> service" where
  "Service_PullEvents s = (svc_events s, s\<lparr>svc_events := []\<rparr>)"

lemmas service_op_defs [forge_defs] =
  Service_ChangeOwnership_def Service_ChangeLifecycle_def Service_Retire_def Service_record_def
  Service_touch_def Let_def

text \<open>The mutations a client can request, as data.\<close>

datatype service_op =
    OpChangeOwnership ownership time
  | OpChangeLifecycle lifecycle time
  | OpRetire time

primrec service_step :: "uuid_lib \<Rightarrow> service \<Rightarrow> service_op \<Rightarrow> go_error + service" where
  "service_step U s (OpChangeOwnership own now) = Service_ChangeOwnership U own now s"
| "service_step U s (OpChangeLifecycle target now) = Service_ChangeLifecycle U target now s"
| "service_step U s (OpRetire now) = Service_Retire U now s"

section \<open>Value objects: what the constructors accept\<close>

definition name_ok :: "service_name \<Rightarrow> bool" where
  "name_ok n \<longleftrightarrow> dns1123 (ServiceName_String n) \<and> length (ServiceName_String n) \<le> 63"

definition tier_ok :: "tier \<Rightarrow> bool" where
  "tier_ok t \<longleftrightarrow> 1 \<le> Tier_Int t \<and> Tier_Int t \<le> 4"

definition ownership_ok :: "ownership \<Rightarrow> bool" where
  "ownership_ok own \<longleftrightarrow> OwningTeam own \<noteq> [] \<and> TrimSpace (OwningTeam own) = OwningTeam own \<and>
     TrimSpace (OnCallRef own) = OnCallRef own"

lemma dns1123Label_iff: "MatchString dns1123Label s \<longleftrightarrow> dns1123 s"
  using dns1123_regexp_iff [of s] by (simp add: dns1123Label_def dns1123_regexp_def)

lemma NewServiceName_eq:
  "NewServiceName s =
     (if dns1123 (TrimSpace s) \<and> length (TrimSpace s) \<le> 63
      then Inr (ServiceName (TrimSpace s)) else Inl ErrInvalidServiceName)"
  by (auto simp: NewServiceName_def Let_def dns1123Label_iff dns1123_def Suc_le_eq)

lemma NewServiceName_ok: "NewServiceName s = Inr n \<Longrightarrow> name_ok n"
  by (auto simp: NewServiceName_eq name_ok_def split: if_splits)

lemma NewServiceName_again [simp]: "name_ok n \<Longrightarrow> NewServiceName (ServiceName_String n) = Inr n"
  by (simp add: NewServiceName_eq name_ok_def dns1123_TrimSpace)

lemma NewTier_ok: "NewTier t = Inr r \<longleftrightarrow> r = Tier t \<and> tier_ok r"
  by (auto simp: NewTier_def tier_ok_def)

lemma NewTier_again [simp]: "tier_ok t \<Longrightarrow> NewTier (Tier_Int t) = Inr t"
  by (simp add: NewTier_ok)

lemma NewOwnership_ok: "NewOwnership team onCall = Inr own \<Longrightarrow> ownership_ok own"
  by (auto simp: NewOwnership_def ownership_ok_def Let_def split: if_splits)

lemma NewOwnership_again [simp]:
  "ownership_ok own \<Longrightarrow> NewOwnership (OwningTeam own) (OnCallRef own) = Inr own"
  by (simp add: NewOwnership_def ownership_ok_def)

interpretation lc: text_enum ParseLifecycle Lifecycle_string
proof
  show "ParseLifecycle (Lifecycle_string x) = Inr x" for x
    by (cases x) (simp_all add: ParseLifecycle_def)
  show "ParseLifecycle s = Inr x \<Longrightarrow> Lifecycle_string x = s" for s x
    by (auto simp: ParseLifecycle_def split: if_splits)
qed

interpretation lm: status_machine Lifecycle_canTransitionTo Retired
proof
  show "s \<noteq> Retired \<Longrightarrow> Lifecycle_canTransitionTo s Retired" for s
    by (cases s) (simp_all add: Lifecycle_canTransitionTo_def)
  show "\<not> Lifecycle_canTransitionTo s s" for s
    by (cases s) (simp_all add: Lifecycle_canTransitionTo_def)
qed (simp add: Lifecycle_canTransitionTo_def)

declare lc.parse_text [simp]

section \<open>Operations: branches, versions and events\<close>

interpretation sv: event_recorder "service_step U" svc_version svc_events for U
proof
  show "service_step U s x = Inr s' \<Longrightarrow>
      s' = s \<or> (svc_version s' = int64 (svc_version s + 1) \<and>
        (\<exists>e. svc_events s' = svc_events s @ [e]))" for s x s'
    by (cases x) (auto simp: forge_defs split: if_splits)
qed

text \<open>The invariant of a stored or live service.\<close>

definition service_ok :: "service \<Rightarrow> bool" where
  "service_ok s \<longleftrightarrow> name_ok (svc_name s) \<and> tier_ok (svc_tier s) \<and> ownership_ok (svc_ownership s) \<and>
     (svc_lifecycle s = Production \<longrightarrow> Ownership_hasOnCall (svc_ownership s)) \<and>
     in_int64 (svc_version s)"

text \<open>Requested ownerships come from the constructor, as in the command handlers.\<close>

fun op_ok :: "service_op \<Rightarrow> bool" where
  "op_ok (OpChangeOwnership own now) = ownership_ok own"
| "op_ok _ = True"

lemma service_step_ok [forge_inv]:
  assumes "service_ok s" and "op_ok x" and "service_step U s x = Inr s'"
  shows "service_ok s'"
  using assms by (cases x) (auto simp: forge_defs service_ok_def split: if_splits)

lemma Register_ok [forge_inv]:
  assumes "name_ok name" and "tier_ok t" and "ownership_ok own"
  shows "service_ok (Register U i tenantID name d t r own now)"
  using assms by (simp add: Register_def Service_record_def service_ok_def in_int64_def)

lemma attempt_service_ok:
  assumes "service_ok s" and "list_all op_ok xs"
  shows "service_ok (attempt (service_step U) s xs)"
  using assms by (induction xs arbitrary: s) (auto split: sum.splits intro: service_step_ok)

lemma service_step_retired:
  "svc_lifecycle s = Retired \<Longrightarrow> service_step U s x = Inr s' \<Longrightarrow> s' = s"
  by (cases x) (auto simp: forge_defs lm.terminal_stuck split: if_splits)

lemma attempt_retired: "svc_lifecycle s = Retired \<Longrightarrow> attempt (service_step U) s xs = s"
  by (rule attempt_invariant [where P = "\<lambda>t. t = s"]) (auto dest: service_step_retired)

lemma service_step_frame:
  assumes "service_step U s x = Inr s'"
  shows "svc_id s' = svc_id s" and "svc_tenantID s' = svc_tenantID s" and "svc_name s' = svc_name s"
    and "svc_createdAt s' = svc_createdAt s"
  using assms by (cases x; auto simp: forge_defs split: if_splits)+

section \<open>The event log as a specification\<close>

text \<open>
  What a consumer of the events can know about a service: its lifecycle and its owning
  team. \<open>replay\<close> folds the log and refuses an event that does not continue from the state
  reached so far.
\<close>

type_synonym service_view = "string \<times> string"

fun replay_event :: "service_event \<Rightarrow> service_view \<Rightarrow> service_view option" where
  "replay_event (ServiceRegistered b ten name t) (l, team) =
     (if l = [] then Some (Lifecycle_string Experimental, team) else None)"
| "replay_event (ServiceOwnershipChanged b prev new) (l, team) =
     (if prev = team \<and> l \<noteq> [] then Some (l, new) else None)"
| "replay_event (ServiceLifecycleChanged b from to) (l, team) =
     (if from = l then Some (to, team) else None)"
| "replay_event (ServiceRetired b) (l, team) =
     (if l \<noteq> [] then Some (Lifecycle_string Retired, team) else None)"

fun replay :: "service_view \<Rightarrow> service_event list \<Rightarrow> service_view option" where
  "replay v [] = Some v"
| "replay v (e # es) = (case replay_event e v of None \<Rightarrow> None | Some v' \<Rightarrow> replay v' es)"

definition view_of :: "service \<Rightarrow> service_view" where
  "view_of s = (Lifecycle_string (svc_lifecycle s), OwningTeam (svc_ownership s))"

lemma replay_snoc: "replay v es = Some v' \<Longrightarrow> replay v (es @ [e]) = replay_event e v'"
  by (induction es arbitrary: v) (auto split: option.splits)

lemma Lifecycle_string_nonempty [simp]: "Lifecycle_string l \<noteq> []"
  by (cases l) auto

lemma service_step_replay:
  assumes "replay v (svc_events s) = Some (view_of s)" and "service_step U s x = Inr s'"
  shows "replay v (svc_events s') = Some (view_of s')"
  using assms
  by (cases x) (auto simp: forge_defs view_of_def replay_snoc split: if_splits)

lemma Register_replay:
  "replay ([], OwningTeam own) (svc_events (Register U i ten name d t r own now)) =
     Some (view_of (Register U i ten name d t r own now))"
  by (simp add: Register_def Service_record_def view_of_def)

section \<open>Properties\<close>

text \<open>
  A service name is accepted exactly when, after trimming Unicode white space, it is a
  DNS-1123 label of at most 63 bytes (first and last byte alphanumeric, dashes inside); the
  accepted value is the trimmed text, and the regular expression matcher of the code
  decides it.
\<close>

lemma NewServiceName_accepts:
  "NewServiceName s =
     (let n = TrimSpace s
      in if n \<noteq> [] \<and> length n \<le> 63 \<and> in_class alnum (hd n) \<and> in_class alnum (last n) \<and>
            list_all (in_class dash_alnum) n
         then Inr (ServiceName n) else Inl ErrInvalidServiceName)"
  by (auto simp: NewServiceName_eq Let_def dns1123_def)

text \<open>
  C9: Every service built from validated values and put through any sequence of requested
  ownership, lifecycle and retirement changes, refused ones included, keeps the aggregate's
  invariant; in particular it is never in production without an on-call reference.
\<close>

theorem service_invariant:
  assumes "NewServiceName n = Inr name" and "NewTier t = Inr tr"
    and "NewOwnership team onCall = Inr own" and "list_all op_ok xs"
  shows "service_ok (attempt (service_step U) (Register U i ten name d tr r own now) xs)"
  by (intro attempt_service_ok Register_ok)
    (use assms in \<open>auto simp: NewTier_ok dest: NewServiceName_ok NewOwnership_ok\<close>)

text \<open>Witness: a registered service, promoted, refused an empty on-call, then retired.\<close>

theorem service_invariant_witness:
  "service_ok
     (attempt (service_step canonical_uuid_lib)
        (Register canonical_uuid_lib (ServiceID 7) (TenantID 1) (ServiceName ''pay-1'') [] (Tier 1) []
           \<lparr>OwningTeam = ''pay'', OnCallRef = ''pd''\<rparr> 5)
        [OpChangeLifecycle Production 6, OpChangeOwnership \<lparr>OwningTeam = ''core'', OnCallRef = []\<rparr> 7,
         OpRetire 8])"
proof (rule service_invariant [where n = "''pay-1''" and t = 1 and team = "''pay''" and onCall = "''pd''"])
  show "NewServiceName ''pay-1'' = Inr (ServiceName ''pay-1'')" by code_simp
  show "NewTier 1 = Inr (Tier 1)" by code_simp
  show "NewOwnership ''pay'' ''pd'' = Inr \<lparr>OwningTeam = ''pay'', OnCallRef = ''pd''\<rparr>" by code_simp
  show "list_all op_ok
      [OpChangeLifecycle Production 6, OpChangeOwnership \<lparr>OwningTeam = ''core'', OnCallRef = []\<rparr> 7,
       OpRetire 8]" by code_simp
qed

text \<open>
  C10: Retirement always succeeds and is final: whatever is requested afterwards, the retired
  service keeps every field, its version and its recorded events.
\<close>

theorem retire_is_final:
  "\<exists>s'. Service_Retire U now s = Inr s' \<and> svc_lifecycle s' = Retired \<and>
     attempt (service_step U) s' xs = s'"
  by (cases "svc_lifecycle s = Retired") (auto simp: forge_defs attempt_retired)

text \<open>
  The events recorded since registration are a complete and gap-free log of a service:
  their number is the aggregate's version (as an int64 counter), each one continues from the
  state the previous ones lead to, and replaying them gives the current lifecycle and owning
  team.
\<close>

lemma event_log_complete:
  "let s = attempt (service_step U) (Register U i ten name d t r own now) xs
   in svc_version s = int64 (int (length (svc_events s))) \<and>
      replay ([], OwningTeam own) (svc_events s) = Some (view_of s)"
proof -
  let ?s0 = "Register U i ten name d t r own now"
  define s where "s = attempt (service_step U) ?s0 xs"
  have v0: "svc_version ?s0 = 1" and e0: "length (svc_events ?s0) = 1"
    by (simp_all add: Register_def Service_record_def)
  obtain new where "svc_events s = svc_events ?s0 @ new"
    "svc_version s = int64 (svc_version ?s0 + int (length new))"
    using sv.version_counts_events [of ?s0 U xs] v0 by (auto simp: in_int64_def s_def)
  then have "svc_version s = int64 (int (length (svc_events s)))"
    using v0 e0 by simp
  moreover have "replay ([], OwningTeam own) (svc_events s) = Some (view_of s)"
    unfolding s_def
    by (rule attempt_invariant [where P = "\<lambda>s. replay ([], OwningTeam own) (svc_events s) = Some (view_of s)"])
      (auto intro: service_step_replay Register_replay)
  ultimately show ?thesis by (simp add: s_def Let_def)
qed

end
