(* ===== verification/Go_Json.thy ===== *)
theory Go_Json
  imports Go_Strings
begin

text \<open>
  \<^verbatim>\<open>encoding/json\<close> on byte strings: the compact encoding \<^verbatim>\<open>json.Marshal\<close> writes (with its HTML
  and UTF-8 escapes), the grammar \<^verbatim>\<open>json.Unmarshal\<close> and \<^verbatim>\<open>Decoder.Decode\<close> accept, and the
  decoding of an object into the fields of a struct. A number is kept as its literal, which
  the decoder hands to \<^verbatim>\<open>strconv\<close> for the field's type. The parser carries fuel; twice the
  length of the text is enough (\<open>parse_fuel_enough\<close>), because a value inside brackets is
  reached by two calls and lies behind a bracket.
\<close>

datatype json =
    JNull
  | JBool bool
  | JNum string
  | JStr string
  | JArr "json list"
  | JObj "(string \<times> json) list"

definition JInt :: "int \<Rightarrow> json" where
  "JInt n = JNum (FormatInt n)"

section \<open>UTF-8\<close>

abbreviation cont :: "nat \<Rightarrow> nat \<Rightarrow> char \<Rightarrow> bool" where
  "cont lo hi c \<equiv> lo \<le> byte c \<and> byte c \<le> hi"

text \<open>\<^verbatim>\<open>utf8.DecodeRune\<close> on a non-empty string: the rune and its width; invalid is U+FFFD, 1.\<close>

fun DecodeRune :: "string \<Rightarrow> nat \<times> nat" where
  "DecodeRune s =
     (case s of
        [] \<Rightarrow> (0xFFFD, 0)
      | a # r \<Rightarrow>
         (let x = byte a
          in if x < 0x80 then (x, 1)
             else case r of
               [] \<Rightarrow> (0xFFFD, 1)
             | b # r2 \<Rightarrow>
                (if 0xC2 \<le> x \<and> x \<le> 0xDF
                 then (if cont 0x80 0xBF b then (x mod 32 * 64 + byte b mod 64, 2) else (0xFFFD, 1))
                 else if 0xE0 \<le> x \<and> x \<le> 0xF4 \<and>
                    cont (if x = 0xE0 then 0xA0 else if x = 0xF0 then 0x90 else 0x80)
                         (if x = 0xED then 0x9F else if x = 0xF4 then 0x8F else 0xBF) b
                 then (case r2 of
                         [] \<Rightarrow> (0xFFFD, 1)
                       | c # r3 \<Rightarrow>
                          (if \<not> cont 0x80 0xBF c then (0xFFFD, 1)
                           else if x < 0xF0
                           then ((x mod 16 * 64 + byte b mod 64) * 64 + byte c mod 64, 3)
                           else case r3 of
                                  [] \<Rightarrow> (0xFFFD, 1)
                                | d # r4 \<Rightarrow>
                                   (if cont 0x80 0xBF d
                                    then (((x mod 8 * 64 + byte b mod 64) * 64 + byte c mod 64) * 64 + byte d mod 64, 4)
                                    else (0xFFFD, 1))))
                 else (0xFFFD, 1))))"

declare DecodeRune.simps [simp del]

definition EncodeRune :: "nat \<Rightarrow> string" where
  "EncodeRune r =
     (if r < 0x80 then [char_of r]
      else if r < 0x800 then [char_of (0xC0 + r div 64), char_of (0x80 + r mod 64)]
      else if r < 0x10000
      then [char_of (0xE0 + r div 4096), char_of (0x80 + r div 64 mod 64), char_of (0x80 + r mod 64)]
      else [char_of (0xF0 + r div 262144), char_of (0x80 + r div 4096 mod 64),
            char_of (0x80 + r div 64 mod 64), char_of (0x80 + r mod 64)])"

lemma DecodeRune_width: "s \<noteq> [] \<Longrightarrow> 1 \<le> snd (DecodeRune s)"
  by (auto simp: DecodeRune.simps [of s] Let_def split: list.split if_splits)

text \<open>\<^verbatim>\<open>utf8.Valid\<close>.\<close>

function utf8_valid :: "string \<Rightarrow> bool" where
  "utf8_valid [] = True"
| "utf8_valid (c # s) =
     (let (r, n) = DecodeRune (c # s)
      in \<not> (r = 0xFFFD \<and> n = 1) \<and> utf8_valid (drop n (c # s)))"
  by pat_completeness auto
termination
proof (relation "measure length")
  show "(drop n (c # s), c # s) \<in> measure length" if "x = DecodeRune (c # s)" "(r, n) = x" for c s x r n
    using that DecodeRune_width [of "c # s"] by (cases n) (auto dest: sym)
qed simp

lemma utf8_valid_ascii: "ascii s \<Longrightarrow> utf8_valid s"
  by (induction s) (simp_all add: DecodeRune.simps)

lemma utf8_valid_code [code]:
  "utf8_valid [] = True"
  "utf8_valid (c # s) =
     (if byte c < 128 then utf8_valid s
      else let (r, n) = DecodeRune (c # s)
           in \<not> (r = 0xFFFD \<and> n = 1) \<and> utf8_valid (drop n (c # s)))"
  by (simp_all add: DecodeRune.simps)

section \<open>Encoding\<close>

definition html_safe :: "char \<Rightarrow> bool" where
  "html_safe c \<longleftrightarrow> 32 \<le> byte c \<and> byte c < 128 \<and> c \<notin> {CHR 0x22, CHR 0x5C, CHR ''<'', CHR ''>'', CHR ''&''}"

definition hex_low :: "nat \<Rightarrow> char" where
  "hex_low n = (if n < 10 then char_of (48 + n) else char_of (87 + n))"

definition escape_ascii :: "char \<Rightarrow> string" where
  "escape_ascii c =
     (if html_safe c then [c]
      else if c = CHR 0x22 \<or> c = CHR 0x5C then [CHR 0x5C, c]
      else if c = CHR 0x08 then [CHR 0x5C, CHR ''b'']
      else if c = CHR 0x0C then [CHR 0x5C, CHR ''f'']
      else if c = CHR 0x0A then [CHR 0x5C, CHR ''n'']
      else if c = CHR 0x0D then [CHR 0x5C, CHR ''r'']
      else if c = CHR 0x09 then [CHR 0x5C, CHR ''t'']
      else CHR 0x5C # ''u00'' @ [hex_low (byte c div 16), hex_low (byte c mod 16)])"

function escape :: "string \<Rightarrow> string" where
  "escape [] = []"
| "escape (c # s) =
     (if byte c < 128 then escape_ascii c @ escape s
      else let (r, n) = DecodeRune (c # s)
           in (if r = 0xFFFD \<and> n = 1 then CHR 0x5C # ''ufffd''
               else if r = 0x2028 \<or> r = 0x2029 then CHR 0x5C # ''u202'' @ [hex_low (r mod 16)]
               else take n (c # s)) @ escape (drop (n - 1) s))"
  by pat_completeness auto
termination by (relation "measure length") auto

definition quote :: "string \<Rightarrow> string" where
  "quote s = CHR 0x22 # escape s @ [CHR 0x22]"

fun join :: "string \<Rightarrow> string list \<Rightarrow> string" where
  "join sep [] = []"
| "join sep [x] = x"
| "join sep (x # y # r) = x @ sep @ join sep (y # r)"

fun Marshal :: "json \<Rightarrow> string" where
  "Marshal JNull = ''null''"
| "Marshal (JBool b) = (if b then ''true'' else ''false'')"
| "Marshal (JNum n) = n"
| "Marshal (JStr s) = quote s"
| "Marshal (JArr vs) = ''['' @ join '','' (map Marshal vs) @ '']''"
| "Marshal (JObj ms) = ''{'' @ join '','' (map (\<lambda>(k, v). quote k @ '':'' @ Marshal v) ms) @ ''}''"

section \<open>Parsing\<close>

definition is_space :: "char \<Rightarrow> bool" where
  "is_space c \<longleftrightarrow> c \<in> {CHR 0x20, CHR 0x09, CHR 0x0A, CHR 0x0D}"

abbreviation skip :: "string \<Rightarrow> string" where
  "skip s \<equiv> dropWhile is_space s"

definition hex_any :: "char \<Rightarrow> nat option" where
  "hex_any c =
     (let b = byte c
      in if 48 \<le> b \<and> b \<le> 57 then Some (b - 48)
         else if 97 \<le> b \<and> b \<le> 102 then Some (b - 87)
         else if 65 \<le> b \<and> b \<le> 70 then Some (b - 55) else None)"

fun hex4 :: "string \<Rightarrow> nat option" where
  "hex4 (a # b # c # d # s) =
     (case (hex_any a, hex_any b, hex_any c, hex_any d) of
        (Some w, Some x, Some y, Some z) \<Rightarrow> Some (((w * 16 + x) * 16 + y) * 16 + z)
      | _ \<Rightarrow> None)"
| "hex4 _ = None"

definition surrogate :: "nat \<Rightarrow> bool" where
  "surrogate r \<longleftrightarrow> 0xD800 \<le> r \<and> r < 0xE000"

text \<open>
  The rune of a \<^verbatim>\<open>\u\<close> escape whose four digits start \<open>s\<close>, and the rest: a surrogate pair is
  one rune, a lone surrogate is U+FFFD. Malformed digits are \<open>None\<close>.
\<close>

definition unicode_escape :: "string \<Rightarrow> (nat \<times> string) option" where
  "unicode_escape s =
     (case hex4 s of
        None \<Rightarrow> None
      | Some r \<Rightarrow>
          (let rest = drop 4 s
           in if \<not> surrogate r then Some (r, rest)
              else case (if take 2 rest = [CHR 0x5C, CHR ''u''] then hex4 (drop 2 rest) else None) of
                     Some r2 \<Rightarrow>
                       (if r < 0xDC00 \<and> 0xDC00 \<le> r2 \<and> r2 < 0xE000
                        then Some ((r - 0xD800) * 1024 + (r2 - 0xDC00) + 0x10000, drop 6 rest)
                        else Some (0xFFFD, rest))
                   | None \<Rightarrow> Some (0xFFFD, rest)))"

definition simple_escape :: "char \<Rightarrow> char option" where
  "simple_escape e =
     (if e \<in> {CHR 0x22, CHR 0x5C, CHR ''/''} then Some e
      else if e = CHR ''b'' then Some (CHR 0x08) else if e = CHR ''f'' then Some (CHR 0x0C)
      else if e = CHR ''n'' then Some (CHR 0x0A) else if e = CHR ''r'' then Some (CHR 0x0D)
      else if e = CHR ''t'' then Some (CHR 0x09) else None)"

lemma unicode_escape_shorter: "unicode_escape s = Some (r, t) \<Longrightarrow> length t < length s"
  by (cases s rule: hex4.cases)
    (auto simp: unicode_escape_def Let_def split: option.splits if_splits)

text \<open>The rest of a string literal after its opening quote: its value and what follows it.\<close>

function unquote :: "string \<Rightarrow> (string \<times> string) option" where
  "unquote [] = None"
| "unquote (c # s) =
     (if c = CHR 0x22 then Some ([], s)
      else if c = CHR 0x5C
      then (case s of
              [] \<Rightarrow> None
            | e # t \<Rightarrow>
                (if e = CHR ''u''
                 then (case unicode_escape t of
                         None \<Rightarrow> None
                       | Some (r, u) \<Rightarrow> map_option (apfst ((@) (EncodeRune r))) (unquote u))
                 else case simple_escape e of
                        None \<Rightarrow> None
                      | Some x \<Rightarrow> map_option (apfst ((#) x)) (unquote t)))
      else if byte c < 32 then None
      else if byte c < 128 then map_option (apfst ((#) c)) (unquote s)
      else let (r, n) = DecodeRune (c # s)
           in map_option (apfst ((@) (EncodeRune r))) (unquote (drop (n - 1) s)))"
  by pat_completeness auto
termination
  by (relation "measure length") (auto dest: unicode_escape_shorter)

definition digits :: "string \<Rightarrow> (string \<times> string) option" where
  "digits s = (let ds = takeWhile is_digit s in if ds = [] then None else Some (ds, drop (length ds) s))"

definition int_part :: "string \<Rightarrow> (string \<times> string) option" where
  "int_part s = (if s \<noteq> [] \<and> hd s = CHR ''0'' then Some (''0'', tl s) else digits s)"

definition frac_part :: "string \<Rightarrow> (string \<times> string) option" where
  "frac_part s =
     (if s \<noteq> [] \<and> hd s = CHR ''.'' then map_option (apfst ((#) (CHR ''.''))) (digits (tl s))
      else Some ([], s))"

definition exp_part :: "string \<Rightarrow> (string \<times> string) option" where
  "exp_part s =
     (if s \<noteq> [] \<and> hd s \<in> {CHR ''e'', CHR ''E''}
      then let sgn = (if tl s \<noteq> [] \<and> hd (tl s) \<in> {CHR ''+'', CHR ''-''} then [hd (tl s)] else [])
           in map_option (apfst ((@) (hd s # sgn))) (digits (drop (1 + length sgn) s))
      else Some ([], s))"

definition number :: "string \<Rightarrow> (string \<times> string) option" where
  "number s =
     (let sgn = (if s \<noteq> [] \<and> hd s = CHR ''-'' then ''-'' else [])
      in case int_part (drop (length sgn) s) of
           None \<Rightarrow> None
         | Some (i, s1) \<Rightarrow>
       (case frac_part s1 of
          None \<Rightarrow> None
        | Some (f, s2) \<Rightarrow>
       (case exp_part s2 of
          None \<Rightarrow> None
        | Some (e, s3) \<Rightarrow> Some (sgn @ i @ f @ e, s3))))"

text \<open>Values nested at most 10000 deep, as the scanner allows.\<close>

definition maxNestingDepth :: nat where
  "maxNestingDepth = 10000"

fun parse_value :: "nat \<Rightarrow> nat \<Rightarrow> string \<Rightarrow> (json \<times> string) option"
  and parse_elements :: "nat \<Rightarrow> nat \<Rightarrow> string \<Rightarrow> (json list \<times> string) option"
  and parse_members :: "nat \<Rightarrow> nat \<Rightarrow> string \<Rightarrow> ((string \<times> json) list \<times> string) option" where
  "parse_value 0 d s = None"
| "parse_value (Suc n) d s =
     (case skip s of
        [] \<Rightarrow> None
      | c # t \<Rightarrow>
         (if c = CHR 0x22 then map_option (apfst JStr) (unquote t)
          else if c = CHR ''['' \<or> c = CHR ''{''
          then (if d \<ge> maxNestingDepth then None
                else if c = CHR ''[''
                then (if skip t \<noteq> [] \<and> hd (skip t) = CHR '']'' then Some (JArr [], tl (skip t))
                      else map_option (apfst JArr) (parse_elements n (Suc d) t))
                else (if skip t \<noteq> [] \<and> hd (skip t) = CHR ''}'' then Some (JObj [], tl (skip t))
                      else map_option (apfst JObj) (parse_members n (Suc d) t)))
          else if take 4 (c # t) = ''null'' then Some (JNull, drop 4 (c # t))
          else if take 4 (c # t) = ''true'' then Some (JBool True, drop 4 (c # t))
          else if take 5 (c # t) = ''false'' then Some (JBool False, drop 5 (c # t))
          else map_option (apfst JNum) (number (c # t))))"
| "parse_elements 0 d s = None"
| "parse_elements (Suc n) d s =
     (case parse_value n d s of
        None \<Rightarrow> None
      | Some (v, t) \<Rightarrow>
         (case skip t of
            [] \<Rightarrow> None
          | c # u \<Rightarrow>
             (if c = CHR '','' then map_option (apfst ((#) v)) (parse_elements n d u)
              else if c = CHR '']'' then Some ([v], u) else None)))"
| "parse_members 0 d s = None"
| "parse_members (Suc n) d s =
     (case skip s of
        [] \<Rightarrow> None
      | q # s1 \<Rightarrow>
         (if q \<noteq> CHR 0x22 then None
          else case unquote s1 of
                 None \<Rightarrow> None
               | Some (k, s2) \<Rightarrow>
                  (if skip s2 = [] \<or> hd (skip s2) \<noteq> CHR '':'' then None
                   else case parse_value n d (tl (skip s2)) of
                          None \<Rightarrow> None
                        | Some (v, t) \<Rightarrow>
                           (case skip t of
                              [] \<Rightarrow> None
                            | c # u \<Rightarrow>
                               (if c = CHR '','' then map_option (apfst ((#) (k, v))) (parse_members n d u)
                                else if c = CHR ''}'' then Some ([(k, v)], u) else None)))))"

text \<open>
  \<^verbatim>\<open>json.Unmarshal\<close> wants one value and nothing after it; \<^verbatim>\<open>Decoder.Decode\<close> takes the first
  value of the stream and leaves the rest unread.
\<close>

definition Unmarshal :: "string \<Rightarrow> json option" where
  "Unmarshal s =
     (case parse_value (2 * length s + 1) 0 s of
        Some (v, t) \<Rightarrow> (if skip t = [] then Some v else None)
      | None \<Rightarrow> None)"

definition Decoder_Decode :: "string \<Rightarrow> json option" where
  "Decoder_Decode s = map_option fst (parse_value (2 * length s + 1) 0 s)"

section \<open>Structs\<close>

text \<open>
  Decoding into a struct. A member is matched to a field by its exact name, else by case
  folding; \<open>dst\<close> folds the members in order, so a later duplicate wins; \<^verbatim>\<open>null\<close> leaves a field
  as it is; a value of another type is an error. The decoder of a field takes the old value.
\<close>

fun fold_name :: "string \<Rightarrow> string" where
  "fold_name (a # b # c # s) =
     (if a = CHR 0xE2 \<and> b = CHR 0x84 \<and> c = CHR 0xAA then CHR ''K'' # fold_name s
      else if a = CHR 0xC5 \<and> b = CHR 0xBF then CHR ''S'' # fold_name (c # s)
      else (if 97 \<le> byte a \<and> byte a \<le> 122 then char_of (byte a - 32) else a) # fold_name (b # c # s))"
| "fold_name [a, b] =
     (if a = CHR 0xC5 \<and> b = CHR 0xBF then [CHR ''S'']
      else map (\<lambda>c. if 97 \<le> byte c \<and> byte c \<le> 122 then char_of (byte c - 32) else c) [a, b])"
| "fold_name [a] = [if 97 \<le> byte a \<and> byte a \<le> 122 then char_of (byte a - 32) else a]"
| "fold_name [] = []"

definition field_for :: "(string \<times> 'f) list \<Rightarrow> string \<Rightarrow> 'f option" where
  "field_for fs k =
     (case map_of fs k of
        Some f \<Rightarrow> Some f
      | None \<Rightarrow> map_of (map (apfst fold_name) fs) (fold_name k))"

definition string_field :: "(string \<Rightarrow> 'a \<Rightarrow> 'a) \<Rightarrow> json \<Rightarrow> 'a \<Rightarrow> 'a option" where
  "string_field put v r = (case v of JNull \<Rightarrow> Some r | JStr s \<Rightarrow> Some (put s r) | _ \<Rightarrow> None)"

definition int_field :: "(int \<Rightarrow> 'a \<Rightarrow> 'a) \<Rightarrow> json \<Rightarrow> 'a \<Rightarrow> 'a option" where
  "int_field put v r =
     (case v of
        JNull \<Rightarrow> Some r
      | JNum n \<Rightarrow> (case ParseInt n of Some i \<Rightarrow> Some (put i r) | None \<Rightarrow> None)
      | _ \<Rightarrow> None)"

fun decode_members ::
    "bool \<Rightarrow> (string \<times> (json \<Rightarrow> 'a \<Rightarrow> 'a option)) list \<Rightarrow> (string \<times> json) list \<Rightarrow> 'a \<Rightarrow> 'a option" where
  "decode_members strict fs [] r = Some r"
| "decode_members strict fs ((k, v) # ms) r =
     (case field_for fs k of
        None \<Rightarrow> (if strict then None else decode_members strict fs ms r)
      | Some put \<Rightarrow> (case put v r of None \<Rightarrow> None | Some r' \<Rightarrow> decode_members strict fs ms r'))"

definition decode_struct ::
    "bool \<Rightarrow> (string \<times> (json \<Rightarrow> 'a \<Rightarrow> 'a option)) list \<Rightarrow> json \<Rightarrow> 'a \<Rightarrow> 'a option" where
  "decode_struct strict fs v zero =
     (case v of JNull \<Rightarrow> Some zero | JObj ms \<Rightarrow> decode_members strict fs ms zero | _ \<Rightarrow> None)"

section \<open>Printing and parsing back\<close>

lemma hex_any_low [simp]: "n < 16 \<Longrightarrow> hex_any (hex_low n) = Some n"
  by (auto simp: hex_any_def hex_low_def Let_def)

lemma append_single: "(@) [c] = (#) c"
  by auto

lemma unquote_escape_ascii:
  assumes "byte c < 128"
  shows "unquote (escape_ascii c @ s) = map_option (apfst ((#) c)) (unquote s)"
proof (cases "html_safe c")
  case True
  then show ?thesis using assms by (auto simp: escape_ascii_def html_safe_def)
next
  case False
  consider "c \<in> {CHR 0x22, CHR 0x5C, CHR 0x08, CHR 0x0C, CHR 0x0A, CHR 0x0D, CHR 0x09}"
    | "c \<notin> {CHR 0x22, CHR 0x5C, CHR 0x08, CHR 0x0C, CHR 0x0A, CHR 0x0D, CHR 0x09}" by blast
  then show ?thesis
  proof cases
    case 1
    with False show ?thesis by (auto simp: escape_ascii_def html_safe_def simple_escape_def)
  next
    case 2
    let ?u = "''00'' @ [hex_low (byte c div 16), hex_low (byte c mod 16)] @ s"
    have "hex4 ?u = Some (byte c)"
      using assms by (simp add: hex_any_def [of "CHR ''0''"])
    then have "unicode_escape ?u = Some (byte c, s)"
      using assms by (simp add: unicode_escape_def surrogate_def)
    with False 2 assms show ?thesis
      by (simp add: escape_ascii_def EncodeRune_def append_single)
  qed
qed

lemma unquote_escape: "ascii s \<Longrightarrow> unquote (escape s @ CHR 0x22 # r) = Some (s, r)"
  by (induction s) (simp_all add: unquote_escape_ascii ascii_def)

lemma format_nat_digits: "\<forall>c \<in> set (format_nat n). is_digit c"
proof (induction n rule: format_nat.induct)
  case (1 n)
  then show ?case
    by (cases "n < 10") (auto simp: format_nat.simps [of n] is_digit_def byte_digit)
qed

lemma digit_0 [simp]: "digit 0 = CHR ''0''"
  by code_simp

lemma digit_zero: "n < 10 \<Longrightarrow> digit n = CHR ''0'' \<longleftrightarrow> n = 0"
  using byte_digit [of n] by auto

lemma format_nat_zero: "hd (format_nat n) = CHR ''0'' \<longleftrightarrow> n = 0"
proof (induction n rule: format_nat.induct)
  case (1 n)
  then show ?case
    using format_nat_head [of "n div 10"] digit_zero
    by (cases "n < 10") (auto simp: format_nat.simps [of n])
qed

text \<open>What may follow a number so that it ends there.\<close>

definition ends_number :: "string \<Rightarrow> bool" where
  "ends_number r \<longleftrightarrow> (r = [] \<or> (\<not> is_digit (hd r) \<and> hd r \<notin> {CHR ''.'', CHR ''e'', CHR ''E''}))"

lemma digits_format:
  assumes "ends_number r"
  shows "digits (format_nat n @ r) = Some (format_nat n, r)"
proof -
  have "takeWhile is_digit (format_nat n @ r) = format_nat n"
    using assms format_nat_digits [of n]
    by (cases r) (auto simp: takeWhile_append ends_number_def)
  moreover have "format_nat n \<noteq> []" using format_nat_head [of n] by auto
  ultimately show ?thesis by (simp add: digits_def)
qed

lemma int_part_format:
  assumes "ends_number r"
  shows "int_part (format_nat n @ r) = Some (format_nat n, r)"
proof (cases "n = 0")
  case True
  then have "format_nat n = ''0''" by (simp add: format_nat.simps)
  then show ?thesis by (simp add: int_part_def)
next
  case False
  obtain d ds where "format_nat n = digit d # ds" using format_nat_head [of n] by auto
  then show ?thesis
    using False digits_format [OF assms, of n] format_nat_zero [of n] by (simp add: int_part_def)
qed

lemma number_FormatInt:
  assumes "ends_number r"
  shows "number (FormatInt i @ r) = Some (FormatInt i, r)"
proof -
  have r: "frac_part r = Some ([], r)" "exp_part r = Some ([], r)"
    using assms by (auto simp: frac_part_def exp_part_def ends_number_def)
  obtain d ds where "format_nat (nat i) = digit d # ds" "d < 10" using format_nat_head by blast
  moreover from this have "int_part (digit d # ds @ r) = Some (digit d # ds, r)"
    using int_part_format [OF assms, of "nat i"] by simp
  ultimately show ?thesis
    using r int_part_format [OF assms] digit_not_sign [of d]
    by (auto simp: number_def FormatInt_def Let_def)
qed

fun json_ok :: "json \<Rightarrow> bool" where
  "json_ok (JNum n) = (\<exists>i. n = FormatInt i)"
| "json_ok (JStr s) = ascii s"
| "json_ok (JArr vs) = (\<forall>v \<in> set vs. json_ok v)"
| "json_ok (JObj ms) = (\<forall>(k, v) \<in> set ms. ascii k \<and> json_ok v)"
| "json_ok _ = True"

fun json_depth :: "json \<Rightarrow> nat" where
  "json_depth (JArr vs) = Suc (Max (insert 0 (set (map json_depth vs))))"
| "json_depth (JObj ms) = Suc (Max (insert 0 (set (map (\<lambda>(k, v). json_depth v) ms))))"
| "json_depth _ = 0"

lemma is_digit_other:
  "is_digit c \<Longrightarrow> \<not> is_space c \<and> c \<notin> {CHR '']'', CHR ''}'', CHR ''['', CHR ''{'', CHR 0x22, CHR ''n'', CHR ''t'', CHR ''f''}"
  by (auto simp: is_digit_def is_space_def)

text \<open>Every encoding starts with a character that neither blanks nor closes.\<close>

lemma Marshal_head:
  assumes "json_ok v"
  obtains c t where "Marshal v = c # t" and "\<not> is_space c" and "c \<noteq> CHR '']''" and "c \<noteq> CHR ''}''"
    and "(\<exists>n. v = JNum n) \<longrightarrow> c = CHR ''-'' \<or> is_digit c"
proof (cases v)
  case (JNum n)
  then obtain i where "n = FormatInt i" using assms by auto
  moreover obtain d ds where f: "format_nat (nat i) = digit d # ds" "d < 10" using format_nat_head by blast
  moreover have "is_digit (digit d)" using f(2) by (simp add: is_digit_def byte_digit)
  ultimately show ?thesis
    using that JNum f(1) is_digit_other [of "digit d"]
    by (cases "i < 0") (auto simp: FormatInt_def is_space_def)
next
  case (JBool b)
  then show ?thesis using that by (cases b) (auto simp: is_space_def)
qed (use that in \<open>auto simp: is_space_def quote_def\<close>)


text \<open>
  What may follow a value in a text: a closing bracket, a comma, a blank, or the end.
\<close>

definition closes :: "string \<Rightarrow> bool" where
  "closes r \<longleftrightarrow> r = [] \<or> is_space (hd r) \<or> hd r \<in> {CHR '','', CHR '']'', CHR ''}''}"

lemma closes_ends_number: "closes r \<Longrightarrow> ends_number r"
  using is_digit_other [of "hd r"]
  by (auto simp: closes_def ends_number_def is_space_def is_digit_def)

lemma parse_scalar:
  assumes "json_ok v" and "closes r" and "case v of JArr vs \<Rightarrow> False | JObj ms \<Rightarrow> False | _ \<Rightarrow> True"
  shows "parse_value (Suc n) d (Marshal v @ r) = Some (v, r)"
proof (cases v)
  case (JNum m)
  then obtain i where m: "m = FormatInt i" using assms(1) by auto
  obtain c t where c: "Marshal v = c # t" "\<not> is_space c" "c = CHR ''-'' \<or> is_digit c"
    using Marshal_head [OF assms(1)] JNum by metis
  then have "c \<notin> {CHR ''['', CHR ''{'', CHR 0x22, CHR ''n'', CHR ''t'', CHR ''f''}"
    using is_digit_other [of c] by auto
  then show ?thesis
    using JNum m c number_FormatInt [OF closes_ends_number [OF assms(2)], of i] by simp
next
  case (JStr s)
  then show ?thesis using assms(1) by (simp add: quote_def is_space_def unquote_escape)
qed (use assms(3) in \<open>simp_all add: is_space_def\<close>)


definition prints :: "json \<Rightarrow> bool" where
  "prints v \<longleftrightarrow> (\<forall>n d r. d + json_depth v \<le> maxNestingDepth \<longrightarrow> closes r \<longrightarrow> length (Marshal v) \<le> n \<longrightarrow>
     parse_value (Suc n) d (Marshal v @ r) = Some (v, r))"

lemma parse_elements_print:
  assumes "vs \<noteq> []" and "\<forall>v \<in> set vs. prints v \<and> d + json_depth v \<le> maxNestingDepth"
    and "length (join '','' (map Marshal vs)) < n"
  shows "parse_elements (Suc n) d (join '','' (map Marshal vs) @ CHR '']'' # r) = Some (vs, r)"
  using assms
proof (induction vs arbitrary: n rule: list_nonempty_induct)
  case (single v)
  then obtain m where "n = Suc m" "length (Marshal v) \<le> m" by (cases n) auto
  with single show ?case by (auto simp: prints_def closes_def is_space_def)
next
  case (cons v vs)
  then obtain m where n: "n = Suc m" "length (Marshal v) \<le> m" by (cases n) (auto simp: neq_Nil_conv)
  obtain x xs where vs: "vs = x # xs" using cons.hyps by (cases vs) auto
  have "parse_value n d (Marshal v @ CHR '','' # join '','' (map Marshal vs) @ CHR '']'' # r) =
      Some (v, CHR '','' # join '','' (map Marshal vs) @ CHR '']'' # r)"
    using cons.prems(1) n by (auto simp: prints_def closes_def)
  moreover have "parse_elements n d (join '','' (map Marshal vs) @ CHR '']'' # r) = Some (vs, r)"
    using cons.IH [of m] cons.prems n vs by simp
  ultimately show ?case using vs by (simp add: is_space_def)
qed

abbreviation member_text :: "string \<times> json \<Rightarrow> string" where
  "member_text \<equiv> \<lambda>(k, v). quote k @ '':'' @ Marshal v"

lemma parse_members_print:
  assumes "ms \<noteq> []" and "\<forall>(k, v) \<in> set ms. ascii k \<and> prints v \<and> d + json_depth v \<le> maxNestingDepth"
    and "length (join '','' (map member_text ms)) < n"
  shows "parse_members (Suc n) d (join '','' (map member_text ms) @ CHR ''}'' # r) = Some (ms, r)"
  using assms
proof (induction ms arbitrary: n rule: list_nonempty_induct)
  case (single p)
  obtain k v where p: "p = (k, v)" by (cases p)
  with single obtain m where "n = Suc m" "length (Marshal v) \<le> m" by (cases n) auto
  with single p show ?case
    by (auto simp: prints_def closes_def is_space_def quote_def unquote_escape)
next
  case (cons p ms)
  obtain k v where p: "p = (k, v)" by (cases p)
  obtain x xs where ms: "ms = x # xs" using cons.hyps by (cases ms) auto
  with cons p obtain m where n: "n = Suc m" "length (Marshal v) \<le> m" by (cases n) auto
  have "parse_value n d (Marshal v @ CHR '','' # join '','' (map member_text ms) @ CHR ''}'' # r) =
      Some (v, CHR '','' # join '','' (map member_text ms) @ CHR ''}'' # r)"
    using cons.prems(1) n p by (auto simp: prints_def closes_def)
  moreover have "parse_members n d (join '','' (map member_text ms) @ CHR ''}'' # r) = Some (ms, r)"
    using cons.IH [of m] cons.prems n ms p by simp
  ultimately show ?case
    using ms p cons.prems(1) by (simp add: is_space_def quote_def unquote_escape)
qed


lemma depth_member:
  "v \<in> set vs \<Longrightarrow> json_depth v < json_depth (JArr vs)"
  "(k, v) \<in> set ms \<Longrightarrow> json_depth v < json_depth (JObj ms)"
  by (auto simp: less_Suc_eq_le intro!: Max_ge)

lemma join_head:
  assumes "xs \<noteq> []" and "hd xs = c # t"
  shows "\<exists>u. join sep xs = c # u"
  using assms by (cases "(sep, xs)" rule: join.cases) auto

lemma prints_JArr:
  assumes "\<forall>v \<in> set vs. prints v \<and> json_ok v"
  shows "prints (JArr vs)"
  unfolding prints_def
proof (intro allI impI)
  fix n d r
  assume d: "d + json_depth (JArr vs) \<le> maxNestingDepth" and n: "length (Marshal (JArr vs)) \<le> n"
  show "parse_value (Suc n) d (Marshal (JArr vs) @ r) = Some (JArr vs, r)"
  proof (cases vs)
    case Nil
    with d show ?thesis by (simp add: is_space_def)
  next
    case (Cons v ws)
    obtain c t where c: "Marshal v = c # t" "\<not> is_space c" "c \<noteq> CHR '']''"
      using Marshal_head [of v] assms Cons by (metis list.set_intros(1))
    obtain u where u: "join '','' (map Marshal vs) = c # u"
      using join_head [of "map Marshal vs" c t] c Cons by auto
    from n obtain m where m: "n = Suc m" "length (join '','' (map Marshal vs)) < m"
      by (cases n) auto
    have "\<forall>w \<in> set vs. prints w \<and> Suc d + json_depth w \<le> maxNestingDepth"
      using assms d depth_member(1) [of _ vs] by fastforce
    then have "parse_elements n (Suc d) (join '','' (map Marshal vs) @ CHR '']'' # r) = Some (vs, r)"
      using parse_elements_print [of vs "Suc d" m r] Cons m by simp
    with u c d show ?thesis by (simp add: is_space_def [of "CHR ''[''"])
  qed
qed

lemma prints_JObj:
  assumes "\<forall>(k, v) \<in> set ms. ascii k \<and> prints v"
  shows "prints (JObj ms)"
  unfolding prints_def
proof (intro allI impI)
  fix n d r
  assume d: "d + json_depth (JObj ms) \<le> maxNestingDepth" and n: "length (Marshal (JObj ms)) \<le> n"
  show "parse_value (Suc n) d (Marshal (JObj ms) @ r) = Some (JObj ms, r)"
  proof (cases ms)
    case Nil
    with d show ?thesis by (simp add: is_space_def)
  next
    case (Cons p qs)
    obtain u where u: "join '','' (map member_text ms) = CHR 0x22 # u"
      using join_head [of "map member_text ms" "CHR 0x22"] Cons by (cases p) (auto simp: quote_def)
    from n obtain m where m: "n = Suc m" "length (join '','' (map member_text ms)) < m"
      by (cases n) auto
    have "\<forall>(k, v) \<in> set ms. ascii k \<and> prints v \<and> Suc d + json_depth v \<le> maxNestingDepth"
      using assms d depth_member(2) [of _ _ ms] by fastforce
    then have "parse_members n (Suc d) (join '','' (map member_text ms) @ CHR ''}'' # r) = Some (ms, r)"
      using parse_members_print [of ms "Suc d" m r] Cons m by simp
    with u d show ?thesis by (simp add: is_space_def)
  qed
qed

lemma json_ok_prints: "json_ok v \<Longrightarrow> prints v"
proof (induction v)
  case (JArr vs)
  then show ?case by (intro prints_JArr) auto
next
  case (JObj ms)
  have "ascii k \<and> prints v" if "(k, v) \<in> set ms" for k v
    using JObj that by (fastforce simp: snds.simps)
  then show ?case by (intro prints_JObj) auto
qed (auto simp: prints_def intro!: parse_scalar simp del: parse_value.simps Marshal.simps)

section \<open>Fuel\<close>

lemma unquote_shorter: "unquote s = Some (v, t) \<Longrightarrow> length t < length s"
proof (induction s arbitrary: v t rule: unquote.induct)
  case (2 c s)
  consider (close) "c = CHR 0x22" | (esc) "c = CHR 0x5C"
    | (plain) "c \<noteq> CHR 0x22" "c \<noteq> CHR 0x5C" "byte c < 128" | (multi) "128 \<le> byte c" by fastforce
  then show ?case
  proof cases
    case close
    with 2(5) show ?thesis by simp
  next
    case esc
    with 2(5) obtain e u where s: "s = e # u" by (cases s) auto
    show ?thesis
    proof (cases "e = CHR ''u''")
      case True
      with esc 2(5) s obtain r x y where "unicode_escape u = Some (r, x)" "unquote x = Some (y, t)"
        by (auto split: option.splits)
      with 2(1) [OF _ _ s True] esc unicode_escape_shorter [of u r x] s show ?thesis by fastforce
    next
      case False
      with esc 2(5) s obtain x y where "simple_escape e = Some x" "unquote u = Some (y, t)"
        by (auto split: option.splits)
      with 2(2) [OF _ _ s False] esc s show ?thesis by fastforce
    qed
  next
    case plain
    with 2(5) obtain y where "unquote s = Some (y, t)" by (auto split: if_splits)
    with 2(3) plain 2(5) show ?thesis by (fastforce split: if_splits)
  next
    case multi
    obtain r n where d: "DecodeRune (c # s) = (r, n)" by fastforce
    from multi have c: "c \<noteq> CHR 0x22" "c \<noteq> CHR 0x5C" "\<not> byte c < 32" "\<not> byte c < 128" by auto
    with 2(5) d obtain y where "unquote (drop (n - 1) s) = Some (y, t)" by auto
    from 2(4) [OF c d [symmetric] refl this] show ?thesis by simp
  qed
qed simp

lemma number_shorter:
  assumes "number s = Some (v, t)"
  shows "length t < length s"
proof -
  have d: "digits x = Some (y, z) \<Longrightarrow> length z < length x" for x y z
    by (cases x) (auto simp: digits_def Let_def split: if_splits)
  have i: "int_part x = Some (y, z) \<Longrightarrow> length z < length x" for x y z
    by (cases x) (auto simp: int_part_def dest: d split: if_splits)
  have f: "frac_part x = Some (y, z) \<Longrightarrow> length z \<le> length x" for x y z
    by (cases x) (auto simp: frac_part_def dest!: d split: if_splits)
  have e: "exp_part x = Some (y, z) \<Longrightarrow> length z \<le> length x" for x y z
    by (cases x) (auto simp: exp_part_def Let_def dest!: d split: if_splits)
  show ?thesis
    using assms
    by (auto simp: number_def Let_def dest!: i f e split: option.splits prod.splits if_splits)
qed


lemma skip_shorter: "length (skip s) \<le> length s"
  by (rule length_dropWhile_le)

lemma parse_shorter_all:
  "(\<forall>d s v t. parse_value n d s = Some (v, t) \<longrightarrow> length t < length s) \<and>
   (\<forall>d s vs t. parse_elements n d s = Some (vs, t) \<longrightarrow> length t < length s) \<and>
   (\<forall>d s ms t. parse_members n d s = Some (ms, t) \<longrightarrow> length t < length s)"
proof (induction n)
  case (Suc n)
  have "length t < length s" if p: "parse_value (Suc n) d s = Some (v, t)" for d s v t
  proof -
    obtain c u where cu: "skip s = c # u" using p by (cases "skip s") auto
    then have "Suc (length u) \<le> length s" using skip_shorter [of s] by simp
    moreover have "length t \<le> length u"
      using Suc p cu skip_shorter [of u]
      by (auto split: if_splits dest: unquote_shorter number_shorter) fastforce+
    ultimately show ?thesis by simp
  qed
  moreover have "length t < length s" if p: "parse_elements (Suc n) d s = Some (vs, t)" for d s vs t
  proof -
    obtain v u c x where v: "parse_value n d s = Some (v, u)" and c: "skip u = c # x"
      and "(\<exists>ws. parse_elements n d x = Some (ws, t)) \<or> t = x"
      using p by (auto split: option.splits list.splits if_splits)
    with Suc skip_shorter [of u] show ?thesis by fastforce
  qed
  moreover have "length t < length s" if p: "parse_members (Suc n) d s = Some (ms, t)" for d s ms t
  proof -
    obtain s1 k s2 v u c x where s1: "skip s = CHR 0x22 # s1" and k: "unquote s1 = Some (k, s2)"
      and v: "parse_value n d (tl (skip s2)) = Some (v, u)" and c: "skip u = c # x"
      and x: "(\<exists>ws. parse_members n d x = Some (ws, t)) \<or> t = x"
      using p by (auto split: option.splits list.splits if_splits)
    have "length u < length (tl (skip s2))" "length t \<le> length x" using Suc v x by fastforce+
    with s1 c unquote_shorter [OF k] skip_shorter [of s] skip_shorter [of s2] skip_shorter [of u]
    show ?thesis by simp
  qed
  ultimately show ?case by blast
qed simp

lemmas parse_shorter =
  parse_shorter_all [THEN conjunct1, rule_format]
  parse_shorter_all [THEN conjunct2, THEN conjunct1, rule_format]
  parse_shorter_all [THEN conjunct2, THEN conjunct2, rule_format]

text \<open>One unit of fuel more changes nothing once there are two units per character.\<close>

lemma parse_value_fuel:
  assumes "\<And>d s. 2 * length s + 1 < n \<Longrightarrow> parse_elements (Suc n) d s = parse_elements n d s"
    and "\<And>d s. 2 * length s + 1 < n \<Longrightarrow> parse_members (Suc n) d s = parse_members n d s"
    and "2 * length s < Suc n"
  shows "parse_value (Suc (Suc n)) d s = parse_value (Suc n) d s"
proof (cases "skip s")
  case Nil
  then show ?thesis by (simp only: parse_value.simps(2) list.case)
next
  case (Cons c u)
  then have "2 * length u + 1 < n" using assms(3) skip_shorter [of s] by simp
  then have "parse_elements (Suc n) (Suc d) u = parse_elements n (Suc d) u"
    "parse_members (Suc n) (Suc d) u = parse_members n (Suc d) u" by (rule assms(1), rule assms(2))
  then show ?thesis unfolding parse_value.simps(2) [of "Suc n" d s] parse_value.simps(2) [of n d s] Cons list.case by simp
qed

lemma parse_rest_length:
  assumes "parse_value n d s = Some (v, t)" and "skip t = c # u" and "2 * length s + 1 < Suc n"
  shows "2 * length u + 1 < n"
  using assms parse_shorter(1) [OF assms(1)] skip_shorter [of t] by simp

lemma parse_elements_fuel:
  assumes val: "parse_value (Suc n) d s = parse_value n d s"
    and IH: "\<And>d s. 2 * length s + 1 < n \<Longrightarrow> parse_elements (Suc n) d s = parse_elements n d s"
    and s: "2 * length s + 1 < Suc n"
  shows "parse_elements (Suc (Suc n)) d s = parse_elements (Suc n) d s"
proof -
  note fuel = parse_elements.simps(2) [of "Suc n" d s] parse_elements.simps(2) [of n d s]
  show ?thesis
  proof (cases "parse_value n d s")
    case None
    then show ?thesis by (simp only: fuel val option.case)
  next
    case (Some p)
    obtain v t where p: "p = (v, t)" by (cases p)
    have "parse_elements (Suc n) d u = parse_elements n d u" if "skip t = c # u" for c u
      using IH parse_rest_length [OF Some [unfolded p] that s] by blast
    then show ?thesis
      by (cases "skip t") (simp_all only: fuel val Some p option.case prod.case list.case)
  qed
qed

lemma parse_members_fuel:
  assumes val: "\<And>s. 2 * length s + 1 < Suc n \<Longrightarrow> parse_value (Suc n) d s = parse_value n d s"
    and IH: "\<And>d s. 2 * length s + 1 < n \<Longrightarrow> parse_members (Suc n) d s = parse_members n d s"
    and s: "2 * length s + 1 < Suc n"
  shows "parse_members (Suc (Suc n)) d s = parse_members (Suc n) d s"
proof -
  note fuel = parse_members.simps(2) [of "Suc n" d s] parse_members.simps(2) [of n d s]
  consider "skip s = []" | q s1 where "skip s = q # s1" "unquote s1 = None"
    | q s1 k s2 where "skip s = q # s1" "unquote s1 = Some (k, s2)"
    by (metis list.exhaust option.exhaust surj_pair)
  then show ?thesis
  proof cases
    case (3 q s1 k s2)
    have len: "2 * length (tl (skip s2)) + 1 < Suc n"
      using s unquote_shorter [OF 3(2)] skip_shorter [of s] skip_shorter [of s2] 3(1) by simp
    show ?thesis
    proof (cases "parse_value n d (tl (skip s2))")
      case None
      then show ?thesis by (simp only: fuel 3 list.case option.case prod.case val [OF len])
    next
      case (Some r)
      obtain v t where r: "r = (v, t)" by (cases r)
      have "parse_members (Suc n) d u = parse_members n d u" if "skip t = c # u" for c u
        using IH parse_rest_length [OF Some [unfolded r] that len] by blast
      then show ?thesis
        by (cases "skip t") (simp_all only: fuel 3 Some r list.case option.case prod.case val [OF len])
    qed
  qed (simp_all only: fuel list.case option.case)
qed

lemma parse_fuel_step:
  "(\<forall>d s. 2 * length s < n \<longrightarrow> parse_value (Suc n) d s = parse_value n d s) \<and>
   (\<forall>d s. 2 * length s + 1 < n \<longrightarrow> parse_elements (Suc n) d s = parse_elements n d s) \<and>
   (\<forall>d s. 2 * length s + 1 < n \<longrightarrow> parse_members (Suc n) d s = parse_members n d s)"
proof (induction n)
  case (Suc n)
  have "parse_value (Suc (Suc n)) d s = parse_value (Suc n) d s" if "2 * length s < Suc n" for d s
    using that by (rule parse_value_fuel [rotated 2]) (use Suc in blast)+
  moreover have "parse_elements (Suc (Suc n)) d s = parse_elements (Suc n) d s" if "2 * length s + 1 < Suc n" for d s
    using that by (rule parse_elements_fuel [rotated 2]) (use Suc that in auto)
  moreover have "parse_members (Suc (Suc n)) d s = parse_members (Suc n) d s" if "2 * length s + 1 < Suc n" for d s
    using that by (rule parse_members_fuel [rotated 2]) (use Suc in auto)
  ultimately show ?case by blast
qed simp

lemma parse_fuel_enough:
  assumes "2 * length s < n"
  shows "parse_value n d s = parse_value (2 * length s + 1) d s"
proof -
  have "parse_value (2 * length s + 1 + k) d s = parse_value (2 * length s + 1) d s" for k
  proof (induction k)
    case (Suc k)
    then show ?case
      using parse_fuel_step [of "2 * length s + 1 + k"] by (simp del: parse_value.simps)
  qed simp
  from this [of "n - (2 * length s + 1)"] assms show ?thesis by (simp del: parse_value.simps)
qed

text \<open>Marshalling and unmarshalling; a decoder also stops before what follows the value.\<close>

lemma parse_Marshal:
  assumes "json_ok v" and "json_depth v \<le> maxNestingDepth" and "closes r"
  shows "parse_value (2 * length (Marshal v @ r) + 1) 0 (Marshal v @ r) = Some (v, r)"
proof -
  have "parse_value (Suc (2 * length (Marshal v @ r))) 0 (Marshal v @ r) = Some (v, r)"
    using json_ok_prints [OF assms(1)] assms(2,3)
    unfolding prints_def by (simp del: parse_value.simps)
  then show ?thesis by (simp del: parse_value.simps)
qed

lemma Unmarshal_Marshal:
  assumes "json_ok v" and "json_depth v \<le> maxNestingDepth"
  shows "Unmarshal (Marshal v) = Some v"
  using parse_Marshal [OF assms, of "[]"]
  by (simp add: Unmarshal_def closes_def del: parse_value.simps)

lemma Decoder_Decode_Marshal:
  assumes "json_ok v" and "json_depth v \<le> maxNestingDepth" and "closes r"
  shows "Decoder_Decode (Marshal v @ r) = Some v"
  using parse_Marshal [OF assms] by (simp add: Decoder_Decode_def del: parse_value.simps)

end
