(* ===== verification/Go_Time.thy ===== *)
theory Go_Time
  imports Go_Strings
begin

text \<open>
  \<^verbatim>\<open>time.Time\<close> in UTC as nanoseconds since the Unix epoch, and its \<^verbatim>\<open>RFC3339Nano\<close> text: the
  form list cursors and JSON documents carry time stamps in. The civil date is Go's
  computation over 400, 100, 4 and 1 year cycles. \<open>rfc3339_parse\<close> reads the text back; it is
  the concrete instance of the parsing a database does with it.
\<close>

definition unix_day_offset :: int where
  "unix_day_offset = 719162"

text \<open>Year and day of the year (from 0) of a day counted from 1 January of year 1.\<close>

definition year_yday :: "int \<Rightarrow> int \<times> int" where
  "year_yday d =
     (let n400 = d div 146097; d0 = d mod 146097;
          n100 = min 3 (d0 div 36524); d1 = d0 - 36524 * n100;
          n4 = d1 div 1461; d2 = d1 mod 1461;
          n1 = min 3 (d2 div 365); d3 = d2 - 365 * n1
      in (400 * n400 + 100 * n100 + 4 * n4 + n1 + 1, d3))"

definition leap :: "int \<Rightarrow> bool" where
  "leap y \<longleftrightarrow> y mod 4 = 0 \<and> (y mod 100 \<noteq> 0 \<or> y mod 400 = 0)"

definition month_lengths :: "bool \<Rightarrow> int list" where
  "month_lengths l = [31, if l then 29 else 28, 31, 30, 31, 30, 31, 31, 30, 31, 30, 31]"

text \<open>Month and day of the month (both from 0) of a day of the year.\<close>

fun month_day :: "int list \<Rightarrow> int \<Rightarrow> nat \<times> int" where
  "month_day [] d = (0, d)"
| "month_day (l # ls) d =
     (if d < l \<or> ls = [] then (0, d) else (case month_day ls (d - l) of (m, e) \<Rightarrow> (Suc m, e)))"

text \<open>Zero-padded decimals.\<close>

fun pad :: "nat \<Rightarrow> nat \<Rightarrow> string" where
  "pad 0 n = []"
| "pad (Suc w) n = pad w (n div 10) @ [digit (n mod 10)]"

definition strip_zeros :: "string \<Rightarrow> string" where
  "strip_zeros s = rev (dropWhile (\<lambda>c. c = CHR ''0'') (rev s))"

definition nanoseconds :: int where
  "nanoseconds = 1000000000"

definition RFC3339Nano :: "time \<Rightarrow> string" where
  "RFC3339Nano t =
     (let s = t div nanoseconds; ns = t mod nanoseconds; sod = s mod 86400;
          (y, yd) = year_yday (s div 86400 + unix_day_offset);
          (m, d) = month_day (month_lengths (leap y)) yd;
          f = strip_zeros (pad 9 (nat ns))
      in pad 4 (nat y) @ ''-'' @ pad 2 (m + 1) @ ''-'' @ pad 2 (nat d + 1) @ ''T'' @
         pad 2 (nat (sod div 3600)) @ '':'' @ pad 2 (nat (sod div 60 mod 60)) @ '':'' @
         pad 2 (nat (sod mod 60)) @ (if f = [] then [] else CHR ''.'' # f) @ ''Z'')"

text \<open>Years 0 to 9999, for which the text has four digits of year.\<close>

definition year_ok :: "time \<Rightarrow> bool" where
  "year_ok t \<longleftrightarrow> (let y = fst (year_yday (t div nanoseconds div 86400 + unix_day_offset)) in 0 \<le> y \<and> y \<le> 9999)"

section \<open>Reading it back\<close>

definition days_before_year :: "int \<Rightarrow> int" where
  "days_before_year y = 365 * (y - 1) + (y - 1) div 4 - (y - 1) div 100 + (y - 1) div 400"

definition rfc3339_parse :: "string \<Rightarrow> time option" where
  "rfc3339_parse s =
     (let n = (\<lambda>i k. parse_digits 0 (take k (drop i s)));
          f = drop 20 s;
          frac = (if drop 19 s = ''Z'' then [] else butlast f)
      in case (n 0 4, n 5 2, n 8 2, n 11 2, n 14 2, n 17 2,
               parse_digits 0 (frac @ replicate (9 - length frac) (CHR ''0''))) of
           (Some y, Some m, Some d, Some h, Some mi, Some sec, Some ns) \<Rightarrow>
             Some ((((days_before_year (int y) + sum_list (take (m - 1) (month_lengths (leap (int y)))) +
                 int d - 1 - unix_day_offset) * 86400 + int h * 3600 + int mi * 60 + int sec) * nanoseconds)
               + int ns)
         | _ \<Rightarrow> None)"

lemma length_pad [simp]: "length (pad w n) = w"
  by (induction w arbitrary: n) auto

lemma parse_pad: "n < 10 ^ w \<Longrightarrow> parse_digits 0 (pad w n) = Some n"
proof (induction w arbitrary: n)
  case (Suc w)
  then have "n div 10 < 10 ^ w" by (simp add: less_mult_imp_div_less mult.commute)
  with Suc.IH show ?case
    by (simp add: parse_digits_append byte_digit is_digit_def)
qed simp

lemma days_before_cycles:
  fixes q a b c :: int
  assumes "0 \<le> a" "a \<le> 3" "0 \<le> b" "b \<le> 24" "0 \<le> c" "c \<le> 3"
  shows "days_before_year (400 * q + 100 * a + 4 * b + c + 1) = 146097 * q + 36524 * a + 1461 * b + 365 * c"
proof -
  let ?y = "400 * q + 100 * a + 4 * b + c"
  have eq: "?y = c + (100 * q + 25 * a + b) * 4" "?y = (4 * b + c) + (4 * q + a) * 100"
    "?y = (100 * a + 4 * b + c) + q * 400" by simp_all
  have "c div 4 = 0" by (rule div_pos_pos_trivial) (use assms in linarith)+
  moreover have "?y div 4 = 100 * q + 25 * a + b + c div 4"
    unfolding eq(1) by (rule div_mult_self1) simp
  ultimately have 1: "?y div 4 = 100 * q + 25 * a + b" by (simp only: add_0_right)
  have "(4 * b + c) div 100 = 0" by (rule div_pos_pos_trivial) (use assms in linarith)+
  moreover have "?y div 100 = 4 * q + a + (4 * b + c) div 100"
    unfolding eq(2) by (rule div_mult_self1) simp
  ultimately have 2: "?y div 100 = 4 * q + a" by (simp only: add_0_right)
  have "(100 * a + 4 * b + c) div 400 = 0" by (rule div_pos_pos_trivial) (use assms in linarith)+
  moreover have "?y div 400 = q + (100 * a + 4 * b + c) div 400"
    unfolding eq(3) by (rule div_mult_self1) simp
  ultimately have 3: "?y div 400 = q" by (simp only: add_0_right)
  show ?thesis unfolding days_before_year_def add_diff_cancel_right' 1 2 3 by simp
qed

lemma div_bounds:
  fixes d n :: int
  assumes "0 < n"
  shows "n * (d div n) \<le> d" and "d < n * (d div n) + n" and "0 \<le> d \<Longrightarrow> 0 \<le> d div n"
proof -
  have "d = n * (d div n) + d mod n" "0 \<le> d mod n" "d mod n < n" using assms by simp_all
  then show "n * (d div n) \<le> d" "d < n * (d div n) + n" by linarith+
  show "0 \<le> d \<Longrightarrow> 0 \<le> d div n" using assms by (simp add: pos_imp_zdiv_nonneg_iff)
qed

lemma min3_bounds:
  fixes k d n :: int
  assumes "n * k \<le> d" and "d < n * k + n" and "0 \<le> k" and "0 < n"
  shows "0 \<le> min 3 k" and "min 3 k \<le> 3" and "n * min 3 k \<le> d" and "min 3 k < 3 \<Longrightarrow> d < n * min 3 k + n"
proof -
  show "0 \<le> min 3 k" "min 3 k \<le> 3" using assms(3) by simp_all
  have "n * min 3 k \<le> n * k" using assms(4) by simp
  with assms(1) show "n * min 3 k \<le> d" by linarith
  show "min 3 k < 3 \<Longrightarrow> d < n * min 3 k + n" using assms(2) by (simp add: min_def split: if_splits)
qed

lemma min3_div:
  fixes d n :: int
  assumes "0 < n" and "0 \<le> d"
  shows "0 \<le> min 3 (d div n)" and "min 3 (d div n) \<le> 3" and "n * min 3 (d div n) \<le> d"
    and "min 3 (d div n) < 3 \<Longrightarrow> d < n * min 3 (d div n) + n"
  using min3_bounds [OF div_bounds(1,2) [OF assms(1)] div_bounds(3) [OF assms] assms(1)] by simp_all

lemma year_yday_inverse:
  assumes "year_yday d = (y, yd)"
  shows "days_before_year y + yd = d" and "0 \<le> yd" and "yd < (if leap y then 366 else 365)"
proof -
  define q d0 where "q = d div 146097" and "d0 = d mod 146097"
  define a where "a = min 3 (d0 div 36524)"
  define d1 where "d1 = d0 - 36524 * a"
  define b d2 where "b = d1 div 1461" and "d2 = d1 mod 1461"
  define c where "c = min 3 (d2 div 365)"
  have "year_yday d = (400 * q + 100 * a + 4 * b + c + 1, d2 - 365 * c)"
    unfolding year_yday_def Let_def q_def d0_def a_def d1_def b_def d2_def c_def by (rule refl)
  then have y: "y = 400 * q + 100 * a + 4 * b + c + 1" and yd: "yd = d2 - 365 * c"
    using assms by simp_all
  have p: "(0::int) < 36524" "(0::int) < 365" "(0::int) < 1461" "(0::int) < 146097" by simp_all
  have d: "146097 * q + d0 = d" "0 \<le> d0" "d0 < 146097"
    unfolding q_def d0_def by (rule mult_div_mod_eq pos_mod_sign [OF p(4)] pos_mod_bound [OF p(4)])+
  note a = min3_div [OF p(1) d(2), folded a_def]
  have d1: "0 \<le> d1" "d1 \<le> 36524" "d1 = 36524 \<Longrightarrow> a = 3"
    using a d(3) unfolding d1_def by (cases "a < 3"; simp)+
  have b: "1461 * b + d2 = d1" "0 \<le> d2" "d2 < 1461"
    unfolding b_def d2_def by (rule mult_div_mod_eq pos_mod_sign [OF p(3)] pos_mod_bound [OF p(3)])+
  have b': "0 \<le> b" "b \<le> 24" using d1(1,2) b by linarith+
  note c = min3_div [OF p(2) b(2), folded c_def]
  show "days_before_year y + yd = d"
    using days_before_cycles [OF a(1,2) b' c(1,2), of q] d(1) b(1)
    by (simp add: y yd d1_def)
  show "0 \<le> yd" using c(3) by (simp add: yd)
  show "yd < (if leap y then 366 else 365)"
  proof (cases "yd < 365")
    case False
    then have 3: "c = 3" "d2 = 1460" using c b(3) unfolding yd by (cases "c < 3"; simp)+
    have "leap y"
    proof (cases "b = 24")
      case True
      with b(1) 3 d1(3) have "a = 3" by simp
      with True 3 y have "y = 400 * (q + 1)" by simp
      then show ?thesis by (simp add: leap_def)
    next
      case False
      with b' have "0 \<le> 4 * b + 4" "4 * b + 4 < 100" by auto
      moreover have "y = (4 * b + 4) + (4 * q + a) * 100" using 3 y by simp
      ultimately have "y mod 100 = 4 * b + 4" by (simp only: mod_mult_self1) simp
      moreover have "y = (100 * q + 25 * a + b + 1) * 4" using 3 y by simp
      then have "y mod 4 = 0" by simp
      ultimately show ?thesis using b'(1) by (simp add: leap_def)
    qed
    with 3 show ?thesis by (simp add: yd)
  qed auto
qed

lemma month_day_inverse:
  assumes "month_day ls d = (m, e)" and "0 \<le> d" and "ls \<noteq> []" and "\<forall>l \<in> set ls. 0 < l"
  shows "sum_list (take m ls) + e = d" and "0 \<le> e" and "m < length ls"
  using assms
  by (induction ls d arbitrary: m e rule: month_day.induct) (auto split: if_splits prod.splits)

lemma strip_zeros_pad: "strip_zeros s @ replicate (length s - length (strip_zeros s)) (CHR ''0'') = s"
proof -
  let ?z = "takeWhile (\<lambda>c. c = CHR ''0'') (rev s)"
  have s: "s = strip_zeros s @ rev ?z"
    unfolding strip_zeros_def rev_append [symmetric] takeWhile_dropWhile_id rev_rev_ident by (rule refl)
  have "replicate (length ?z) (CHR ''0'') = ?z"
    by (rule replicate_length_same) (auto dest: set_takeWhileD)
  moreover have "length ?z = length s - length (strip_zeros s)"
    using arg_cong [OF s, of length] by simp
  ultimately have "rev ?z = replicate (length s - length (strip_zeros s)) (CHR ''0'')"
    by (metis rev_replicate)
  with s show ?thesis by simp
qed

lemma month_day_bound:
  assumes "month_day ls d = (m, e)" and "d < sum_list ls" and "\<forall>l \<in> set ls. l \<le> 31" and "ls \<noteq> []"
  shows "e < 31"
  using assms
proof (induction ls d arbitrary: m e rule: month_day.induct)
  case (2 l ls d)
  show ?case
  proof (cases "d < l \<or> ls = []")
    case True
    with 2 show ?thesis by auto
  next
    case False
    then obtain m' where "month_day ls (d - l) = (m', e)" using 2(2) by (auto split: prod.splits)
    with 2 False show ?thesis by auto
  qed
qed simp

definition stamp :: "nat \<Rightarrow> nat \<Rightarrow> nat \<Rightarrow> nat \<Rightarrow> nat \<Rightarrow> nat \<Rightarrow> string \<Rightarrow> string" where
  "stamp y m d h mi s f = pad 4 y @ ''-'' @ pad 2 m @ ''-'' @ pad 2 d @ ''T'' @
     pad 2 h @ '':'' @ pad 2 mi @ '':'' @ pad 2 s @ (if f = [] then [] else CHR ''.'' # f) @ ''Z''"

lemma stamp_parts:
  "take 4 (drop 0 (stamp y m d h mi s f)) = pad 4 y" "take 2 (drop 5 (stamp y m d h mi s f)) = pad 2 m"
  "take 2 (drop 8 (stamp y m d h mi s f)) = pad 2 d" "take 2 (drop 11 (stamp y m d h mi s f)) = pad 2 h"
  "take 2 (drop 14 (stamp y m d h mi s f)) = pad 2 mi" "take 2 (drop 17 (stamp y m d h mi s f)) = pad 2 s"
  "drop 19 (stamp y m d h mi s f) = (if f = [] then [] else CHR ''.'' # f) @ ''Z''"
  by (simp_all add: stamp_def del: pad.simps)

lemma rfc3339_parse_stamp:
  assumes "y < 10000" "m < 100" "d < 100" "h < 100" "mi < 100" "s < 100" "n < 1000000000"
  shows "rfc3339_parse (stamp y m d h mi s (strip_zeros (pad 9 n))) =
    Some ((((days_before_year (int y) + sum_list (take (m - 1) (month_lengths (leap (int y)))) +
       int d - 1 - unix_day_offset) * 86400 + int h * 3600 + int mi * 60 + int s) * nanoseconds) + int n)"
proof -
  let ?f = "strip_zeros (pad 9 n)"
  let ?t = "stamp y m d h mi s ?f"
  have "drop (Suc 19) ?t = tl (drop 19 ?t)" unfolding drop_Suc tl_drop by (rule refl)
  then have "drop 20 ?t = tl (drop 19 ?t)" unfolding Suc_numeral by simp
  then have "(if drop 19 ?t = ''Z'' then [] else butlast (drop 20 ?t)) = ?f"
    unfolding stamp_parts by simp
  moreover have "?f @ replicate (9 - length ?f) (CHR ''0'') = pad 9 n"
    using strip_zeros_pad [of "pad 9 n"] unfolding length_pad .
  moreover have "parse_digits 0 (pad 4 y) = Some y" "parse_digits 0 (pad 9 n) = Some n"
    using assms by (simp_all add: parse_pad del: pad.simps)
  moreover have "k < 100 \<Longrightarrow> parse_digits 0 (pad 2 k) = Some k" for k
    by (rule parse_pad) simp
  ultimately show ?thesis
    using assms(2-6) unfolding rfc3339_parse_def Let_def stamp_parts by (simp del: pad.simps)
qed

lemma rfc3339_parse_RFC3339Nano:
  assumes "year_ok t"
  shows "rfc3339_parse (RFC3339Nano t) = Some t"
proof -
  define s ns where "s = t div nanoseconds" and "ns = t mod nanoseconds"
  define sod day where "sod = s mod 86400" and "day = s div 86400"
  obtain y yd where y: "year_yday (day + unix_day_offset) = (y, yd)" by fastforce
  obtain m d where m: "month_day (month_lengths (leap y)) yd = (m, d)" by fastforce
  note yy = year_yday_inverse [OF y]
  have lens: "month_lengths (leap y) \<noteq> []" "\<forall>l \<in> set (month_lengths (leap y)). 0 < l"
    "\<forall>l \<in> set (month_lengths (leap y)). l \<le> 31" "length (month_lengths (leap y)) = 12"
    "sum_list (month_lengths (leap y)) = (if leap y then 366 else 365)"
    by (auto simp: month_lengths_def)
  note md = month_day_inverse [OF m yy(2) lens(1,2)]
  have d31: "d < 31" using month_day_bound [OF m _ lens(3,1)] yy(3) lens(5) by simp
  have yr: "0 \<le> y" "y \<le> 9999" using assms y by (simp_all add: year_ok_def s_def day_def Let_def)
  have p: "(0::int) < 86400" "(0::int) < nanoseconds" by (simp_all add: nanoseconds_def)
  have sod: "0 \<le> sod" "sod < 86400" unfolding sod_def using p(1) by simp_all
  have ns: "0 \<le> ns" "ns < 1000000000" unfolding ns_def nanoseconds_def by simp_all
  define h mi se where "h = sod div 3600" and "mi = sod div 60 mod 60" and "se = sod mod 60"
  have hms: "h * 3600 + mi * 60 + se = sod" "0 \<le> h" "h < 24" "0 \<le> mi" "mi < 60" "0 \<le> se" "se < 60"
  proof -
    have "sod div 60 div 60 = h" unfolding h_def by (simp add: zdiv_zmult2_eq [symmetric])
    moreover have "sod div 60 * 60 + se = sod" "sod div 60 div 60 * 60 + mi = sod div 60"
      unfolding mi_def se_def by (rule div_mult_mod_eq)+
    ultimately show "h * 3600 + mi * 60 + se = sod" by simp
    show "0 \<le> mi" "mi < 60" "0 \<le> se" "se < 60" unfolding mi_def se_def by simp_all
    then show "0 \<le> h" "h < 24"
      using div_bounds [of 3600 sod] sod \<open>h * 3600 + mi * 60 + se = sod\<close> unfolding h_def [symmetric] by simp_all
  qed
  have t: "s * nanoseconds + ns = t" "day * 86400 + sod = s"
    unfolding s_def ns_def sod_def day_def by (rule div_mult_mod_eq)+
  have "RFC3339Nano t = stamp (nat y) (m + 1) (nat d + 1) (nat h) (nat mi)
      (nat se) (strip_zeros (pad 9 (nat ns)))"
    unfolding RFC3339Nano_def stamp_def Let_def s_def [symmetric] ns_def [symmetric] sod_def [symmetric]
      day_def [symmetric] h_def [symmetric] mi_def [symmetric] se_def [symmetric] y prod.case m
    by (rule refl)
  also have "rfc3339_parse \<dots> = Some ((((days_before_year y + sum_list (take m (month_lengths (leap y))) +
       d - unix_day_offset) * 86400 + sod) * nanoseconds) + ns)"
    using rfc3339_parse_stamp [of "nat y" "m + 1" "nat d + 1" "nat h" "nat mi" "nat se" "nat ns"]
      yr md(2,3) d31 lens(4) hms ns
    by (simp add: add.assoc)
  also have "\<dots> = Some t"
    using yy(1) md(1) t by (simp add: add.assoc)
  finally show ?thesis .
qed


lemma ascii_pad [simp]: "ascii (pad w n)"
  by (induction w arbitrary: n) (auto simp: byte_digit)

lemma ascii_strip_zeros: "ascii s \<Longrightarrow> ascii (strip_zeros s)"
  by (auto simp: ascii_def strip_zeros_def dest: set_dropWhileD)

lemma ascii_RFC3339Nano [simp]: "ascii (RFC3339Nano t)"
  by (auto simp: RFC3339Nano_def Let_def ascii_strip_zeros simp del: pad.simps split: prod.splits)

end
