(* ===== verification/Keyset.thy ===== *)
theory Keyset
  imports Forge_Prelude
begin

text \<open>
  Keyset pagination, as both repositories do it: order the matching rows by a key that ends
  in the row identifier, skip the rows up to the key in the cursor, read one row more than
  the page holds, and give out the last row's key as the next cursor when that extra row
  exists. The locale \<open>keyset\<close> is what this relies on, a strict total order on keys.
\<close>

section \<open>Ordering by a relation\<close>

fun insert_by :: "('a \<Rightarrow> 'a \<Rightarrow> bool) \<Rightarrow> 'a \<Rightarrow> 'a list \<Rightarrow> 'a list" where
  "insert_by before x [] = [x]"
| "insert_by before x (y # ys) = (if before y x then y # insert_by before x ys else x # y # ys)"

definition sort_by :: "('a \<Rightarrow> 'a \<Rightarrow> bool) \<Rightarrow> 'a list \<Rightarrow> 'a list" where
  "sort_by before xs = foldr (insert_by before) xs []"

lemma set_insert_by [simp]: "set (insert_by before x ys) = insert x (set ys)"
  by (induction ys) auto

lemma length_insert_by [simp]: "length (insert_by before x ys) = Suc (length ys)"
  by (induction ys) auto

lemma set_sort_by [simp]: "set (sort_by before xs) = set xs"
  by (induction xs) (auto simp: sort_by_def)

lemma length_sort_by [simp]: "length (sort_by before xs) = length xs"
  by (induction xs) (auto simp: sort_by_def)

lemma distinct_insert_by: "distinct (insert_by before x ys) \<longleftrightarrow> x \<notin> set ys \<and> distinct ys"
  by (induction ys) auto

lemma distinct_sort_by [simp]: "distinct (sort_by before xs) \<longleftrightarrow> distinct xs"
proof (induction xs)
  case (Cons x xs)
  then show ?case
    using set_sort_by [of before xs] unfolding sort_by_def by (simp add: distinct_insert_by)
qed (simp add: sort_by_def)

text \<open>\<^verbatim>\<open>WHERE p AND key > after ORDER BY key LIMIT n\<close>.\<close>

definition select_page ::
    "('k \<Rightarrow> 'k \<Rightarrow> bool) \<Rightarrow> ('a \<Rightarrow> 'k) \<Rightarrow> ('a \<Rightarrow> bool) \<Rightarrow> 'k option \<Rightarrow> nat \<Rightarrow> 'a list \<Rightarrow> 'a list" where
  "select_page before key p after n rows =
     take n (sort_by (\<lambda>a b. before (key a) (key b))
       (filter (\<lambda>r. p r \<and> (case after of None \<Rightarrow> True | Some k \<Rightarrow> before k (key r))) rows))"

lemma select_page_sub: "set (select_page before key p after n rows) \<subseteq> {r \<in> set rows. p r}"
  by (auto simp: select_page_def dest!: in_set_takeD)

lemma select_page_length: "length (select_page before key p after n rows) \<le> n"
  by (simp add: select_page_def)

text \<open>All pages of size \<open>n\<close> of an ordered list, as a client reads them.\<close>

function chunks :: "nat \<Rightarrow> 'a list \<Rightarrow> 'a list list" where
  "chunks n xs = (if n = 0 \<or> length xs \<le> n then [xs] else take n xs # chunks n (drop n xs))"
  by pat_completeness auto
termination by (relation "measure (\<lambda>(n, xs). length xs)") auto

declare chunks.simps [simp del]

lemma concat_chunks [simp]: "concat (chunks n xs) = xs"
proof (induction n xs rule: chunks.induct)
  case (1 n xs)
  then show ?case by (subst chunks.simps) auto
qed

lemma chunks_bounded: "0 < n \<Longrightarrow> ys \<in> set (chunks n xs) \<Longrightarrow> length ys \<le> n"
proof (induction n xs rule: chunks.induct)
  case (1 n xs)
  then show ?case by (subst (asm) chunks.simps [of n xs]) (auto split: if_splits)
qed

section \<open>Strict total orders on keys\<close>

locale keyset =
  fixes before :: "'k \<Rightarrow> 'k \<Rightarrow> bool"
  assumes irrefl: "\<not> before a a"
    and trans: "before a b \<Longrightarrow> before b c \<Longrightarrow> before a c"
    and total: "a \<noteq> b \<Longrightarrow> before a b \<or> before b a"
begin

lemma asym: "before a b \<Longrightarrow> \<not> before b a"
  using irrefl trans by blast

lemma sorted_insert_by:
  assumes "sorted_wrt (\<lambda>a b. before (key a) (key b)) ys" and "key x \<notin> key ` set ys"
  shows "sorted_wrt (\<lambda>a b. before (key a) (key b)) (insert_by (\<lambda>a b. before (key a) (key b)) x ys)"
  using assms
proof (induction ys)
  case (Cons y ys)
  show ?case
  proof (cases "before (key y) (key x)")
    case True
    with Cons show ?thesis by auto
  next
    case False
    with Cons.prems(2) total [of "key y" "key x"] have "before (key x) (key y)" by auto
    with False Cons.prems(1) show ?thesis by (auto intro: trans)
  qed
qed simp

lemma sorted_sort_by:
  assumes "distinct (map key xs)"
  shows "sorted_wrt (\<lambda>a b. before (key a) (key b)) (sort_by (\<lambda>a b. before (key a) (key b)) xs)"
  using assms
proof (induction xs)
  case (Cons x xs)
  moreover have "key x \<notin> key ` set (sort_by (\<lambda>a b. before (key a) (key b)) xs)"
    using Cons.prems by simp
  ultimately show ?case
    unfolding sort_by_def foldr.simps o_apply by (intro sorted_insert_by) auto
qed (simp add: sort_by_def)

text \<open>A set of rows has one ordering.\<close>

lemma sorted_unique:
  assumes "sorted_wrt (\<lambda>a b. before (key a) (key b)) xs" and "sorted_wrt (\<lambda>a b. before (key a) (key b)) ys"
    and "set xs = set ys"
  shows "xs = ys"
  using assms
proof (induction xs arbitrary: ys)
  case (Cons x xs)
  then obtain y ys' where ys: "ys = y # ys'" by (cases ys) auto
  have nx: "x \<notin> set xs" and ny: "y \<notin> set ys'" using Cons.prems ys irrefl by auto
  have "x = y"
  proof (rule ccontr)
    assume "x \<noteq> y"
    with Cons.prems ys have "x \<in> set ys'" "y \<in> set xs" by auto
    with Cons.prems ys have "before (key y) (key x)" "before (key x) (key y)" by auto
    then show False using asym by blast
  qed
  moreover have "set xs = set ys'" using Cons.prems(3) ys nx ny \<open>x = y\<close> by (auto simp: insert_eq_iff)
  ultimately show ?case using Cons ys by simp
qed simp

text \<open>After the key of a row, what follows that row in the ordering.\<close>

lemma filter_after:
  assumes "sorted_wrt (\<lambda>a b. before (key a) (key b)) (pre @ x # suf)"
  shows "filter (\<lambda>r. before (key x) (key r)) (pre @ x # suf) = suf"
proof -
  have "filter (\<lambda>r. before (key x) (key r)) pre = []"
    using assms asym by (auto simp: sorted_wrt_append filter_empty_conv)
  moreover have "filter (\<lambda>r. before (key x) (key r)) suf = suf"
    using assms by (auto simp: sorted_wrt_append filter_id_conv)
  ultimately show ?thesis by (simp add: irrefl)
qed

lemma sort_by_filter:
  assumes "distinct (map key xs)"
  shows "sort_by (\<lambda>a b. before (key a) (key b)) (filter p xs) =
    filter p (sort_by (\<lambda>a b. before (key a) (key b)) xs)"
proof (rule sorted_unique [of key])
  show "sorted_wrt (\<lambda>a b. before (key a) (key b)) (sort_by (\<lambda>a b. before (key a) (key b)) (filter p xs))"
    using assms by (intro sorted_sort_by) (simp add: distinct_map_filter)
  show "sorted_wrt (\<lambda>a b. before (key a) (key b)) (filter p (sort_by (\<lambda>a b. before (key a) (key b)) xs))"
    using sorted_sort_by [OF assms] by (rule sorted_wrt_filter)
qed auto

text \<open>
  The page after row \<open>x\<close> is a prefix of what follows \<open>x\<close> in the ordering of the matching
  rows; the first page is a prefix of that ordering.
\<close>

lemma select_page_first:
  "select_page before key p None n rows =
     take n (sort_by (\<lambda>a b. before (key a) (key b)) (filter p rows))"
  by (simp add: select_page_def)

lemma select_page_after:
  assumes "distinct (map key rows)"
    and "sort_by (\<lambda>a b. before (key a) (key b)) (filter p rows) = pre @ x # suf"
  shows "select_page before key p (Some (key x)) n rows = take n suf"
proof -
  let ?s = "sort_by (\<lambda>a b. before (key a) (key b))"
  have d: "distinct (map key (filter p rows))" using assms(1) by (simp add: distinct_map_filter)
  have "?s (filter (\<lambda>r. p r \<and> before (key x) (key r)) rows) =
      ?s (filter (\<lambda>r. before (key x) (key r)) (filter p rows))"
    by (simp add: conj_commute)
  also have "\<dots> = filter (\<lambda>r. before (key x) (key r)) (pre @ x # suf)"
    using sort_by_filter [OF d] assms(2) by simp
  also have "\<dots> = suf"
    using sorted_sort_by [OF d] assms(2) by (intro filter_after) simp
  finally show ?thesis by (simp add: select_page_def)
qed

end

text \<open>The opposite direction is a strict total order as well.\<close>

sublocale keyset \<subseteq> flipped: keyset "\<lambda>a b. before b a"
  by unfold_locales (use irrefl trans total in blast)+

context keyset
begin

lemma flip: "keyset (\<lambda>a b. before b a)"
  by (rule flipped.keyset_axioms)

end

text \<open>A strict total order on values, with ties broken by a number, is one on pairs.\<close>

definition pair_before :: "('v \<Rightarrow> 'v \<Rightarrow> bool) \<Rightarrow> 'v \<times> 'i::linorder \<Rightarrow> 'v \<times> 'i \<Rightarrow> bool" where
  "pair_before lt a b \<longleftrightarrow> lt (fst a) (fst b) \<or> (fst a = fst b \<and> snd a < snd b)"

lemma keyset_pair:
  assumes "keyset lt"
  shows "keyset (pair_before lt :: 'v \<times> 'i::linorder \<Rightarrow> 'v \<times> 'i \<Rightarrow> bool)"
proof -
  note k = keyset.irrefl [OF assms] keyset.trans [OF assms] keyset.total [OF assms]
  show ?thesis
  proof
    show "\<not> pair_before lt a a" for a :: "'v \<times> 'i" using k(1) by (simp add: pair_before_def)
    show "pair_before lt a b \<Longrightarrow> pair_before lt b c \<Longrightarrow> pair_before lt a c" for a b c :: "'v \<times> 'i"
      using k(2) by (auto simp: pair_before_def)
    show "a \<noteq> b \<Longrightarrow> pair_before lt a b \<or> pair_before lt b a" for a b :: "'v \<times> 'i"
      using k(3) by (cases a; cases b) (auto simp: pair_before_def)
  qed
qed

section \<open>Following the cursors\<close>

text \<open>A client that asks with the cursor of the previous answer until there is none.\<close>

fun read_pages ::
    "nat \<Rightarrow> (string \<Rightarrow> 'w \<Rightarrow> ('e + 'a list \<times> string) \<times> 'w) \<Rightarrow> string \<Rightarrow> 'w \<Rightarrow> 'a list list option" where
  "read_pages 0 fetch c w = None"
| "read_pages (Suc n) fetch c w =
     (case fetch c w of
        (Inl err, w') \<Rightarrow> None
      | (Inr (xs, nxt), w') \<Rightarrow>
          (if nxt = [] then Some [xs] else map_option ((#) xs) (read_pages n fetch nxt w')))"

text \<open>A cursor points before \<open>suf\<close>: at the beginning, or it is the cursor of the row in front.\<close>

definition points_at :: "('r \<Rightarrow> string) \<Rightarrow> 'r list \<Rightarrow> string \<Rightarrow> 'r list \<Rightarrow> bool" where
  "points_at cursor_of rows c suf \<longleftrightarrow>
     c = [] \<and> rows = suf \<or> (\<exists>pre x. rows = pre @ x # suf \<and> c = cursor_of x)"

text \<open>
  The contract of a paged listing: in a good state a call answers the next \<open>L\<close> rows after its
  cursor and, when more follow, the cursor of the last row it answered.
\<close>

locale paged_listing =
  fixes fetch :: "string \<Rightarrow> 'w \<Rightarrow> ('e + 'a list \<times> string) \<times> 'w"
    and row :: "'a \<Rightarrow> 'r"
    and cursor_of :: "'r \<Rightarrow> string"
    and rows :: "'w \<Rightarrow> 'r list"
    and good :: "'w \<Rightarrow> bool"
    and L :: nat
  assumes L_pos: "0 < L"
    and fetch_page: "good w \<Longrightarrow> points_at cursor_of (rows w) c suf \<Longrightarrow>
      \<exists>xs w'. fetch c w = (Inr (xs, if length suf \<le> L then [] else cursor_of (suf ! (L - 1))), w') \<and>
        map row xs = take L suf \<and> rows w' = rows w \<and> good w'"
    and cursor_nonempty: "cursor_of r \<noteq> []"
begin

lemma read_pages_from:
  assumes "good w" and "points_at cursor_of (rows w) c suf" and "length suf < n"
  shows "\<exists>pages. read_pages n fetch c w = Some pages \<and> map (map row) pages = chunks L suf"
  using assms
proof (induction n arbitrary: c w suf)
  case (Suc n)
  obtain xs w' where p: "fetch c w = (Inr (xs, if length suf \<le> L then [] else cursor_of (suf ! (L - 1))), w')"
    and xs: "map row xs = take L suf" and w': "rows w' = rows w" "good w'"
    using fetch_page [OF Suc.prems(1,2)] by blast
  show ?case
  proof (cases "length suf \<le> L")
    case True
    then show ?thesis using p xs by (simp add: chunks.simps [of L suf])
  next
    case False
    have "suf = take (L - 1) suf @ suf ! (L - 1) # drop L suf"
      using False L_pos id_take_nth_drop [of "L - 1" suf] by simp
    moreover obtain pre where "rows w = pre @ suf"
      using Suc.prems(2) by (auto simp: points_at_def intro: that [of "[]"])
    ultimately have "rows w' = (pre @ take (L - 1) suf) @ suf ! (L - 1) # drop L suf" using w' by simp
    then have "points_at cursor_of (rows w') (cursor_of (suf ! (L - 1))) (drop L suf)"
      unfolding points_at_def by (intro disjI2 exI conjI) (assumption, simp)
    moreover have "length (drop L suf) < n" using Suc.prems(3) False L_pos by simp
    ultimately obtain pages where "read_pages n fetch (cursor_of (suf ! (L - 1))) w' = Some pages"
        "map (map row) pages = chunks L (drop L suf)"
      using Suc.IH [OF w'(2)] by blast
    then show ?thesis using False p xs L_pos by (simp add: chunks.simps [of L suf] cursor_nonempty)
  qed
qed simp

text \<open>From the beginning: everything once, in order, in pages of at most \<open>L\<close>.\<close>

lemma read_all_pages:
  assumes "good w" and "length (rows w) < n"
  obtains pages where "read_pages n fetch [] w = Some pages" and "map row (concat pages) = rows w"
    and "\<forall>p \<in> set pages. length p \<le> L"
proof -
  obtain pages where p: "read_pages n fetch [] w = Some pages" "map (map row) pages = chunks L (rows w)"
    using read_pages_from [of w "[]" "rows w" n] assms by (auto simp: points_at_def)
  have "map row (concat pages) = concat (map (map row) pages)" by (simp add: map_concat)
  with p(2) have "map row (concat pages) = rows w" by simp
  moreover have "length q \<le> L" if "q \<in> set pages" for q
  proof -
    have "map row q \<in> set (map (map row) pages)" using that by simp
    then have "length (map row q) \<le> L" unfolding p(2) by (rule chunks_bounded [OF L_pos])
    then show ?thesis by simp
  qed
  ultimately show ?thesis using p(1) that by blast
qed

end

end
