(* ===== verification/Forge_Db.thy ===== *)
theory Forge_Db
  imports Forge_Ids Go_Json Go_Time Keyset
begin

text \<open>
  The database the control plane shares between its processes: the tables of
  \<^verbatim>\<open>migrations/0001_catalog.up.sql\<close> and \<^verbatim>\<open>migrations/0002_tenant.up.sql\<close> as lists of
  rows, each SQL statement of the sources as a function on the tables with the constraints
  the schema declares, and the session a request runs in (\<open>world\<close>).

  What is outside the program is a parameter (\<open>env\<close>): the UUID package, the identifiers
  \<^verbatim>\<open>id.New\<close> draws, the database clock, and the failures of the connection.
  \<open>env_fault n = Some e\<close> means that the \<open>n\<close>-th statement of the session (\<^verbatim>\<open>BEGIN\<close> and
  \<^verbatim>\<open>COMMIT\<close> included) fails with \<open>e\<close>; a failed commit may or may not have taken effect
  (\<open>env_commit_lost\<close>), as a connection lost during \<^verbatim>\<open>COMMIT\<close> leaves open.

  PostgreSQL facts used: \<^verbatim>\<open>text\<close> rejects the NUL byte and invalid UTF-8 (SQLSTATE 22021), \<^verbatim>\<open>timestamptz\<close>
  keeps microseconds, \<^verbatim>\<open>CHECK\<close>, \<^verbatim>\<open>UNIQUE\<close>/\<^verbatim>\<open>PRIMARY KEY\<close> and \<^verbatim>\<open>REFERENCES\<close> violations are
  SQLSTATE 23514, 23505 and 23503, a malformed \<^verbatim>\<open>::uuid\<close> cast is 22P02, an integer outside
  its column type is 22003.
\<close>

section \<open>Tables\<close>

record catalog_service_row =
  cs_id :: uuid
  cs_tenant_id :: uuid
  cs_name :: string
  cs_description :: string
  cs_tier :: int
  cs_lifecycle :: string
  cs_repository_url :: string
  cs_owning_team :: string
  cs_on_call_ref :: string
  cs_version :: int
  cs_created_at :: time
  cs_updated_at :: time

record ownership_history_row =
  oh_id :: uuid
  oh_service_id :: uuid
  oh_owning_team :: string
  oh_on_call_ref :: string
  oh_valid_from :: time
  oh_valid_to :: "time option"

record outbox_row =
  ob_id :: uuid
  ob_aggregate_id :: uuid
  ob_event_type :: string
  ob_payload :: json
  ob_occurred_at :: time
  ob_published_at :: "time option"
  ob_created_at :: time

record idempotency_row =
  ik_id :: uuid
  ik_idem_key :: string
  ik_request_hash :: string
  ik_response_status :: nat
  ik_response_body :: json

record tenant_row =
  tn_id :: uuid
  tn_name :: string
  tn_slug :: string
  tn_plan :: string
  tn_status :: string
  tn_max_services :: int
  tn_version :: int
  tn_created_at :: time
  tn_updated_at :: time

record db =
  catalog_services :: "catalog_service_row list"
  catalog_ownership_history :: "ownership_history_row list"
  outbox_events :: "outbox_row list"
  idempotency_keys :: "idempotency_row list"
  tenants :: "tenant_row list"

definition empty_db :: db where
  "empty_db = \<lparr>catalog_services = [], catalog_ownership_history = [], outbox_events = [],
     idempotency_keys = [], tenants = []\<rparr>"

text \<open>Column types.\<close>

definition pg_text :: "string \<Rightarrow> bool" where
  "pg_text s \<longleftrightarrow> CHR 0x00 \<notin> set s \<and> utf8_valid s"

lemma pg_text_ascii: "ascii s \<Longrightarrow> pg_text s"
  by (auto simp: ascii_def pg_text_def intro: utf8_valid_ascii)

definition timestamptz :: "time \<Rightarrow> time" where
  "timestamptz t = t div 1000 * 1000"

lemma timestamptz_idem [simp]: "timestamptz (timestamptz t) = timestamptz t"
  by (simp add: timestamptz_def)

lemma timestamptz_le: "timestamptz t \<le> t"
  by (simp add: timestamptz_def)

lemma timestamptz_mono: "s \<le> t \<Longrightarrow> timestamptz s \<le> timestamptz t"
  by (simp add: timestamptz_def zdiv_mono1)

definition pg_encoding_error :: go_error where
  "pg_encoding_error = PgError ''22021'' ''invalid byte sequence for encoding''"
definition pg_check_error :: go_error where
  "pg_check_error = PgError ''23514'' ''new row violates check constraint''"
definition pg_unique_error :: go_error where
  "pg_unique_error = PgError ''23505'' ''duplicate key value violates unique constraint''"
definition pg_foreign_key_error :: go_error where
  "pg_foreign_key_error = PgError ''23503'' ''violates foreign key constraint''"
definition pg_uuid_error :: go_error where
  "pg_uuid_error = PgError ''22P02'' ''invalid input syntax for type uuid''"
definition pg_range_error :: go_error where
  "pg_range_error = PgError ''22003'' ''value out of range''"

lemmas pg_errors =
  pg_encoding_error_def pg_check_error_def pg_unique_error_def pg_foreign_key_error_def
  pg_uuid_error_def pg_range_error_def

section \<open>Sessions\<close>

text \<open>
  The two functions of the database server that queries depend on: reading a
  \<^verbatim>\<open>timestamptz\<close> from text and comparing \<^verbatim>\<open>text\<close> in the database's collation. A RFC 3339 text
  of a stored time stamp is read back as that time stamp, and a (deterministic) collation is
  a strict total order.
\<close>

record pg_lib =
  pg_timestamptz_in :: "string \<Rightarrow> time option"
  pg_collate :: "string \<Rightarrow> string \<Rightarrow> bool"

definition pg_laws :: "pg_lib \<Rightarrow> bool" where
  "pg_laws G \<longleftrightarrow>
     (\<forall>t. year_ok t \<and> timestamptz t = t \<longrightarrow> pg_timestamptz_in G (RFC3339Nano t) = Some t) \<and>
     keyset (pg_collate G)"

record env =
  env_uuid :: uuid_lib
  env_pg :: pg_lib
  env_fault :: "nat \<Rightarrow> go_error option"
  env_commit_lost :: "nat \<Rightarrow> bool"
  env_id :: "nat \<Rightarrow> uuid"
  env_now :: "nat \<Rightarrow> time"

record world =
  w_db :: db
  w_stmts :: nat
  w_ids :: nat
  w_txnow :: time

type_synonym 'a tx = "world \<Rightarrow> (go_error + 'a) \<times> world"

text \<open>One statement: it fails with the connection's error, or runs on the tables.\<close>

definition sql :: "env \<Rightarrow> (db \<Rightarrow> (go_error + 'a) \<times> db) \<Rightarrow> 'a tx" where
  "sql E stmt w =
     (let w' = w\<lparr>w_stmts := Suc (w_stmts w)\<rparr>
      in case env_fault E (w_stmts w) of
           Some e \<Rightarrow> (Inl e, w')
         | None \<Rightarrow> (case stmt (w_db w) of
                      (Inl e, d) \<Rightarrow> (Inl e, w')
                    | (Inr a, d) \<Rightarrow> (Inr a, w'\<lparr>w_db := d\<rparr>)))"

text \<open>\<^verbatim>\<open>id.New()\<close>.\<close>

definition id_New :: "env \<Rightarrow> world \<Rightarrow> uuid \<times> world" where
  "id_New E w = (env_id E (w_ids w), w\<lparr>w_ids := Suc (w_ids w)\<rparr>)"

text \<open>
  \<^verbatim>\<open>Store.Execute\<close>: begin, run the unit of work on the transaction, roll back on its
  error, commit otherwise. \<^verbatim>\<open>now()\<close> in the transaction is its start time.
\<close>

definition Execute :: "env \<Rightarrow> 'a tx \<Rightarrow> 'a tx" where
  "Execute E fn w =
     (case sql E (\<lambda>d. (Inr (), d)) w of
        (Inl err, w1) \<Rightarrow> (Inl (Errorf ''begin tx'' err), w1)
      | (Inr _, w1) \<Rightarrow>
          (case fn (w1\<lparr>w_txnow := env_now E (w_stmts w)\<rparr>) of
             (Inl err, w2) \<Rightarrow> (Inl err, w2\<lparr>w_db := w_db w\<rparr>)
           | (Inr a, w2) \<Rightarrow>
               (let w3 = w2\<lparr>w_stmts := Suc (w_stmts w2)\<rparr>
                in case env_fault E (w_stmts w2) of
                     Some err \<Rightarrow>
                       (Inl (Errorf ''commit tx'' err),
                        if env_commit_lost E (w_stmts w2) then w3 else w3\<lparr>w_db := w_db w\<rparr>)
                   | None \<Rightarrow> (Inr a, w3))))"

text \<open>
  All or nothing: a transaction leaves the tables as they were, or as its unit of work
  left them when it completed; it reports success only in the second case, and an error in
  the second case only when the commit itself lost its answer.
\<close>

lemma Execute_cases:
  assumes "Execute E fn w = (r, w')"
  obtains (unchanged) e where "r = Inl e" and "w_db w' = w_db w"
  | (applied) w1 a w2 where "w_db w1 = w_db w" and "w_ids w1 = w_ids w" and "fn w1 = (Inr a, w2)"
      and "w_db w' = w_db w2" and "w_ids w' = w_ids w2"
      and "r = Inr a \<or> (\<exists>e. r = Inl (Errorf ''commit tx'' e))"
proof -
  consider e w1 where "sql E (\<lambda>d. (Inr (), d)) w = (Inl e, w1)"
    | w1 where "sql E (\<lambda>d. (Inr (), d)) w = (Inr (), w1)"
    by (cases "sql E (\<lambda>d. (Inr (), d)) w") (metis obj_sumE old.unit.exhaust)
  then show thesis
  proof cases
    case 1
    moreover from 1 have "w_db w1 = w_db w" by (auto simp: sql_def Let_def split: option.splits)
    ultimately show thesis using assms by (intro unchanged) (auto simp: Execute_def)
  next
    case 2
    then have w1: "w_db w1 = w_db w" "w_ids w1 = w_ids w"
      by (auto simp: sql_def Let_def split: option.splits)
    let ?w1 = "w1\<lparr>w_txnow := env_now E (w_stmts w)\<rparr>"
    show thesis
    proof (cases "fn ?w1")
      case (Pair q w2)
      show thesis
      proof (cases q)
        case (Inl e)
        with 2 Pair assms show thesis by (intro unchanged) (auto simp: Execute_def)
      next
        case (Inr a)
        with 2 Pair assms w1 show thesis
          using applied [of ?w1 a w2] unchanged
          by (auto simp: Execute_def Let_def split: option.splits if_splits)
      qed
    qed
  qed
qed

text \<open>An invariant of the tables that the unit of work keeps is kept by the transaction.\<close>

lemma Execute_invariant:
  assumes "Execute E fn w = (r, w')" and "P (w_db w)"
    and "\<And>w1 a w2. w_db w1 = w_db w \<Longrightarrow> fn w1 = (Inr a, w2) \<Longrightarrow> P (w_db w2)"
  shows "P (w_db w')"
  using assms(1)
proof (cases rule: Execute_cases)
  case (unchanged e)
  with assms(2) show ?thesis by simp
next
  case (applied w1 a w2)
  with assms(3) show ?thesis by metis
qed

section \<open>Outbox rows\<close>

text \<open>
  \<^verbatim>\<open>INSERT INTO outbox_events (id, aggregate_id, event_type, payload, occurred_at)\<close>;
  \<^verbatim>\<open>created_at\<close> defaults to \<^verbatim>\<open>now()\<close>, \<^verbatim>\<open>published_at\<close> to \<^verbatim>\<open>NULL\<close>.
\<close>

definition insert_outbox_event ::
    "uuid \<Rightarrow> uuid option \<Rightarrow> string \<Rightarrow> json \<Rightarrow> time \<Rightarrow> time \<Rightarrow> db \<Rightarrow> (go_error + unit) \<times> db" where
  "insert_outbox_event i aggregate event_type payload occurred_at now d =
     (case aggregate of
        None \<Rightarrow> (Inl pg_uuid_error, d)
      | Some a \<Rightarrow>
          (if \<not> pg_text event_type then (Inl pg_encoding_error, d)
           else if i \<in> set (map ob_id (outbox_events d)) then (Inl pg_unique_error, d)
           else (Inr (), d\<lparr>outbox_events := outbox_events d @
                  [\<lparr>ob_id = i, ob_aggregate_id = a, ob_event_type = event_type,
                    ob_payload = payload, ob_occurred_at = timestamptz occurred_at,
                    ob_published_at = None, ob_created_at = timestamptz now\<rparr>]\<rparr>)))"

lemma sql_Inr:
  assumes "sql E stmt w = (Inr a, w')"
  shows "stmt (w_db w) = (Inr a, w_db w')" and "w_ids w' = w_ids w" and "w_txnow w' = w_txnow w"
    and "w_stmts w' = Suc (w_stmts w)"
  using assms by (auto simp: sql_def Let_def split: option.splits prod.splits sum.splits)

lemma sql_Inl:
  assumes "sql E stmt w = (Inl e, w')"
  shows "w_db w' = w_db w"
  using assms by (auto simp: sql_def Let_def split: option.splits prod.splits sum.splits)

lemma sql_read:
  assumes "sql E stmt w = (r, w')" and "\<And>d r d'. stmt d = (r, d') \<Longrightarrow> d' = d"
  shows "w_db w' = w_db w"
  using assms by (auto simp: sql_def Let_def split: option.splits prod.splits sum.splits)

lemma sql_no_fault:
  assumes "env_fault E (w_stmts w) = None"
  shows "sql E stmt w =
    (case stmt (w_db w) of
       (Inl e, d) \<Rightarrow> (Inl e, w\<lparr>w_stmts := Suc (w_stmts w)\<rparr>)
     | (Inr a, d) \<Rightarrow> (Inr a, w\<lparr>w_stmts := Suc (w_stmts w), w_db := d\<rparr>))"
  using assms by (simp add: sql_def Let_def)

lemma id_New_simps [simp]:
  "w_db (snd (id_New E w)) = w_db w" "w_txnow (snd (id_New E w)) = w_txnow w"
  "w_stmts (snd (id_New E w)) = w_stmts w" "w_ids (snd (id_New E w)) = Suc (w_ids w)"
  "fst (id_New E w) = env_id E (w_ids w)"
  by (simp_all add: id_New_def)

lemma insert_outbox_event_Inr:
  assumes "insert_outbox_event i aggregate ty payload at now d = (Inr u, d')"
  obtains a where "aggregate = Some a" and "i \<notin> set (map ob_id (outbox_events d))"
    and "d' = d\<lparr>outbox_events := outbox_events d @
           [\<lparr>ob_id = i, ob_aggregate_id = a, ob_event_type = ty, ob_payload = payload,
             ob_occurred_at = timestamptz at, ob_published_at = None,
             ob_created_at = timestamptz now\<rparr>]\<rparr>"
  using assms by (auto simp: insert_outbox_event_def split: option.splits if_splits)

section \<open>A concrete environment\<close>

text \<open>
  A connection that never fails, identifiers counted up, the canonical UUID text, and the
  empty database: the concrete environment of the witnesses.
\<close>

fun bytes_before :: "string \<Rightarrow> string \<Rightarrow> bool" where
  "bytes_before s [] = False"
| "bytes_before [] (b # t) = True"
| "bytes_before (a # s) (b # t) = (byte a < byte b \<or> (a = b \<and> bytes_before s t))"

definition plain_pg_lib :: pg_lib where
  "plain_pg_lib = \<lparr>pg_timestamptz_in = rfc3339_parse, pg_collate = bytes_before\<rparr>"

interpretation bytes: keyset bytes_before
proof
  show "\<not> bytes_before a a" for a by (induction a) auto
  show "bytes_before a b \<Longrightarrow> bytes_before b c \<Longrightarrow> bytes_before a c" for a b c
  proof (induction a b arbitrary: c rule: bytes_before.induct)
    case (2 b t)
    then show ?case by (cases c) auto
  next
    case (3 a s b t)
    then show ?case by (cases c) auto
  qed simp
  show "a \<noteq> b \<Longrightarrow> bytes_before a b \<or> bytes_before b a" for a b
  proof (induction a b rule: bytes_before.induct)
    case (1 s)
    then show ?case by (cases s) auto
  next
    case (3 a s b t)
    have "byte a = byte b \<longleftrightarrow> a = b" by simp
    with 3 show ?case by (auto simp: neq_iff)
  qed simp
qed

lemma plain_pg_laws [simp]: "pg_laws plain_pg_lib"
  by (simp add: pg_laws_def plain_pg_lib_def rfc3339_parse_RFC3339Nano bytes.keyset_axioms)

definition plain_env :: env where
  "plain_env = \<lparr>env_uuid = canonical_uuid_lib, env_pg = plain_pg_lib, env_fault = (\<lambda>n. None),
     env_commit_lost = (\<lambda>n. False), env_id = (\<lambda>n. word_of_nat (n + 1)), env_now = (\<lambda>n. 1000)\<rparr>"

definition empty_world :: world where
  "empty_world = \<lparr>w_db = empty_db, w_stmts = 0, w_ids = 0, w_txnow = 0\<rparr>"

lemma plain_env_laws [simp]: "uuid_laws (env_uuid plain_env)"
  by (simp add: plain_env_def canonical_uuid_laws)

lemma plain_env_pg [simp]: "pg_laws (env_pg plain_env)"
  by (simp add: plain_env_def)

lemma plain_env_fault [simp]: "env_fault plain_env = (\<lambda>n. None)"
  by (simp add: plain_env_def)

lemma empty_world_db [simp]: "w_db empty_world = empty_db"
  by (simp add: empty_world_def)

text \<open>Without faults a transaction answers what its unit of work answers.\<close>

lemma Execute_no_fault:
  assumes "env_fault E = (\<lambda>n. None)"
  shows "fst (Execute E fn w) =
    fst (fn (w\<lparr>w_stmts := Suc (w_stmts w), w_txnow := env_now E (w_stmts w)\<rparr>))"
  using assms by (simp add: Execute_def sql_no_fault Let_def split: prod.split sum.split)

end
