(* ===== verification/Catalog_Repository.thy ===== *)
theory Catalog_Repository
  imports Catalog_Service Forge_Db
begin

text \<open>
  \<^verbatim>\<open>internal/modules/catalog/adapters/postgres\<close>: the single-row half of
  \<open>repository.go\<close> (insert, optimistic update, time-versioned ownership, the two lookups and
  the row scanner) and \<open>outbox.go\<close>. The list query, its cursors and its query builder are
  in \<open>Catalog_Listing\<close>. Each Go method is one definition; its SQL statements are the
  definitions on \<open>db\<close> above it.
\<close>

section \<open>SQL statements\<close>

definition lifecycle_column :: "string \<Rightarrow> bool" where
  "lifecycle_column s \<longleftrightarrow> s \<in> {''experimental'', ''production'', ''deprecated'', ''retired''}"

definition service_columns_ok :: "catalog_service_row \<Rightarrow> bool" where
  "service_columns_ok r \<longleftrightarrow> pg_text (cs_description r) \<and> pg_text (cs_repository_url r) \<and>
     pg_text (cs_owning_team r) \<and> pg_text (cs_on_call_ref r)"

definition service_check :: "catalog_service_row \<Rightarrow> bool" where
  "service_check r \<longleftrightarrow> 1 \<le> cs_tier r \<and> cs_tier r \<le> 4 \<and> lifecycle_column (cs_lifecycle r)"

definition insert_catalog_service :: "catalog_service_row \<Rightarrow> db \<Rightarrow> (go_error + unit) \<times> db" where
  "insert_catalog_service r d =
     (if \<not> (service_columns_ok r \<and> pg_text (cs_name r)) then (Inl pg_encoding_error, d)
      else if \<not> service_check r then (Inl pg_check_error, d)
      else if list_ex (\<lambda>q. cs_id q = cs_id r \<or>
                (cs_tenant_id q = cs_tenant_id r \<and> cs_name q = cs_name r)) (catalog_services d)
      then (Inl pg_unique_error, d)
      else (Inr (), d\<lparr>catalog_services := catalog_services d @ [r]\<rparr>))"

definition insert_ownership_history :: "ownership_history_row \<Rightarrow> db \<Rightarrow> (go_error + unit) \<times> db" where
  "insert_ownership_history h d =
     (if \<not> (pg_text (oh_owning_team h) \<and> pg_text (oh_on_call_ref h)) then (Inl pg_encoding_error, d)
      else if oh_id h \<in> set (map oh_id (catalog_ownership_history d)) then (Inl pg_unique_error, d)
      else if oh_service_id h \<notin> set (map cs_id (catalog_services d))
      then (Inl pg_foreign_key_error, d)
      else (Inr (), d\<lparr>catalog_ownership_history := catalog_ownership_history d @ [h]\<rparr>))"

text \<open>
  \<^verbatim>\<open>UPDATE catalog_services SET ... WHERE id=$9::uuid AND version=$10\<close>: the columns of
  \<open>r\<close> that the statement sets; the result is the number of rows it affected.
\<close>

definition set_service_columns ::
    "catalog_service_row \<Rightarrow> catalog_service_row \<Rightarrow> catalog_service_row" where
  "set_service_columns r q =
     q\<lparr>cs_description := cs_description r, cs_tier := cs_tier r, cs_lifecycle := cs_lifecycle r,
       cs_repository_url := cs_repository_url r, cs_owning_team := cs_owning_team r,
       cs_on_call_ref := cs_on_call_ref r, cs_version := cs_version r,
       cs_updated_at := cs_updated_at r\<rparr>"

definition update_catalog_service ::
    "catalog_service_row \<Rightarrow> int \<Rightarrow> db \<Rightarrow> (go_error + nat) \<times> db" where
  "update_catalog_service r expected d =
     (let hit = (\<lambda>q. cs_id q = cs_id r \<and> cs_version q = expected);
          n = length (filter hit (catalog_services d))
      in if \<not> service_columns_ok r then (Inl pg_encoding_error, d)
         else if 0 < n \<and> \<not> service_check r then (Inl pg_check_error, d)
         else (Inr n, d\<lparr>catalog_services :=
                map (\<lambda>q. if hit q then set_service_columns r q else q) (catalog_services d)\<rparr>))"

definition close_ownership_interval ::
    "uuid \<Rightarrow> time \<Rightarrow> string \<Rightarrow> string \<Rightarrow> db \<Rightarrow> (go_error + unit) \<times> db" where
  "close_ownership_interval sid at team onCall d =
     (if \<not> (pg_text team \<and> pg_text onCall) then (Inl pg_encoding_error, d)
      else (Inr (), d\<lparr>catalog_ownership_history :=
             map (\<lambda>h. if oh_service_id h = sid \<and> oh_valid_to h = None \<and>
                         (oh_owning_team h, oh_on_call_ref h) \<noteq> (team, onCall)
                       then h\<lparr>oh_valid_to := Some (timestamptz at)\<rparr> else h)
               (catalog_ownership_history d)\<rparr>))"

definition open_ownership_interval :: "ownership_history_row \<Rightarrow> db \<Rightarrow> (go_error + unit) \<times> db" where
  "open_ownership_interval h d =
     (if list_ex (\<lambda>g. oh_service_id g = oh_service_id h \<and> oh_valid_to g = None \<and>
            oh_owning_team g = oh_owning_team h \<and> oh_on_call_ref g = oh_on_call_ref h)
          (catalog_ownership_history d)
      then (Inr (), d)
      else insert_ownership_history h d)"

section \<open>Rows and aggregates\<close>

definition row_of :: "service \<Rightarrow> catalog_service_row" where
  "row_of s =
     \<lparr>cs_id = ServiceID_UUID (svc_id s), cs_tenant_id = TenantID_UUID (svc_tenantID s),
      cs_name = ServiceName_String (svc_name s), cs_description = svc_description s,
      cs_tier = Tier_Int (svc_tier s), cs_lifecycle = Lifecycle_string (svc_lifecycle s),
      cs_repository_url = svc_repository s, cs_owning_team = OwningTeam (svc_ownership s),
      cs_on_call_ref = OnCallRef (svc_ownership s), cs_version = svc_version s,
      cs_created_at = timestamptz (svc_createdAt s), cs_updated_at = timestamptz (svc_updatedAt s)\<rparr>"

definition corrupt :: "go_error \<Rightarrow> go_error" where
  "corrupt err = WithCause (Internal ''DATA_CORRUPTION'' ''stored service data is invalid'') err"

text \<open>
  \<^verbatim>\<open>scanService\<close>: no row is the not-found error; every column goes back through its
  constructor, and a value the constructor refuses is reported as data corruption.
\<close>

definition scanService :: "uuid_lib \<Rightarrow> catalog_service_row option \<Rightarrow> go_error + service" where
  "scanService U row =
     (case row of
        None \<Rightarrow> Inl ErrServiceNotFound
      | Some r \<Rightarrow>
         (case ServiceIDFromString U (uuid_String U (cs_id r)) of
            Inl err \<Rightarrow> Inl (corrupt err)
          | Inr dsid \<Rightarrow>
         (case TenantIDFromString U (uuid_String U (cs_tenant_id r)) of
            Inl err \<Rightarrow> Inl (corrupt err)
          | Inr dtid \<Rightarrow>
         (case NewServiceName (cs_name r) of
            Inl err \<Rightarrow> Inl (corrupt err)
          | Inr dname \<Rightarrow>
         (case NewTier (cs_tier r) of
            Inl err \<Rightarrow> Inl (corrupt err)
          | Inr dtier \<Rightarrow>
         (case ParseLifecycle (cs_lifecycle r) of
            Inl err \<Rightarrow> Inl (corrupt err)
          | Inr dlifecycle \<Rightarrow>
         (case NewOwnership (cs_owning_team r) (cs_on_call_ref r) of
            Inl err \<Rightarrow> Inl (corrupt err)
          | Inr downership \<Rightarrow>
              Inr (Reconstitute dsid dtid dname (cs_description r) dtier dlifecycle
                (cs_repository_url r) downership (cs_version r) (cs_created_at r)
                (cs_updated_at r)))))))))"

definition scan_error :: "go_error \<Rightarrow> go_error" where
  "scan_error err =
     (if Is err ErrNoRows then ErrServiceNotFound else Errorf ''scan service'' err)"

section \<open>Repository methods\<close>

definition Repository_FindByID :: "env \<Rightarrow> service_id \<Rightarrow> service tx" where
  "Repository_FindByID E sid w =
     (case sql E (\<lambda>d. (Inr (find (\<lambda>r. cs_id r = ServiceID_UUID sid) (catalog_services d)), d)) w of
        (Inl err, w1) \<Rightarrow> (Inl (scan_error err), w1)
      | (Inr row, w1) \<Rightarrow> (scanService (env_uuid E) row, w1))"

definition Repository_FindByTenantAndName ::
    "env \<Rightarrow> tenant_id \<Rightarrow> service_name \<Rightarrow> service tx" where
  "Repository_FindByTenantAndName E tenant name w =
     (case sql E (\<lambda>d. (Inr (find (\<lambda>r. cs_tenant_id r = TenantID_UUID tenant \<and>
                 cs_name r = ServiceName_String name) (catalog_services d)), d)) w of
        (Inl err, w1) \<Rightarrow> (Inl (scan_error err), w1)
      | (Inr row, w1) \<Rightarrow> (scanService (env_uuid E) row, w1))"

definition Repository_Insert :: "env \<Rightarrow> service \<Rightarrow> unit tx" where
  "Repository_Insert E s w =
     (case sql E (insert_catalog_service (row_of s)) w of
        (Inl err, w1) \<Rightarrow>
          (Inl (if isUniqueViolation err then ErrNameConflict else Errorf ''insert service'' err), w1)
      | (Inr _, w1) \<Rightarrow>
          (case id_New E w1 of (i, w2) \<Rightarrow>
             (case sql E (insert_ownership_history
                     \<lparr>oh_id = i, oh_service_id = ServiceID_UUID (svc_id s),
                      oh_owning_team = OwningTeam (svc_ownership s),
                      oh_on_call_ref = OnCallRef (svc_ownership s),
                      oh_valid_from = timestamptz (svc_createdAt s), oh_valid_to = None\<rparr>) w2 of
                (Inl err, w3) \<Rightarrow> (Inl (Errorf ''insert ownership history'' err), w3)
              | (Inr _, w3) \<Rightarrow> (Inr (), w3))))"

definition Repository_recordOwnership :: "env \<Rightarrow> service \<Rightarrow> unit tx" where
  "Repository_recordOwnership E s w =
     (case sql E (close_ownership_interval (ServiceID_UUID (svc_id s)) (svc_updatedAt s)
             (OwningTeam (svc_ownership s)) (OnCallRef (svc_ownership s))) w of
        (Inl err, w1) \<Rightarrow> (Inl (Errorf ''close ownership interval'' err), w1)
      | (Inr _, w1) \<Rightarrow>
          (case id_New E w1 of (i, w2) \<Rightarrow>
             (case sql E (open_ownership_interval
                     \<lparr>oh_id = i, oh_service_id = ServiceID_UUID (svc_id s),
                      oh_owning_team = OwningTeam (svc_ownership s),
                      oh_on_call_ref = OnCallRef (svc_ownership s),
                      oh_valid_from = timestamptz (svc_updatedAt s), oh_valid_to = None\<rparr>) w2 of
                (Inl err, w3) \<Rightarrow> (Inl (Errorf ''open ownership interval'' err), w3)
              | (Inr _, w3) \<Rightarrow> (Inr (), w3))))"

definition Repository_Update :: "env \<Rightarrow> service \<Rightarrow> int \<Rightarrow> unit tx" where
  "Repository_Update E s expectedVersion w =
     (case sql E (update_catalog_service (row_of s) expectedVersion) w of
        (Inl err, w1) \<Rightarrow> (Inl (Errorf ''update service'' err), w1)
      | (Inr rowsAffected, w1) \<Rightarrow>
          (if rowsAffected = 0
           then (case Repository_FindByID E (svc_id s) w1 of
                   (Inl err, w2) \<Rightarrow>
                     (Inl (if Is err ErrServiceNotFound then ErrServiceNotFound
                           else ErrVersionConflict), w2)
                 | (Inr _, w2) \<Rightarrow> (Inl ErrVersionConflict, w2))
           else Repository_recordOwnership E s w1))"

section \<open>Outbox\<close>

fun event_data :: "service_event \<Rightarrow> json" where
  "event_data (ServiceRegistered b tenantID name t) =
     JObj [(''tenantId'', JStr tenantID), (''name'', JStr name), (''tier'', JInt t)]"
| "event_data (ServiceOwnershipChanged b prev new) =
     JObj [(''previousTeam'', JStr prev), (''newTeam'', JStr new)]"
| "event_data (ServiceLifecycleChanged b from to) =
     JObj [(''from'', JStr from), (''to'', JStr to)]"
| "event_data (ServiceRetired b) = JObj []"

definition envelope :: "service_event \<Rightarrow> json" where
  "envelope e =
     JObj [(''eventType'', JStr (EventType e)), (''aggregateId'', JStr (AggregateID e)),
           (''data'', event_data e)]"

text \<open>
  \<^verbatim>\<open>Outbox.Append\<close>. Marshalling an envelope cannot fail: it holds strings, integers and
  structs only.
\<close>

fun Outbox_Append :: "env \<Rightarrow> service_event list \<Rightarrow> unit tx" where
  "Outbox_Append E [] w = (Inr (), w)"
| "Outbox_Append E (e # es) w =
     (case id_New E w of (i, w1) \<Rightarrow>
        (case sql E (insert_outbox_event i (uuid_Parse (env_uuid E) (AggregateID e)) (EventType e)
                (envelope e) (OccurredAt e) (w_txnow w1)) w1 of
           (Inl err, w2) \<Rightarrow> (Inl (Errorf ''append outbox event'' err), w2)
         | (Inr _, w2) \<Rightarrow> Outbox_Append E es w2))"

end
