(* ===== verification/Catalog_Commands.thy ===== *)
theory Catalog_Commands
  imports Catalog_Repository
begin

text \<open>
  \<^verbatim>\<open>internal/modules/catalog/app/commands.go\<close>: the four commands of the catalog, each one
  transaction over the repository and the outbox. \<open>now\<close> is what the command's clock
  returns. The invariant of the stored catalog is \<open>catalog_ok\<close>.
\<close>

section \<open>Commands\<close>

record register_service_input =
  rs_TenantID :: string
  rs_Name :: string
  rs_Description :: string
  rs_Tier :: int
  rs_Repository :: string
  rs_OwningTeam :: string
  rs_OnCallRef :: string

definition isNotFound :: "go_error \<Rightarrow> bool" where
  "isNotFound err \<longleftrightarrow> err = ErrServiceNotFound"

definition expectedVersionOr :: "int \<Rightarrow> int \<Rightarrow> int" where
  "expectedVersionOr provided current = (if provided > 0 then provided else current)"

text \<open>The unit of work of \<^verbatim>\<open>RegisterService\<close>.\<close>

definition register_work :: "env \<Rightarrow> tenant_id \<Rightarrow> service_name \<Rightarrow> service \<Rightarrow> service tx" where
  "register_work E tenantID name svc w =
     (case Repository_FindByTenantAndName E tenantID name w of
        (Inr _, w1) \<Rightarrow> (Inl ErrNameConflict, w1)
      | (Inl err, w1) \<Rightarrow>
          (if \<not> isNotFound err then (Inl err, w1)
           else case Repository_Insert E svc w1 of
                  (Inl err, w2) \<Rightarrow> (Inl err, w2)
                | (Inr _, w2) \<Rightarrow>
                    (case Service_PullEvents svc of (events, svc') \<Rightarrow>
                       (case Outbox_Append E events w2 of
                          (Inl err, w3) \<Rightarrow> (Inl err, w3)
                        | (Inr _, w3) \<Rightarrow> (Inr svc', w3)))))"

definition RegisterService :: "env \<Rightarrow> time \<Rightarrow> register_service_input \<Rightarrow> service tx" where
  "RegisterService E now inp w =
     (case TenantIDFromString (env_uuid E) (rs_TenantID inp) of
        Inl err \<Rightarrow> (Inl err, w)
      | Inr tenantID \<Rightarrow>
     (case NewServiceName (rs_Name inp) of
        Inl err \<Rightarrow> (Inl err, w)
      | Inr name \<Rightarrow>
     (case NewTier (rs_Tier inp) of
        Inl err \<Rightarrow> (Inl err, w)
      | Inr t \<Rightarrow>
     (case NewOwnership (rs_OwningTeam inp) (rs_OnCallRef inp) of
        Inl err \<Rightarrow> (Inl err, w)
      | Inr own \<Rightarrow>
     (case id_New E w of (i, w1) \<Rightarrow>
        (let svc = Register (env_uuid E) (ServiceID i) tenantID name (rs_Description inp) t
               (rs_Repository inp) own now
         in Execute E (register_work E tenantID name svc) w1))))))"

text \<open>The unit of work of \<^verbatim>\<open>mutate\<close>: load, apply, compare-and-set, append the events.\<close>

definition mutate_work ::
    "env \<Rightarrow> service_id \<Rightarrow> int \<Rightarrow> (service \<Rightarrow> go_error + service) \<Rightarrow> service tx" where
  "mutate_work E i expectedVersion app w =
     (case Repository_FindByID E i w of
        (Inl err, w1) \<Rightarrow> (Inl err, w1)
      | (Inr svc, w1) \<Rightarrow>
          (let current = svc_version svc
           in case app svc of
                Inl err \<Rightarrow> (Inl err, w1)
              | Inr svc \<Rightarrow>
                  (case Repository_Update E svc (expectedVersionOr expectedVersion current) w1 of
                     (Inl err, w2) \<Rightarrow> (Inl err, w2)
                   | (Inr _, w2) \<Rightarrow>
                       (case Service_PullEvents svc of (events, svc') \<Rightarrow>
                          (case Outbox_Append E events w2 of
                             (Inl err, w3) \<Rightarrow> (Inl err, w3)
                           | (Inr _, w3) \<Rightarrow> (Inr svc', w3))))))"

definition mutate ::
    "env \<Rightarrow> service_id \<Rightarrow> int \<Rightarrow> (service \<Rightarrow> go_error + service) \<Rightarrow> service tx" where
  "mutate E i expectedVersion app w = Execute E (mutate_work E i expectedVersion app) w"

record change_ownership_input =
  co_ServiceID :: string
  co_OwningTeam :: string
  co_OnCallRef :: string
  co_ExpectedVersion :: int

definition ChangeOwnership :: "env \<Rightarrow> time \<Rightarrow> change_ownership_input \<Rightarrow> service tx" where
  "ChangeOwnership E now inp w =
     (case ServiceIDFromString (env_uuid E) (co_ServiceID inp) of
        Inl err \<Rightarrow> (Inl err, w)
      | Inr i \<Rightarrow>
     (case NewOwnership (co_OwningTeam inp) (co_OnCallRef inp) of
        Inl err \<Rightarrow> (Inl err, w)
      | Inr own \<Rightarrow>
          mutate E i (co_ExpectedVersion inp) (Service_ChangeOwnership (env_uuid E) own now) w))"

record change_lifecycle_input =
  cl_ServiceID :: string
  cl_Lifecycle :: string
  cl_ExpectedVersion :: int

definition ChangeLifecycle :: "env \<Rightarrow> time \<Rightarrow> change_lifecycle_input \<Rightarrow> service tx" where
  "ChangeLifecycle E now inp w =
     (case ServiceIDFromString (env_uuid E) (cl_ServiceID inp) of
        Inl err \<Rightarrow> (Inl err, w)
      | Inr i \<Rightarrow>
     (case ParseLifecycle (cl_Lifecycle inp) of
        Inl err \<Rightarrow> (Inl err, w)
      | Inr lc \<Rightarrow>
          mutate E i (cl_ExpectedVersion inp) (Service_ChangeLifecycle (env_uuid E) lc now) w))"

record retire_service_input =
  re_ServiceID :: string
  re_ExpectedVersion :: int

definition RetireService :: "env \<Rightarrow> time \<Rightarrow> retire_service_input \<Rightarrow> service tx" where
  "RetireService E now inp w =
     (case ServiceIDFromString (env_uuid E) (re_ServiceID inp) of
        Inl err \<Rightarrow> (Inl err, w)
      | Inr i \<Rightarrow>
          mutate E i (re_ExpectedVersion inp) (Service_Retire (env_uuid E) now) w)"

end
