(* ===== verification/Catalog_Store.thy ===== *)
theory Catalog_Store
  imports Catalog_Commands
begin

text \<open>
  What the catalog's transactions do to the tables. \<open>catalog_ok\<close> is the invariant of the
  stored catalog: primary key and tenant/name uniqueness, every row acceptable to the domain
  constructors and to the production rule, and a time-versioned ownership history with
  exactly one open interval per service, equal to the owner in the service's row. The
  lemmas give the effect of each repository method that succeeds; the properties follow
  from them through \<open>Execute_cases\<close>.
\<close>

section \<open>Rows the scanner accepts\<close>

definition service_row_ok :: "catalog_service_row \<Rightarrow> bool" where
  "service_row_ok r \<longleftrightarrow>
     name_ok (ServiceName (cs_name r)) \<and> tier_ok (Tier (cs_tier r)) \<and>
     ownership_ok \<lparr>OwningTeam = cs_owning_team r, OnCallRef = cs_on_call_ref r\<rparr> \<and>
     (\<exists>l. cs_lifecycle r = Lifecycle_string l) \<and>
     (cs_lifecycle r = Lifecycle_string Production \<longrightarrow> cs_on_call_ref r \<noteq> []) \<and>
     in_int64 (cs_version r) \<and>
     timestamptz (cs_created_at r) = cs_created_at r \<and> timestamptz (cs_updated_at r) = cs_updated_at r"

lemma row_of_ok: "service_ok s \<Longrightarrow> service_row_ok (row_of s)"
  by (cases "svc_ownership s")
    (auto simp: service_ok_def service_row_ok_def row_of_def Ownership_hasOnCall_def lc.text_inj
      ownership_ok_def simp del: Lifecycle_string.simps)

lemma scanService_ok:
  assumes "uuid_laws U" and "service_row_ok r"
  obtains s where "scanService U (Some r) = Inr s" and "service_ok s" and "row_of s = r"
    and "svc_events s = []"
proof -
  from assms(2) obtain l where l: "cs_lifecycle r = Lifecycle_string l"
    by (auto simp: service_row_ok_def)
  let ?own = "\<lparr>OwningTeam = cs_owning_team r, OnCallRef = cs_on_call_ref r\<rparr>"
  let ?s = "Reconstitute (ServiceID (cs_id r)) (TenantID (cs_tenant_id r)) (ServiceName (cs_name r))
    (cs_description r) (Tier (cs_tier r)) l (cs_repository_url r) ?own (cs_version r)
    (cs_created_at r) (cs_updated_at r)"
  have ok: "name_ok (ServiceName (cs_name r))" "tier_ok (Tier (cs_tier r))" "ownership_ok ?own"
    using assms(2) by (simp_all add: service_row_ok_def)
  have "scanService U (Some r) = Inr ?s"
    using assms(1) l NewServiceName_again [OF ok(1)] NewTier_again [OF ok(2)]
      NewOwnership_again [OF ok(3)]
    by (simp add: scanService_def ServiceIDFromString_def TenantIDFromString_def)
  moreover have "service_ok ?s"
    using assms(2) l
    by (auto simp: service_ok_def service_row_ok_def Reconstitute_def Ownership_hasOnCall_def)
  moreover have "row_of ?s = r"
    using assms(2) l by (cases r) (simp add: row_of_def Reconstitute_def service_row_ok_def)
  ultimately show ?thesis by (rule that) (simp add: Reconstitute_def)
qed

section \<open>The catalog invariant\<close>

abbreviation open_for :: "uuid \<Rightarrow> ownership_history_row \<Rightarrow> bool" where
  "open_for i h \<equiv> oh_service_id h = i \<and> oh_valid_to h = None"

definition owned_as :: "ownership_history_row list \<Rightarrow> catalog_service_row \<Rightarrow> bool" where
  "owned_as hs r \<longleftrightarrow>
     (\<exists>h. filter (open_for (cs_id r)) hs = [h] \<and> oh_owning_team h = cs_owning_team r \<and>
        oh_on_call_ref h = cs_on_call_ref r)"

definition catalog_ok :: "db \<Rightarrow> bool" where
  "catalog_ok d \<longleftrightarrow>
     distinct (map cs_id (catalog_services d)) \<and>
     distinct (map (\<lambda>r. (cs_tenant_id r, cs_name r)) (catalog_services d)) \<and>
     (\<forall>r \<in> set (catalog_services d). service_row_ok r \<and> owned_as (catalog_ownership_history d) r) \<and>
     (\<forall>h \<in> set (catalog_ownership_history d). oh_service_id h \<in> cs_id ` set (catalog_services d))"

lemma catalog_okD:
  assumes "catalog_ok d"
  shows "distinct (map cs_id (catalog_services d))"
    and "distinct (map (\<lambda>r. (cs_tenant_id r, cs_name r)) (catalog_services d))"
    and "r \<in> set (catalog_services d) \<Longrightarrow> service_row_ok r"
    and "r \<in> set (catalog_services d) \<Longrightarrow> owned_as (catalog_ownership_history d) r"
    and "h \<in> set (catalog_ownership_history d) \<Longrightarrow> oh_service_id h \<in> cs_id ` set (catalog_services d)"
    and "r \<in> set (catalog_services d) \<Longrightarrow> q \<in> set (catalog_services d) \<Longrightarrow> cs_id r = cs_id q \<Longrightarrow> r = q"
  using assms by (simp_all add: catalog_ok_def distinct_map inj_on_def)

lemma catalog_ok_empty [simp]: "catalog_ok empty_db"
  by (simp add: catalog_ok_def empty_db_def)

text \<open>\<open>catalog_ok\<close> looks at two tables only.\<close>

lemma catalog_ok_frame:
  "catalog_services d' = catalog_services d \<Longrightarrow>
   catalog_ownership_history d' = catalog_ownership_history d \<Longrightarrow> catalog_ok d' = catalog_ok d"
  by (simp add: catalog_ok_def)

section \<open>Lookups\<close>

lemma FindByID_db [simp]: "w_db (snd (Repository_FindByID E i w)) = w_db w"
  by (auto simp: Repository_FindByID_def sql_def Let_def split: option.splits)

lemma FindByTenantAndName_db [simp]: "w_db (snd (Repository_FindByTenantAndName E t n w)) = w_db w"
  by (auto simp: Repository_FindByTenantAndName_def sql_def Let_def split: option.splits)

lemma FindByID_Inr:
  assumes "Repository_FindByID E i w = (Inr s, w')" and "catalog_ok (w_db w)"
    and "uuid_laws (env_uuid E)"
  obtains r where "r \<in> set (catalog_services (w_db w))" and "cs_id r = ServiceID_UUID i"
    and "row_of s = r" and "service_ok s" and "svc_events s = []" and "svc_id s = i"
proof -
  from assms(1) obtain r where r: "find (\<lambda>r. cs_id r = ServiceID_UUID i) (catalog_services (w_db w)) = Some r"
    and sc: "scanService (env_uuid E) (Some r) = Inr s"
    by (auto simp: Repository_FindByID_def scanService_def dest!: sql_Inr(1)
        split: prod.splits sum.splits option.splits)
  from r have rin: "r \<in> set (catalog_services (w_db w))" and id: "cs_id r = ServiceID_UUID i"
    by (auto dest: find_SomeD)
  with assms(2) have "service_row_ok r" by (simp add: catalog_ok_def)
  with assms(3) sc obtain "service_ok s" "row_of s = r" "svc_events s = []"
    by (metis scanService_ok sum.inject(2))
  moreover from this id have "svc_id s = i"
    by (metis catalog_service_row.select_convs(1) row_of_def service_id.expand)
  ultimately show ?thesis using rin id that by blast
qed

section \<open>What a successful repository method wrote\<close>

definition open_interval :: "uuid \<Rightarrow> service \<Rightarrow> time \<Rightarrow> ownership_history_row" where
  "open_interval i s at =
     \<lparr>oh_id = i, oh_service_id = ServiceID_UUID (svc_id s),
      oh_owning_team = OwningTeam (svc_ownership s), oh_on_call_ref = OnCallRef (svc_ownership s),
      oh_valid_from = timestamptz at, oh_valid_to = None\<rparr>"

definition new_service_row :: "db \<Rightarrow> catalog_service_row \<Rightarrow> bool" where
  "new_service_row d r \<longleftrightarrow>
     (\<forall>q \<in> set (catalog_services d). cs_id q \<noteq> cs_id r \<and>
        (cs_tenant_id q, cs_name q) \<noteq> (cs_tenant_id r, cs_name r))"

lemma Repository_Insert_Inr:
  assumes "Repository_Insert E s w = (Inr u, w')"
  shows "w_db w' = (w_db w)\<lparr>catalog_services := catalog_services (w_db w) @ [row_of s],
           catalog_ownership_history := catalog_ownership_history (w_db w) @
             [open_interval (env_id E (w_ids w)) s (svc_createdAt s)]\<rparr>"
    and "new_service_row (w_db w) (row_of s)"
    and "w_txnow w' = w_txnow w" and "w_ids w' = Suc (w_ids w)"
proof -
  let ?h = "open_interval (env_id E (w_ids w)) s (svc_createdAt s)"
  from assms obtain w1 where 1: "sql E (insert_catalog_service (row_of s)) w = (Inr (), w1)"
    and 2: "sql E (insert_ownership_history ?h) (w1\<lparr>w_ids := Suc (w_ids w)\<rparr>) = (Inr (), w')"
    by (auto simp: Repository_Insert_def id_New_def open_interval_def sql_Inr(2)
        split: prod.splits sum.splits)
  show "w_db w' = (w_db w)\<lparr>catalog_services := catalog_services (w_db w) @ [row_of s],
      catalog_ownership_history := catalog_ownership_history (w_db w) @ [?h]\<rparr>"
    and "new_service_row (w_db w) (row_of s)" and "w_txnow w' = w_txnow w"
    and "w_ids w' = Suc (w_ids w)"
    using sql_Inr(1) [OF 1, symmetric] sql_Inr(1) [OF 2, symmetric] sql_Inr(2-) [OF 1]
      sql_Inr(2-) [OF 2]
    by (auto simp: insert_catalog_service_def insert_ownership_history_def new_service_row_def
        list_ex_iff split: if_splits)
qed

definition outbox_row_of :: "env \<Rightarrow> time \<Rightarrow> uuid \<Rightarrow> service_event \<Rightarrow> outbox_row" where
  "outbox_row_of E now i e =
     \<lparr>ob_id = i, ob_aggregate_id = the (uuid_Parse (env_uuid E) (AggregateID e)),
      ob_event_type = EventType e, ob_payload = envelope e,
      ob_occurred_at = timestamptz (OccurredAt e), ob_published_at = None,
      ob_created_at = timestamptz now\<rparr>"

definition outbox_rows_of :: "env \<Rightarrow> time \<Rightarrow> nat \<Rightarrow> service_event list \<Rightarrow> outbox_row list" where
  "outbox_rows_of E now k es = map2 (\<lambda>n. outbox_row_of E now (env_id E n)) [k..<k + length es] es"

lemma outbox_rows_of_simps [simp]:
  "outbox_rows_of E now k [] = []"
  "outbox_rows_of E now k (e # es) =
     outbox_row_of E now (env_id E k) e # outbox_rows_of E now (Suc k) es"
  by (simp_all add: outbox_rows_of_def upt_rec)

lemma Outbox_Append_Inr:
  assumes "Outbox_Append E es w = (Inr u, w')"
  shows "w_db w' = (w_db w)\<lparr>outbox_events := outbox_events (w_db w) @
           outbox_rows_of E (w_txnow w) (w_ids w) es\<rparr> \<and> w_ids w' = w_ids w + length es"
  using assms
proof (induction es arbitrary: w)
  case Nil
  then show ?case by simp
next
  case (Cons e es)
  from Cons.prems obtain w2 where
    1: "sql E (insert_outbox_event (env_id E (w_ids w)) (uuid_Parse (env_uuid E) (AggregateID e))
          (EventType e) (envelope e) (OccurredAt e) (w_txnow w)) (w\<lparr>w_ids := Suc (w_ids w)\<rparr>)
        = (Inr (), w2)"
    and 2: "Outbox_Append E es w2 = (Inr u, w')"
    by (auto simp: id_New_def split: prod.splits sum.splits)
  show ?case
    using Cons.IH [OF 2] sql_Inr [OF 1]
    by (auto elim!: insert_outbox_event_Inr simp: outbox_row_of_def)
qed

lemma Outbox_Append_ids:
  assumes "Outbox_Append E es w = (Inr u, w')" and "distinct (map ob_id (outbox_events (w_db w)))"
  shows "distinct (map ob_id (outbox_events (w_db w')))"
  using assms
proof (induction es arbitrary: w)
  case (Cons e es)
  from Cons.prems(1) obtain w2 where
    1: "sql E (insert_outbox_event (env_id E (w_ids w)) (uuid_Parse (env_uuid E) (AggregateID e))
          (EventType e) (envelope e) (OccurredAt e) (w_txnow w)) (w\<lparr>w_ids := Suc (w_ids w)\<rparr>)
        = (Inr (), w2)"
    and 2: "Outbox_Append E es w2 = (Inr u, w')"
    by (auto simp: id_New_def split: prod.splits sum.splits)
  from sql_Inr [OF 1] Cons.prems(2) have "distinct (map ob_id (outbox_events (w_db w2)))"
    by (auto elim!: insert_outbox_event_Inr)
  with 2 show ?case by (rule Cons.IH)
qed simp

definition owned_by :: "service \<Rightarrow> ownership_history_row \<Rightarrow> bool" where
  "owned_by s h \<longleftrightarrow> oh_owning_team h = OwningTeam (svc_ownership s) \<and>
     oh_on_call_ref h = OnCallRef (svc_ownership s)"

definition disown :: "service \<Rightarrow> ownership_history_row list \<Rightarrow> ownership_history_row list" where
  "disown s hs =
     map (\<lambda>h. if open_for (ServiceID_UUID (svc_id s)) h \<and> \<not> owned_by s h
              then h\<lparr>oh_valid_to := Some (timestamptz (svc_updatedAt s))\<rparr> else h) hs"

definition reown :: "uuid \<Rightarrow> service \<Rightarrow> ownership_history_row list \<Rightarrow> ownership_history_row list" where
  "reown i s hs =
     (if list_ex (\<lambda>h. open_for (ServiceID_UUID (svc_id s)) h \<and> owned_by s h) (disown s hs)
      then disown s hs else disown s hs @ [open_interval i s (svc_updatedAt s)])"

lemma Repository_recordOwnership_Inr:
  assumes "Repository_recordOwnership E s w = (Inr u, w')"
  shows "w_db w' = (w_db w)\<lparr>catalog_ownership_history :=
           reown (env_id E (w_ids w)) s (catalog_ownership_history (w_db w))\<rparr>"
    and "w_txnow w' = w_txnow w" and "w_ids w' = Suc (w_ids w)"
proof -
  let ?h = "open_interval (env_id E (w_ids w)) s (svc_updatedAt s)"
  from assms obtain w1 where
    1: "sql E (close_ownership_interval (ServiceID_UUID (svc_id s)) (svc_updatedAt s)
          (OwningTeam (svc_ownership s)) (OnCallRef (svc_ownership s))) w = (Inr (), w1)"
    and 2: "sql E (open_ownership_interval ?h) (w1\<lparr>w_ids := Suc (w_ids w)\<rparr>) = (Inr (), w')"
    by (auto simp: Repository_recordOwnership_def id_New_def open_interval_def sql_Inr(2)
        split: prod.splits sum.splits)
  have d1: "w_db w1 = (w_db w)\<lparr>catalog_ownership_history :=
      disown s (catalog_ownership_history (w_db w))\<rparr>"
    using sql_Inr(1) [OF 1, symmetric]
    by (simp add: close_ownership_interval_def disown_def owned_by_def split: if_splits)
  show "w_db w' = (w_db w)\<lparr>catalog_ownership_history :=
      reown (env_id E (w_ids w)) s (catalog_ownership_history (w_db w))\<rparr>"
    using sql_Inr(1) [OF 2, symmetric] d1
    by (simp add: open_ownership_interval_def insert_ownership_history_def reown_def
        owned_by_def open_interval_def split: if_splits)
  show "w_txnow w' = w_txnow w" and "w_ids w' = Suc (w_ids w)"
    using sql_Inr(2-) [OF 1] sql_Inr(2-) [OF 2] by simp_all
qed

lemma Repository_Update_Inr:
  assumes "Repository_Update E s v w = (Inr u, w')"
  shows "w_db w' = (w_db w)\<lparr>
           catalog_services := map (\<lambda>q. if cs_id q = ServiceID_UUID (svc_id s) \<and> cs_version q = v
               then set_service_columns (row_of s) q else q) (catalog_services (w_db w)),
           catalog_ownership_history :=
             reown (env_id E (w_ids w)) s (catalog_ownership_history (w_db w))\<rparr>"
    and "\<exists>q \<in> set (catalog_services (w_db w)). cs_id q = ServiceID_UUID (svc_id s) \<and> cs_version q = v"
    and "w_txnow w' = w_txnow w" and "w_ids w' = Suc (w_ids w)"
proof -
  from assms obtain n w1 where 1: "sql E (update_catalog_service (row_of s) v) w = (Inr n, w1)"
    and n: "n \<noteq> 0" and 2: "Repository_recordOwnership E s w1 = (Inr u, w')"
    by (auto simp: Repository_Update_def split: prod.splits sum.splits if_splits)
  have id: "cs_id (row_of s) = ServiceID_UUID (svc_id s)" by (simp add: row_of_def)
  have d1: "w_db w1 = (w_db w)\<lparr>catalog_services :=
      map (\<lambda>q. if cs_id q = ServiceID_UUID (svc_id s) \<and> cs_version q = v
               then set_service_columns (row_of s) q else q) (catalog_services (w_db w))\<rparr>"
    and "n = length (filter (\<lambda>q. cs_id q = ServiceID_UUID (svc_id s) \<and> cs_version q = v)
               (catalog_services (w_db w)))"
    using sql_Inr(1) [OF 1, symmetric] id
    by (auto simp: update_catalog_service_def Let_def split: if_splits)
  with n show "\<exists>q \<in> set (catalog_services (w_db w)). cs_id q = ServiceID_UUID (svc_id s) \<and> cs_version q = v"
    by (auto simp: filter_empty_conv)
  show "w_db w' = (w_db w)\<lparr>
           catalog_services := map (\<lambda>q. if cs_id q = ServiceID_UUID (svc_id s) \<and> cs_version q = v
               then set_service_columns (row_of s) q else q) (catalog_services (w_db w)),
           catalog_ownership_history :=
             reown (env_id E (w_ids w)) s (catalog_ownership_history (w_db w))\<rparr>"
    and "w_txnow w' = w_txnow w" and "w_ids w' = Suc (w_ids w)"
    using Repository_recordOwnership_Inr [OF 2] d1 sql_Inr(2-) [OF 1] by simp_all
qed

section \<open>The invariant is kept\<close>

lemma catalog_ok_insert:
  assumes "catalog_ok d" and "service_ok s" and "new_service_row d (row_of s)"
  shows "catalog_ok (d\<lparr>catalog_services := catalog_services d @ [row_of s],
    catalog_ownership_history := catalog_ownership_history d @ [open_interval i s at]\<rparr>)"
proof -
  let ?j = "ServiceID_UUID (svc_id s)"
  have j: "cs_id (row_of s) = ?j" by (simp add: row_of_def)
  have none: "filter (open_for ?j) (catalog_ownership_history d) = []"
    using assms(1,3) j by (auto simp: catalog_ok_def new_service_row_def filter_empty_conv)
  have "owned_as (catalog_ownership_history d @ [open_interval i s at]) (row_of s)"
    using none by (simp add: owned_as_def open_interval_def row_of_def)
  moreover have "owned_as (catalog_ownership_history d @ [open_interval i s at]) q"
    if "q \<in> set (catalog_services d)" for q
    using assms(1,3) that j by (auto simp: owned_as_def open_interval_def new_service_row_def catalog_ok_def)
  ultimately show ?thesis
    using assms row_of_ok [OF assms(2)]
    by (force simp: catalog_ok_def new_service_row_def open_interval_def row_of_def)
qed

text \<open>\<open>reown\<close> leaves one open interval, the new owner's; other services keep theirs.\<close>

lemma filter_disown_other:
  "j \<noteq> ServiceID_UUID (svc_id s) \<Longrightarrow> filter (open_for j) (disown s hs) = filter (open_for j) hs"
  by (induction hs) (auto simp: disown_def)

lemma filter_disown_same:
  "filter (open_for (ServiceID_UUID (svc_id s))) (disown s hs) =
     filter (owned_by s) (filter (open_for (ServiceID_UUID (svc_id s))) hs)"
  by (induction hs) (auto simp: disown_def)

lemma reown_same:
  assumes "filter (open_for (ServiceID_UUID (svc_id s))) hs = [h]"
  shows "\<exists>g. filter (open_for (ServiceID_UUID (svc_id s))) (reown i s hs) = [g] \<and> owned_by s g"
proof (cases "owned_by s h")
  case True
  with assms have f: "filter (open_for (ServiceID_UUID (svc_id s))) (disown s hs) = [h]"
    by (simp add: filter_disown_same)
  then have "h \<in> set (disown s hs) \<and> open_for (ServiceID_UUID (svc_id s)) h"
    by (auto simp: filter_eq_Cons_iff)
  with True have "list_ex (\<lambda>h. open_for (ServiceID_UUID (svc_id s)) h \<and> owned_by s h) (disown s hs)"
    by (auto simp: list_ex_iff)
  with True f show ?thesis by (simp add: reown_def)
next
  case False
  with assms have f: "filter (open_for (ServiceID_UUID (svc_id s))) (disown s hs) = []"
    by (simp add: filter_disown_same)
  then have "\<not> list_ex (\<lambda>h. open_for (ServiceID_UUID (svc_id s)) h \<and> owned_by s h) (disown s hs)"
    by (auto simp: list_ex_iff filter_empty_conv)
  with f show ?thesis by (simp add: reown_def open_interval_def owned_by_def)
qed

lemma reown_other:
  "j \<noteq> ServiceID_UUID (svc_id s) \<Longrightarrow> filter (open_for j) (reown i s hs) = filter (open_for j) hs"
  by (simp add: reown_def filter_disown_other open_interval_def)

lemma reown_services:
  "oh_service_id ` set (reown i s hs) \<subseteq> insert (ServiceID_UUID (svc_id s)) (oh_service_id ` set hs)"
  by (auto simp: reown_def disown_def open_interval_def split: if_splits)

lemma catalog_ok_update:
  assumes ok: "catalog_ok d" and s: "service_ok s"
    and hit: "\<exists>q \<in> set (catalog_services d). cs_id q = ServiceID_UUID (svc_id s) \<and> cs_version q = v"
  shows "catalog_ok (d\<lparr>catalog_services :=
      map (\<lambda>q. if cs_id q = ServiceID_UUID (svc_id s) \<and> cs_version q = v
               then set_service_columns (row_of s) q else q) (catalog_services d),
      catalog_ownership_history := reown i s (catalog_ownership_history d)\<rparr>)"
    (is "catalog_ok (d\<lparr>catalog_services := map ?f _, catalog_ownership_history := ?H\<rparr>)")
proof -
  let ?S = "catalog_services d" and ?j = "ServiceID_UUID (svc_id s)"
  from hit obtain q0 where q0: "q0 \<in> set ?S" "cs_id q0 = ?j" "cs_version q0 = v" by blast
  define f where "f = ?f"
  have f: "cs_id (f q) = cs_id q" "cs_tenant_id (f q) = cs_tenant_id q" "cs_name (f q) = cs_name q"
    for q by (simp_all add: set_service_columns_def f_def)
  obtain h where h: "filter (open_for ?j) (catalog_ownership_history d) = [h]"
    using catalog_okD(4) [OF ok q0(1)] q0(2) by (auto simp: owned_as_def)
  have "service_row_ok (f q) \<and> owned_as ?H (f q)" if q: "q \<in> set ?S" for q
  proof (cases "cs_id q = ?j")
    case True
    with q q0 have "q = q0" by (auto intro: catalog_okD(6) [OF ok])
    with q0 have q': "f q = set_service_columns (row_of s) q" by (simp add: f_def)
    from row_of_ok [OF s] catalog_okD(3) [OF ok q] have "service_row_ok (f q)"
      by (simp add: q' service_row_ok_def set_service_columns_def)
    then show ?thesis
      using reown_same [OF h, of i] True
      by (auto simp: q' owned_as_def set_service_columns_def owned_by_def row_of_def)
  next
    case False
    with catalog_okD(3,4) [OF ok q] show ?thesis by (simp add: f_def owned_as_def reown_other)
  qed
  moreover have "oh_service_id g \<in> cs_id ` set ?S" if "g \<in> set ?H" for g
  proof -
    from that reown_services [of i s "catalog_ownership_history d"]
    have "oh_service_id g \<in> insert ?j (oh_service_id ` set (catalog_ownership_history d))" by blast
    moreover have "?j \<in> cs_id ` set ?S" using q0(1,2) by (metis imageI)
    ultimately show ?thesis using catalog_okD(5) [OF ok] by auto
  qed
  ultimately show ?thesis
    using catalog_okD(1,2) [OF ok] unfolding f_def [symmetric]
    by (simp add: catalog_ok_def comp_def f image_image)
qed

section \<open>Units of work\<close>

lemma register_work_Inr:
  assumes "register_work E tenantID name svc w = (Inr a, w')"
  shows "w_db w' = (w_db w)\<lparr>catalog_services := catalog_services (w_db w) @ [row_of svc],
           catalog_ownership_history := catalog_ownership_history (w_db w) @
             [open_interval (env_id E (w_ids w)) svc (svc_createdAt svc)],
           outbox_events := outbox_events (w_db w) @
             outbox_rows_of E (w_txnow w) (Suc (w_ids w)) (svc_events svc)\<rparr>"
    and "new_service_row (w_db w) (row_of svc)" and "a = svc\<lparr>svc_events := []\<rparr>"
    and "distinct (map ob_id (outbox_events (w_db w))) \<Longrightarrow> distinct (map ob_id (outbox_events (w_db w')))"
proof -
  from assms obtain e w1 w2 where f: "Repository_FindByTenantAndName E tenantID name w = (Inl e, w1)"
    and i: "Repository_Insert E svc w1 = (Inr (), w2)"
    and o: "Outbox_Append E (svc_events svc) w2 = (Inr (), w')" and "a = svc\<lparr>svc_events := []\<rparr>"
    by (auto simp: register_work_def Service_PullEvents_def split: prod.splits sum.splits if_splits)
  from f have w1: "w_db w1 = w_db w" "w_ids w1 = w_ids w" "w_txnow w1 = w_txnow w"
    by (auto simp: Repository_FindByTenantAndName_def sql_def Let_def split: option.splits)
  show "w_db w' = (w_db w)\<lparr>catalog_services := catalog_services (w_db w) @ [row_of svc],
           catalog_ownership_history := catalog_ownership_history (w_db w) @
             [open_interval (env_id E (w_ids w)) svc (svc_createdAt svc)],
           outbox_events := outbox_events (w_db w) @
             outbox_rows_of E (w_txnow w) (Suc (w_ids w)) (svc_events svc)\<rparr>"
    and "new_service_row (w_db w) (row_of svc)"
    using Repository_Insert_Inr [OF i] Outbox_Append_Inr [OF o] w1 by simp_all
  show "a = svc\<lparr>svc_events := []\<rparr>" by fact
  show "distinct (map ob_id (outbox_events (w_db w))) \<Longrightarrow> distinct (map ob_id (outbox_events (w_db w')))"
    using Outbox_Append_ids [OF o] Repository_Insert_Inr(1) [OF i] w1 by simp
qed

text \<open>The tables after a compare-and-set of \<open>s\<close> at version \<open>v\<close>.\<close>

definition cas_db :: "uuid \<Rightarrow> service \<Rightarrow> int \<Rightarrow> outbox_row list \<Rightarrow> db \<Rightarrow> db" where
  "cas_db i s v new d = d\<lparr>
     catalog_services := map (\<lambda>q. if cs_id q = ServiceID_UUID (svc_id s) \<and> cs_version q = v
         then set_service_columns (row_of s) q else q) (catalog_services d),
     catalog_ownership_history := reown i s (catalog_ownership_history d),
     outbox_events := outbox_events d @ new\<rparr>"

lemma cas_db_simps [simp]:
  "outbox_events (cas_db i s v new d) = outbox_events d @ new"
  "tenants (cas_db i s v new d) = tenants d"
  "idempotency_keys (cas_db i s v new d) = idempotency_keys d"
  by (simp_all add: cas_db_def)

lemma catalog_ok_cas:
  assumes "catalog_ok d" and "service_ok s"
    and "\<exists>q \<in> set (catalog_services d). cs_id q = ServiceID_UUID (svc_id s) \<and> cs_version q = v"
  shows "catalog_ok (cas_db i s v new d)"
  using catalog_ok_update [OF assms, of i] by (simp add: cas_db_def catalog_ok_def)

lemma mutate_work_Inr:
  assumes "mutate_work E i expected app w = (Inr a, w')"
  obtains s w1 svc where "Repository_FindByID E i w = (Inr s, w1)" and "app s = Inr svc"
    and "a = svc\<lparr>svc_events := []\<rparr>"
    and "w_db w' = cas_db (env_id E (w_ids w)) svc (expectedVersionOr expected (svc_version s))
           (outbox_rows_of E (w_txnow w) (Suc (w_ids w)) (svc_events svc)) (w_db w)"
    and "\<exists>q \<in> set (catalog_services (w_db w)). cs_id q = ServiceID_UUID (svc_id svc) \<and>
           cs_version q = expectedVersionOr expected (svc_version s)"
    and "distinct (map ob_id (outbox_events (w_db w))) \<Longrightarrow> distinct (map ob_id (outbox_events (w_db w')))"
proof -
  from assms obtain s w1 svc w2 where f: "Repository_FindByID E i w = (Inr s, w1)"
    and app: "app s = Inr svc"
    and u: "Repository_Update E svc (expectedVersionOr expected (svc_version s)) w1 = (Inr (), w2)"
    and o: "Outbox_Append E (svc_events svc) w2 = (Inr (), w')" and a: "a = svc\<lparr>svc_events := []\<rparr>"
    by (auto simp: mutate_work_def Service_PullEvents_def Let_def split: prod.splits sum.splits)
  from f have w1: "w_db w1 = w_db w" "w_ids w1 = w_ids w" "w_txnow w1 = w_txnow w"
    by (auto simp: Repository_FindByID_def sql_def Let_def split: option.splits)
  show thesis
    using that [OF f app a] Repository_Update_Inr [OF u] Outbox_Append_Inr [OF o]
      Outbox_Append_ids [OF o] w1
    by (simp add: cas_db_def)
qed

section \<open>Commands\<close>

lemma RegisterService_cases:
  assumes "RegisterService E now inp w = (r, w')"
  obtains (unchanged) e where "r = Inl e" and "w_db w' = w_db w"
  | (registered) tenantID name t own svc w1 w2 where
      "TenantIDFromString (env_uuid E) (rs_TenantID inp) = Inr tenantID"
      and "NewServiceName (rs_Name inp) = Inr name" and "NewTier (rs_Tier inp) = Inr t"
      and "NewOwnership (rs_OwningTeam inp) (rs_OnCallRef inp) = Inr own"
      and "svc = Register (env_uuid E) (ServiceID (env_id E (w_ids w))) tenantID name
             (rs_Description inp) t (rs_Repository inp) own now"
      and "w_db w1 = w_db w" and "register_work E tenantID name svc w1 = (Inr (svc\<lparr>svc_events := []\<rparr>), w2)"
      and "w_db w' = w_db w2" and "w_ids w1 = Suc (w_ids w)"
      and "r = Inr (svc\<lparr>svc_events := []\<rparr>) \<or> (\<exists>e. r = Inl (Errorf ''commit tx'' e))"
proof (cases "\<exists>tenantID name t own. TenantIDFromString (env_uuid E) (rs_TenantID inp) = Inr tenantID \<and>
     NewServiceName (rs_Name inp) = Inr name \<and> NewTier (rs_Tier inp) = Inr t \<and>
     NewOwnership (rs_OwningTeam inp) (rs_OnCallRef inp) = Inr own")
  case False
  then have "(\<exists>e. r = Inl e) \<and> w_db w' = w_db w"
    using assms by (auto simp: RegisterService_def split: sum.splits)
  then show ?thesis using unchanged by blast
next
  case True
  then obtain tenantID name t own where v:
      "TenantIDFromString (env_uuid E) (rs_TenantID inp) = Inr tenantID"
      "NewServiceName (rs_Name inp) = Inr name" "NewTier (rs_Tier inp) = Inr t"
      "NewOwnership (rs_OwningTeam inp) (rs_OnCallRef inp) = Inr own"
    by blast
  define svc where "svc = Register (env_uuid E) (ServiceID (env_id E (w_ids w))) tenantID name
    (rs_Description inp) t (rs_Repository inp) own now"
  from v assms have "Execute E (register_work E tenantID name svc) (w\<lparr>w_ids := Suc (w_ids w)\<rparr>) = (r, w')"
    by (simp add: RegisterService_def id_New_def svc_def)
  then show ?thesis
  proof (cases rule: Execute_cases)
    case (unchanged e)
    then show ?thesis by (intro that(1)) simp_all
  next
    case (applied w1 a w2)
    then show ?thesis
      using registered [OF v svc_def, of w1 w2] register_work_Inr(3) by fastforce
  qed
qed

lemma mutate_cases:
  assumes "mutate E i expected app w = (r, w')"
  obtains (unchanged) e where "r = Inl e" and "w_db w' = w_db w"
  | (mutated) w1 a w2 where "w_db w1 = w_db w" and "w_ids w1 = w_ids w"
      and "mutate_work E i expected app w1 = (Inr a, w2)" and "w_db w' = w_db w2"
      and "r = Inr a \<or> (\<exists>e. r = Inl (Errorf ''commit tx'' e))"
  using assms unfolding mutate_def by (cases rule: Execute_cases) (auto intro: that)

text \<open>The commands as requests, so that histories of them can be quantified over.\<close>

datatype catalog_request =
    RegisterRequest register_service_input
  | OwnershipRequest change_ownership_input
  | LifecycleRequest change_lifecycle_input
  | RetireRequest retire_service_input

primrec catalog_command :: "env \<Rightarrow> time \<Rightarrow> catalog_request \<Rightarrow> service tx" where
  "catalog_command E now (RegisterRequest inp) = RegisterService E now inp"
| "catalog_command E now (OwnershipRequest inp) = ChangeOwnership E now inp"
| "catalog_command E now (LifecycleRequest inp) = ChangeLifecycle E now inp"
| "catalog_command E now (RetireRequest inp) = RetireService E now inp"

text \<open>
  A history of requests. Each has its own environment: its own faults, clocks and
  identifiers.
\<close>

fun catalog_history :: "(env \<times> time \<times> catalog_request) list \<Rightarrow> world \<Rightarrow> world" where
  "catalog_history [] w = w"
| "catalog_history ((E, now, q) # qs) w = catalog_history qs (snd (catalog_command E now q w))"

text \<open>Every request but registration is a \<^verbatim>\<open>mutate\<close> of one aggregate operation.\<close>

lemma catalog_command_cases:
  assumes "catalog_command E now q w = (r, w')"
  obtains (register) inp where "q = RegisterRequest inp" and "RegisterService E now inp w = (r, w')"
  | (refused) e where "r = Inl e" and "w' = w"
  | (mutation) i v x where "op_ok x" and "mutate E i v (\<lambda>s. service_step (env_uuid E) s x) w = (r, w')"
proof (cases q)
  case (RegisterRequest inp)
  with assms register show ?thesis by simp
next
  case (OwnershipRequest inp)
  with assms refused mutation [of "OpChangeOwnership own now" for own] show ?thesis
    by (auto simp: ChangeOwnership_def dest: NewOwnership_ok split: sum.splits)
next
  case (LifecycleRequest inp)
  with assms refused mutation [of "OpChangeLifecycle l now" for l] show ?thesis
    by (auto simp: ChangeLifecycle_def split: sum.splits)
next
  case (RetireRequest inp)
  with assms refused mutation [of "OpRetire now"] show ?thesis
    by (auto simp: RetireService_def split: sum.splits)
qed

text \<open>
  What a command does to the tables: nothing, with an error; or it adds the registered
  service with its ownership interval and its event; or it replaces the stored row of the
  service it loaded, at the version it loaded. In the last two cases the answer is the
  service, or the error of a commit whose answer was lost.
\<close>

lemma catalog_command_effect:
  assumes "catalog_command E now q w = (r, w')" and ok: "catalog_ok (w_db w)"
    and U: "uuid_laws (env_uuid E)"
  obtains (unchanged) e where "r = Inl e" and "w_db w' = w_db w"
  | (registered) svc tenantID name d t u own i k n where "service_ok svc"
      and "svc = Register (env_uuid E) i tenantID name d t u own now"
      and "new_service_row (w_db w) (row_of svc)"
      and "w_db w' = (w_db w)\<lparr>catalog_services := catalog_services (w_db w) @ [row_of svc],
           catalog_ownership_history := catalog_ownership_history (w_db w) @
             [open_interval (env_id E k) svc (svc_createdAt svc)],
           outbox_events := outbox_events (w_db w) @ outbox_rows_of E n (Suc k) (svc_events svc)\<rparr>"
      and "r = Inr (svc\<lparr>svc_events := []\<rparr>) \<or> (\<exists>e. r = Inl (Errorf ''commit tx'' e))"
  | (changed) s x svc k n where "op_ok x" and "service_step (env_uuid E) s x = Inr svc"
      and "service_ok s" and "svc_events s = []" and "row_of s \<in> set (catalog_services (w_db w))"
      and "w_db w' = cas_db (env_id E k) svc (svc_version s)
             (outbox_rows_of E n (Suc k) (svc_events svc)) (w_db w)"
      and "r = Inr (svc\<lparr>svc_events := []\<rparr>) \<or> (\<exists>e. r = Inl (Errorf ''commit tx'' e))"
  using assms(1)
proof (cases rule: catalog_command_cases)
  case (register inp)
  from register(2) show ?thesis
  proof (cases rule: RegisterService_cases)
    case (unchanged e)
    then show ?thesis by (rule that(1))
  next
    case (registered tenantID name t own svc w1 w2)
    then have "service_ok svc"
      by (auto intro!: Register_ok simp: NewTier_ok dest: NewServiceName_ok NewOwnership_ok)
    then show ?thesis
      using that(2) [of svc, OF _ registered(5)] register_work_Inr(1,2) [OF registered(7)]
        registered(6,8,10) by simp
  qed
next
  case (refused e)
  then show ?thesis by (intro that(1)) simp_all
next
  case (mutation i v x)
  from mutation(2) show ?thesis
  proof (cases rule: mutate_cases)
    case (unchanged e)
    then show ?thesis by (rule that(1))
  next
    case (mutated w1 a w2)
    from mutated(3) obtain s w0 svc where f: "Repository_FindByID E i w1 = (Inr s, w0)"
      and x: "service_step (env_uuid E) s x = Inr svc" and a: "a = svc\<lparr>svc_events := []\<rparr>"
      and d: "w_db w2 = cas_db (env_id E (w_ids w1)) svc (expectedVersionOr v (svc_version s))
             (outbox_rows_of E (w_txnow w1) (Suc (w_ids w1)) (svc_events svc)) (w_db w1)"
      and "\<exists>q \<in> set (catalog_services (w_db w1)). cs_id q = ServiceID_UUID (svc_id svc) \<and>
             cs_version q = expectedVersionOr v (svc_version s)"
      by (rule mutate_work_Inr)
    then obtain q where q: "q \<in> set (catalog_services (w_db w))" "cs_id q = ServiceID_UUID (svc_id svc)"
        "cs_version q = expectedVersionOr v (svc_version s)" using mutated(1) by auto
    from f ok mutated(1) U have s: "service_ok s" "svc_events s = []"
      "row_of s \<in> set (catalog_services (w_db w))" by (auto elim: FindByID_Inr)
    have "q = row_of s"
      using catalog_okD(6) [OF ok q(1) s(3)] q(2) service_step_frame(1) [OF x]
      by (simp add: row_of_def)
    with q have "expectedVersionOr v (svc_version s) = svc_version s" by (simp add: row_of_def)
    with d mutated show ?thesis by (intro that(3) [OF mutation(1) x s]) (simp_all add: a)
  qed
qed

lemma cas_services:
  assumes ok: "catalog_ok d" and s: "row_of s \<in> set (catalog_services d)"
    and x: "service_step U s x = Inr svc"
  shows "catalog_services (cas_db i svc (svc_version s) new d) =
    map (\<lambda>q. if cs_id q = cs_id (row_of s) then row_of svc else q) (catalog_services d)"
proof -
  have "q = row_of s" if "q \<in> set (catalog_services d)" "cs_id q = cs_id (row_of s)" for q
    using catalog_okD(6) [OF ok that(1) s that(2)] .
  moreover have "set_service_columns (row_of svc) (row_of s) = row_of svc"
    using service_step_frame [OF x] by (simp add: set_service_columns_def row_of_def)
  moreover have "cs_id (row_of s) = ServiceID_UUID (svc_id svc)" "cs_version (row_of s) = svc_version s"
    using service_step_frame [OF x] by (simp_all add: row_of_def)
  ultimately show ?thesis by (auto simp: cas_db_def)
qed

lemma catalog_command_ok [forge_inv]:
  assumes "catalog_command E now q w = (r, w')" and ok: "catalog_ok (w_db w)"
    and "uuid_laws (env_uuid E)"
  shows "catalog_ok (w_db w')"
  using assms
proof (cases rule: catalog_command_effect)
  case (unchanged e)
  with ok show ?thesis by simp
next
  case (registered svc tenantID name d t u own i k n)
  then show ?thesis
    using catalog_ok_insert [OF ok registered(1,3)] by (simp add: catalog_ok_def)
next
  case (changed s x svc k n)
  have "svc_id svc = svc_id s" using changed(2) by (rule service_step_frame)
  then have "cs_id (row_of s) = ServiceID_UUID (svc_id svc) \<and> cs_version (row_of s) = svc_version s"
    by (simp add: row_of_def)
  then show ?thesis
    using catalog_ok_cas [OF ok service_step_ok [OF changed(3,1,2)]] changed(5,6) by auto
qed

lemma catalog_history_ok:
  assumes "catalog_ok (w_db w)" and "\<forall>(E, now, q) \<in> set qs. uuid_laws (env_uuid E)"
  shows "catalog_ok (w_db (catalog_history qs w))"
  using assms
proof (induction qs arbitrary: w)
  case (Cons x qs)
  obtain E now q where x: "x = (E, now, q)" by (cases x)
  obtain r w' where c: "catalog_command E now q w = (r, w')" by fastforce
  have "catalog_ok (w_db w')" using Cons.prems x by (auto intro: catalog_command_ok [OF c])
  then show ?case using Cons x c by simp
qed simp

text \<open>A registration and a change of owner that expects version 1.\<close>

definition example_input :: register_service_input where
  "example_input =
     \<lparr>rs_TenantID = canonical_String 9, rs_Name = ''pay'', rs_Description = [], rs_Tier = 1,
      rs_Repository = [], rs_OwningTeam = ''core'', rs_OnCallRef = ''pd''\<rparr>"

definition example_registration :: catalog_request where
  "example_registration = RegisterRequest example_input"

definition example_handover :: catalog_request where
  "example_handover = OwnershipRequest
     \<lparr>co_ServiceID = canonical_String 1, co_OwningTeam = ''edge'',
      co_OnCallRef = ''pd'', co_ExpectedVersion = 1\<rparr>"

definition example_history :: "(env \<times> time \<times> catalog_request) list" where
  "example_history =
     [(plain_env, 1000, example_registration), (plain_env, 2000, example_handover)]"

text \<open>A catalog with one service, at version 3.\<close>

definition example_row :: catalog_service_row where
  "example_row =
     \<lparr>cs_id = 1, cs_tenant_id = 9, cs_name = ''pay'', cs_description = [], cs_tier = 1,
      cs_lifecycle = ''production'', cs_repository_url = [], cs_owning_team = ''core'',
      cs_on_call_ref = ''pd'', cs_version = 3, cs_created_at = 1000, cs_updated_at = 4000\<rparr>"

definition example_world :: world where
  "example_world = empty_world\<lparr>w_db := empty_db\<lparr>catalog_services := [example_row],
     catalog_ownership_history :=
       [\<lparr>oh_id = 2, oh_service_id = 1, oh_owning_team = ''core'', oh_on_call_ref = ''pd'',
         oh_valid_from = 1000, oh_valid_to = None\<rparr>]\<rparr>\<rparr>"

lemma example_row_ok: "service_row_ok example_row"
proof -
  have "name_ok (ServiceName ''pay'')" by code_simp
  moreover have "ownership_ok \<lparr>OwningTeam = ''core'', OnCallRef = ''pd''\<rparr>" by code_simp
  moreover have "''production'' = Lifecycle_string Production" by simp
  ultimately show ?thesis
    by (auto simp: service_row_ok_def example_row_def tier_ok_def in_int64_def timestamptz_def
        simp del: Lifecycle_string.simps)
qed

lemma example_world_services [simp]: "catalog_services (w_db example_world) = [example_row]"
  by (simp add: example_world_def)

lemma example_world_ok [simp]: "catalog_ok (w_db example_world)"
  using example_row_ok
  by (simp add: catalog_ok_def owned_as_def) (simp add: example_world_def example_row_def)

section \<open>Properties\<close>

text \<open>
  Whatever requests the catalog serves, and whichever of their statements and commits
  fail, the stored catalog stays sound: identifiers are unique, names are unique in a
  tenant, and every row is loaded back by the row scanner (never as corrupt data) as a
  service that satisfies the aggregate's invariant and is exactly the one the row stores.
\<close>

lemma catalog_always_loadable:
  assumes "w_db w = empty_db" and "\<forall>(E, now, q) \<in> set qs. uuid_laws (env_uuid E)" and "uuid_laws U"
  shows "let rows = catalog_services (w_db (catalog_history qs w))
    in distinct (map cs_id rows) \<and> distinct (map (\<lambda>r. (cs_tenant_id r, cs_name r)) rows) \<and>
       (\<forall>r \<in> set rows. \<exists>s. scanService U (Some r) = Inr s \<and> service_ok s \<and> row_of s = r)"
proof -
  have ok: "catalog_ok (w_db (catalog_history qs w))"
    using assms by (intro catalog_history_ok) simp_all
  have "\<exists>s. scanService U (Some r) = Inr s \<and> service_ok s \<and> row_of s = r"
    if "r \<in> set (catalog_services (w_db (catalog_history qs w)))" for r
    using scanService_ok [OF assms(3) catalog_okD(3) [OF ok that]] by metis
  with catalog_okD(1,2) [OF ok] show ?thesis by (simp add: Let_def)
qed

lemma catalog_always_loadable_witness:
  "let rows = catalog_services (w_db (catalog_history example_history empty_world))
   in distinct (map cs_id rows) \<and> distinct (map (\<lambda>r. (cs_tenant_id r, cs_name r)) rows) \<and>
      (\<forall>r \<in> set rows. \<exists>s. scanService canonical_uuid_lib (Some r) = Inr s \<and> service_ok s \<and> row_of s = r)"
  by (rule catalog_always_loadable) (simp_all add: example_history_def canonical_uuid_laws)

text \<open>
  The ownership history is a temporal record of the catalog: after any history of
  requests and faults every service has exactly one open interval, it names the team and
  on-call reference of the service's row, and no interval belongs to an unknown service.
\<close>

lemma ownership_history_current:
  assumes "w_db w = empty_db" and "\<forall>(E, now, q) \<in> set qs. uuid_laws (env_uuid E)"
  shows "let d = w_db (catalog_history qs w)
    in (\<forall>r \<in> set (catalog_services d). \<exists>h.
          filter (\<lambda>h. oh_service_id h = cs_id r \<and> oh_valid_to h = None) (catalog_ownership_history d) = [h] \<and>
          oh_owning_team h = cs_owning_team r \<and> oh_on_call_ref h = cs_on_call_ref r) \<and>
       oh_service_id ` set (catalog_ownership_history d) \<subseteq> cs_id ` set (catalog_services d)"
proof -
  have ok: "catalog_ok (w_db (catalog_history qs w))"
    using assms by (intro catalog_history_ok) simp_all
  show ?thesis
    using catalog_okD(4,5) [OF ok] by (auto simp: Let_def owned_as_def)
qed

lemma ownership_history_current_witness:
  "let d = w_db (catalog_history example_history empty_world)
   in (\<forall>r \<in> set (catalog_services d). \<exists>h.
         filter (\<lambda>h. oh_service_id h = cs_id r \<and> oh_valid_to h = None) (catalog_ownership_history d) = [h] \<and>
         oh_owning_team h = cs_owning_team r \<and> oh_on_call_ref h = cs_on_call_ref r) \<and>
      oh_service_id ` set (catalog_ownership_history d) \<subseteq> cs_id ` set (catalog_services d)"
  by (rule ownership_history_current) (simp_all add: example_history_def)

definition all_or_nothing :: "env \<Rightarrow> world \<Rightarrow> go_error + service \<Rightarrow> world \<Rightarrow> bool" where
  "all_or_nothing E w r w' \<longleftrightarrow>
     (\<exists>e. r = Inl e) \<and> w_db w' = w_db w \<or>
     (\<exists>svc es k n. (r = Inr svc \<or> (\<exists>e. r = Inl (Errorf ''commit tx'' e))) \<and>
        outbox_events (w_db w') = outbox_events (w_db w) @ outbox_rows_of E n k es \<and>
        filter (\<lambda>x. cs_id x \<noteq> ServiceID_UUID (svc_id svc)) (catalog_services (w_db w')) =
          filter (\<lambda>x. cs_id x \<noteq> ServiceID_UUID (svc_id svc)) (catalog_services (w_db w)) \<and>
        filter (\<lambda>x. cs_id x = ServiceID_UUID (svc_id svc)) (catalog_services (w_db w')) = [row_of svc] \<and>
        tenants (w_db w') = tenants (w_db w) \<and> idempotency_keys (w_db w') = idempotency_keys (w_db w) \<and>
        (es = [] \<longleftrightarrow> catalog_services (w_db w') = catalog_services (w_db w)))"

text \<open>
  C3: A command is all or nothing and its events travel with its state change. An error
  leaves every table as it was, except for a commit whose answer was lost; a command that
  was applied appends its events to the outbox after the older ones, stores the answered
  service in its row, and leaves the rows of other services, the tenants and the idempotency
  keys alone; it emits no event exactly when it left all service rows as they were.
\<close>

theorem command_atomic:
  assumes "catalog_command E now q w = (r, w')" and "catalog_ok (w_db w)" and "uuid_laws (env_uuid E)"
  shows "all_or_nothing E w r w'"
  using assms
proof (cases rule: catalog_command_effect)
  case (unchanged e)
  then show ?thesis by (auto simp: all_or_nothing_def)
next
  case (registered svc tenantID name d t u own i k n)
  have "filter (\<lambda>x. cs_id x = cs_id (row_of svc)) (catalog_services (w_db w)) = []"
    using registered(3) by (auto simp: new_service_row_def filter_empty_conv)
  with registered show ?thesis
    unfolding all_or_nothing_def
    by (intro disjI2 exI [of _ "svc\<lparr>svc_events := []\<rparr>"] exI [of _ "svc_events svc"]
        exI [of _ "Suc k"] exI [of _ n])
      (auto simp: row_of_def Register_def Service_record_def)
next
  case (changed s x svc k n)
  let ?S = "catalog_services (w_db w)"
  let ?f = "\<lambda>q. if cs_id q = cs_id (row_of s) then row_of svc else q"
  note S' = cas_services [OF assms(2) changed(5,2)]
  have id: "cs_id (row_of svc) = cs_id (row_of s)" "cs_id (row_of s) = ServiceID_UUID (svc_id svc)"
    using service_step_frame [OF changed(2)] by (simp_all add: row_of_def)
  have "svc_events svc = [] \<longleftrightarrow> map ?f ?S = ?S"
  proof (cases "svc = s")
    case True
    then show ?thesis
      using changed(4) catalog_okD(6) [OF assms(2) _ changed(5)] by (auto simp: map_id_iff)
  next
    case False
    then have "row_of svc \<noteq> row_of s" "svc_events svc \<noteq> []"
      using sv.version_moves [OF changed(2)] sv.step_records [OF changed(2)]
      by (auto simp: row_of_def)
    with changed(5) show ?thesis by (auto simp: map_id_iff)
  qed
  with filter_key_update [OF catalog_okD(1) [OF assms(2)] changed(5) id(1)] S' changed(6,7) id
  show ?thesis
    unfolding all_or_nothing_def
    by (intro disjI2 exI [of _ "svc\<lparr>svc_events := []\<rparr>"] exI [of _ "svc_events svc"]
        exI [of _ "Suc k"] exI [of _ n])
      (simp add: row_of_def)
qed

theorem command_atomic_witness:
  "case catalog_command plain_env 1000 example_registration empty_world of
     (r, w') \<Rightarrow> all_or_nothing plain_env empty_world r w'"
  using command_atomic [of plain_env 1000 example_registration empty_world] by (auto split: prod.split)

text \<open>A connection without faults answers every statement.\<close>

lemma FindByID_no_fault:
  assumes "catalog_ok (w_db w)" and "env_fault E = (\<lambda>n. None)" and "r \<in> set (catalog_services (w_db w))"
  shows "Repository_FindByID E (ServiceID (cs_id r)) w =
    (scanService (env_uuid E) (Some r), w\<lparr>w_stmts := Suc (w_stmts w)\<rparr>)"
  using assms find_by_key [OF catalog_okD(1) [OF assms(1)] assms(3)]
  by (simp add: Repository_FindByID_def sql_no_fault)

lemma update_no_hit:
  assumes "\<And>q. q \<in> set (catalog_services d) \<Longrightarrow> cs_id q = cs_id r \<Longrightarrow> cs_version q \<noteq> v"
    and "service_columns_ok r"
  shows "update_catalog_service r v d = (Inr 0, d)"
proof -
  have "filter (\<lambda>q. cs_id q = cs_id r \<and> cs_version q = v) (catalog_services d) = []"
    using assms(1) by (auto simp: filter_empty_conv)
  moreover have "map (\<lambda>q. if cs_id q = cs_id r \<and> cs_version q = v then set_service_columns r q else q)
      (catalog_services d) = catalog_services d"
    using assms(1) by (auto simp: map_id_iff)
  ultimately show ?thesis using assms(2) by (simp add: update_catalog_service_def)
qed

lemma stale_version_unchanged:
  assumes ok: "catalog_ok (w_db w)" and U: "uuid_laws (env_uuid E)"
    and r: "r \<in> set (catalog_services (w_db w))" and v: "0 < v" "v \<noteq> cs_version r"
    and m: "mutate E (ServiceID (cs_id r)) v (\<lambda>s. service_step (env_uuid E) s x) w = (a, w')"
  shows "w_db w' = w_db w \<and> (\<exists>e. a = Inl e)"
  using m
proof (cases rule: mutate_cases)
  case (unchanged e)
  then show ?thesis by simp
next
  case (mutated w1 b w2)
  from mutated(3) obtain s w0 svc where f: "Repository_FindByID E (ServiceID (cs_id r)) w1 = (Inr s, w0)"
    and x: "service_step (env_uuid E) s x = Inr svc"
    and "\<exists>q \<in> set (catalog_services (w_db w1)). cs_id q = ServiceID_UUID (svc_id svc) \<and>
           cs_version q = expectedVersionOr v (svc_version s)"
    by (rule mutate_work_Inr)
  then obtain q where q: "q \<in> set (catalog_services (w_db w))" "cs_id q = ServiceID_UUID (svc_id svc)"
      "cs_version q = v" using mutated(1) v(1) by (auto simp: expectedVersionOr_def)
  have "svc_id s = ServiceID (cs_id r)" using f ok U mutated(1) by (auto elim: FindByID_Inr)
  with q(2) service_step_frame(1) [OF x] have "cs_id q = cs_id r" by simp
  with catalog_okD(6) [OF ok q(1) r] q(3) v(2) show ?thesis by simp
qed

lemma stale_version_conflict:
  assumes ok: "catalog_ok (w_db w)" and U: "uuid_laws (env_uuid E)"
    and r: "r \<in> set (catalog_services (w_db w))" and v: "0 < v" "v \<noteq> cs_version r"
    and E: "env_fault E = (\<lambda>n. None)" and s: "scanService (env_uuid E) (Some r) = Inr s"
    and x: "service_step (env_uuid E) s x = Inr svc" and c: "service_columns_ok (row_of svc)"
  shows "fst (mutate E (ServiceID (cs_id r)) v (\<lambda>s. service_step (env_uuid E) s x) w) = Inl ErrVersionConflict"
proof -
  have "row_of s = r"
    using scanService_ok [OF U catalog_okD(3) [OF ok r]] s by (metis sum.inject(2))
  then have id: "svc_id svc = ServiceID (cs_id r)"
    using service_step_frame(1) [OF x] by (cases "svc_id s") (auto simp: row_of_def)
  then have "cs_id (row_of svc) = cs_id r" by (simp add: row_of_def)
  then have "update_catalog_service (row_of svc) v (w_db w) = (Inr 0, w_db w)"
    using catalog_okD(6) [OF ok _ r] v(2) by (intro update_no_hit c) auto
  then have "fst (mutate_work E (ServiceID (cs_id r)) v (\<lambda>s. service_step (env_uuid E) s x) w1) =
      Inl ErrVersionConflict" if "w_db w1 = w_db w" for w1
    using that E s x v(1) FindByID_no_fault [of _ E r] ok r id
    by (simp add: mutate_work_def expectedVersionOr_def Repository_Update_def sql_no_fault)
  then show ?thesis
    using E by (simp add: mutate_def Execute_no_fault)
qed

text \<open>
  C4: Optimistic concurrency. A mutation that states an expected version (an \<^verbatim>\<open>If-Match\<close>
  header) other than the stored one is never applied, whatever fails on the way; with a
  working connection, when the aggregate allows the change and its texts are storable, the
  caller is told exactly that the version conflicts.
\<close>

theorem stale_version_refused:
  assumes "catalog_ok (w_db w)" and "uuid_laws (env_uuid E)"
    and "r \<in> set (catalog_services (w_db w))" and "0 < v" and "v \<noteq> cs_version r"
  shows "case mutate E (ServiceID (cs_id r)) v (\<lambda>s. service_step (env_uuid E) s x) w of (a, w') \<Rightarrow>
    w_db w' = w_db w \<and> (\<exists>e. a = Inl e) \<and>
    (env_fault E = (\<lambda>n. None) \<and>
     (\<exists>s svc. scanService (env_uuid E) (Some r) = Inr s \<and> service_step (env_uuid E) s x = Inr svc \<and>
        service_columns_ok (row_of svc)) \<longrightarrow> a = Inl ErrVersionConflict)"
proof -
  obtain a w' where m: "mutate E (ServiceID (cs_id r)) v (\<lambda>s. service_step (env_uuid E) s x) w = (a, w')"
    by fastforce
  then show ?thesis
    using stale_version_unchanged [OF assms m] stale_version_conflict [OF assms, of _ x] by auto
qed

theorem stale_version_refused_witness:
  "case mutate plain_env (ServiceID 1) 2 (\<lambda>s. service_step (env_uuid plain_env) s (OpRetire 5000)) example_world of
     (a, w') \<Rightarrow> w_db w' = w_db example_world \<and> a = Inl ErrVersionConflict"
proof -
  have r: "cs_id example_row = 1" "cs_version example_row = 3" by (simp_all add: example_row_def)
  obtain s where s: "scanService (env_uuid plain_env) (Some example_row) = Inr s" "row_of s = example_row"
    using scanService_ok [OF plain_env_laws example_row_ok] by metis
  obtain svc where x: "service_step (env_uuid plain_env) s (OpRetire 5000) = Inr svc"
    by (cases "svc_lifecycle s = Retired") (auto simp: forge_defs)
  from x s(2) have "service_columns_ok (row_of svc)"
    by (auto simp: forge_defs service_columns_ok_def row_of_def example_row_def pg_text_ascii
        split: if_splits)
  with s x stale_version_refused [of example_world plain_env example_row 2 "OpRetire 5000"] r
  show ?thesis by (auto split: prod.splits)
qed

lemma scanService_row_of:
  assumes "uuid_laws U" and "service_ok s"
  shows "scanService U (Some (row_of s)) = Inr (s\<lparr>svc_createdAt := timestamptz (svc_createdAt s),
    svc_updatedAt := timestamptz (svc_updatedAt s), svc_events := []\<rparr>)"
  using assms
  by (simp add: scanService_def row_of_def ServiceIDFromString_def TenantIDFromString_def
      service_ok_def Reconstitute_def)

text \<open>
  C5: Registration round trip. The service a successful registration returns has the
  trimmed name, team and on-call reference of the request, version 1 and the experimental
  lifecycle, and a lookup by its identifier finds it, equal up to the microsecond precision
  of the stored time stamps.
\<close>

theorem register_then_find:
  assumes "RegisterService E now inp w = (Inr s, w')" and "catalog_ok (w_db w)"
    and "uuid_laws (env_uuid E)" and "uuid_laws (env_uuid F)" and "env_fault F = (\<lambda>n. None)"
  shows "fst (Repository_FindByID F (svc_id s) w') =
      Inr (s\<lparr>svc_createdAt := timestamptz now, svc_updatedAt := timestamptz now\<rparr>) \<and>
    svc_name s = ServiceName (TrimSpace (rs_Name inp)) \<and> svc_tier s = Tier (rs_Tier inp) \<and>
    svc_ownership s = \<lparr>OwningTeam = TrimSpace (rs_OwningTeam inp), OnCallRef = TrimSpace (rs_OnCallRef inp)\<rparr> \<and>
    svc_version s = 1 \<and> svc_lifecycle s = Experimental"
proof -
  have c: "catalog_command E now (RegisterRequest inp) w = (Inr s, w')" using assms(1) by simp
  from assms(1) show ?thesis
  proof (cases rule: RegisterService_cases)
    case (registered tenantID name t own svc w1 w2)
    have ok: "service_ok svc" using registered
      by (auto intro!: Register_ok simp: NewTier_ok dest: NewServiceName_ok NewOwnership_ok)
    have in': "row_of svc \<in> set (catalog_services (w_db w'))"
      using register_work_Inr(1) [OF registered(7)] registered(8) by simp
    have "catalog_ok (w_db w')" by (rule catalog_command_ok [OF c assms(2,3)])
    then have "fst (Repository_FindByID F (ServiceID (cs_id (row_of svc))) w') =
        Inr (svc\<lparr>svc_createdAt := timestamptz (svc_createdAt svc),
          svc_updatedAt := timestamptz (svc_updatedAt svc), svc_events := []\<rparr>)"
      using FindByID_no_fault [OF _ assms(5) in'] scanService_row_of [OF assms(4) ok] by simp
    with registered show ?thesis
      by (auto simp: Register_def Service_record_def row_of_def NewServiceName_eq NewTier_ok
          NewOwnership_def Let_def split: if_splits)
  qed simp
qed

theorem register_then_find_witness:
  "\<exists>s w'. RegisterService plain_env 1234567 example_input empty_world = (Inr s, w') \<and>
     fst (Repository_FindByID plain_env (svc_id s) w') =
       Inr (s\<lparr>svc_createdAt := 1234000, svc_updatedAt := 1234000\<rparr>)"
proof -
  have "\<not> isl (fst (RegisterService plain_env 1234567 example_input empty_world))" by code_simp
  then obtain s w' where "RegisterService plain_env 1234567 example_input empty_world = (Inr s, w')"
    by (metis sum.collapse(2) prod.collapse)
  with register_then_find [OF this, of plain_env] show ?thesis by (auto simp: timestamptz_def)
qed

text \<open>
  C6: A name is taken once per tenant. Registering a valid request whose trimmed name the
  tenant already uses is refused as a name conflict and changes no table.
\<close>

theorem register_duplicate_refused:
  assumes "catalog_ok (w_db w)" and "uuid_laws (env_uuid E)" and "env_fault E = (\<lambda>n. None)"
    and "r \<in> set (catalog_services (w_db w))" and "TrimSpace (rs_Name inp) = cs_name r"
    and "TenantIDFromString (env_uuid E) (rs_TenantID inp) = Inr (TenantID (cs_tenant_id r))"
    and "1 \<le> rs_Tier inp" and "rs_Tier inp \<le> 4" and "TrimSpace (rs_OwningTeam inp) \<noteq> []"
  shows "fst (RegisterService E now inp w) = Inl ErrNameConflict \<and>
    w_db (snd (RegisterService E now inp w)) = w_db w"
proof -
  have "name_ok (ServiceName (cs_name r))" and row: "service_row_ok r"
    using catalog_okD(3) [OF assms(1,4)] by (simp_all add: service_row_ok_def)
  then have n: "NewServiceName (rs_Name inp) = Inr (ServiceName (cs_name r))"
    using assms(5) by (auto simp: NewServiceName_eq name_ok_def)
  have "find (\<lambda>q. (cs_tenant_id q, cs_name q) = (cs_tenant_id r, cs_name r)) (catalog_services (w_db w)) = Some r"
    using find_by_key [OF catalog_okD(2) [OF assms(1)] assms(4)] by simp
  moreover obtain s where "scanService (env_uuid E) (Some r) = Inr s"
    using scanService_ok [OF assms(2) row] by metis
  ultimately have "fst (register_work E (TenantID (cs_tenant_id r)) (ServiceName (cs_name r)) svc w1) =
      Inl ErrNameConflict" if "w_db w1 = w_db w" for svc w1
    using that assms(3)
    by (simp add: register_work_def Repository_FindByTenantAndName_def sql_no_fault)
  with n assms(3,6-9) have "fst (RegisterService E now inp w) = Inl ErrNameConflict"
    by (simp add: RegisterService_def NewTier_def NewOwnership_def id_New_def Let_def Execute_no_fault)
  moreover obtain a w' where "RegisterService E now inp w = (a, w')" by fastforce
  ultimately show ?thesis
    by (auto elim: RegisterService_cases simp: ErrNameConflict_def Conflict_def New_def)
qed

theorem register_duplicate_refused_witness:
  "fst (RegisterService plain_env 5000 (example_input\<lparr>rs_Name := '' pay''\<rparr>) example_world) =
     Inl ErrNameConflict"
proof -
  have "TrimSpace '' pay'' = ''pay''" "TrimSpace ''core'' = ''core''" by code_simp+
  then show ?thesis
    using register_duplicate_refused [of example_world plain_env example_row
        "example_input\<lparr>rs_Name := '' pay''\<rparr>" 5000] canonical_uuid_laws
    by (simp add: example_row_def example_input_def plain_env_def TenantIDFromString_def
        canonical_uuid_lib_def uuid_laws_def)
qed

end
