(* ===== verification/Go_Base64.thy ===== *)
theory Go_Base64
  imports Go_Strings
begin

text \<open>
  \<^verbatim>\<open>encoding/base64.RawURLEncoding\<close> (the URL alphabet, no padding, not strict): the cursors
  of the list endpoints and the key material of a JWKS document are in this form. Decoding
  skips carriage returns and line feeds, refuses any other byte outside the alphabet and a
  last group of one character, and does not look at unused trailing bits.
\<close>

definition b64_char :: "nat \<Rightarrow> char" where
  "b64_char n =
     (if n < 26 then char_of (65 + n) else if n < 52 then char_of (71 + n)
      else if n < 62 then char_of (n - 4) else if n = 62 then CHR ''-'' else CHR ''_'')"

definition b64_value :: "char \<Rightarrow> nat option" where
  "b64_value c =
     (let b = byte c
      in if 65 \<le> b \<and> b \<le> 90 then Some (b - 65)
         else if 97 \<le> b \<and> b \<le> 122 then Some (b - 71)
         else if 48 \<le> b \<and> b \<le> 57 then Some (b + 4)
         else if c = CHR ''-'' then Some 62 else if c = CHR ''_'' then Some 63 else None)"

fun b64_groups :: "string \<Rightarrow> string" where
  "b64_groups (a # b # c # s) =
     b64_char (byte a div 4) # b64_char (byte a mod 4 * 16 + byte b div 16) #
     b64_char (byte b mod 16 * 4 + byte c div 64) # b64_char (byte c mod 64) # b64_groups s"
| "b64_groups [a, b] =
     [b64_char (byte a div 4), b64_char (byte a mod 4 * 16 + byte b div 16), b64_char (byte b mod 16 * 4)]"
| "b64_groups [a] = [b64_char (byte a div 4), b64_char (byte a mod 4 * 16)]"
| "b64_groups [] = []"

definition EncodeToString :: "string \<Rightarrow> string" where
  "EncodeToString s = b64_groups s"

fun b64_bytes :: "nat list \<Rightarrow> string option" where
  "b64_bytes (w # x # y # z # s) =
     (case b64_bytes s of
        None \<Rightarrow> None
      | Some t \<Rightarrow> Some (char_of (w * 4 + x div 16) # char_of (x mod 16 * 16 + y div 4) #
                      char_of (y mod 4 * 64 + z) # t))"
| "b64_bytes [w, x, y] = Some [char_of (w * 4 + x div 16), char_of (x mod 16 * 16 + y div 4)]"
| "b64_bytes [w, x] = Some [char_of (w * 4 + x div 16)]"
| "b64_bytes [w] = None"
| "b64_bytes [] = Some []"

definition DecodeString :: "string \<Rightarrow> string option" where
  "DecodeString s =
     (let vs = map b64_value (filter (\<lambda>c. c \<notin> {CHR 0x0A, CHR 0x0D}) s)
      in if None \<in> set vs then None else b64_bytes (map the vs))"

lemma b64_value_char [simp]: "n < 64 \<Longrightarrow> b64_value (b64_char n) = Some n"
  by (auto simp: b64_value_def b64_char_def Let_def)

lemma b64_char_not_newline: "n < 64 \<Longrightarrow> b64_char n \<notin> {CHR 0x0A, CHR 0x0D}"
proof
  assume n: "n < 64" and "b64_char n \<in> {CHR 0x0A, CHR 0x0D}"
  then have "b64_value (b64_char n) = None" by (auto simp: b64_value_def)
  with n show False by simp
qed

text \<open>Every group of the encoding is below 64, so each character decodes.\<close>

fun sextets_of :: "string \<Rightarrow> nat list" where
  "sextets_of (a # b # c # s) =
     byte a div 4 # (byte a mod 4 * 16 + byte b div 16) # (byte b mod 16 * 4 + byte c div 64) #
     byte c mod 64 # sextets_of s"
| "sextets_of [a, b] = [byte a div 4, byte a mod 4 * 16 + byte b div 16, byte b mod 16 * 4]"
| "sextets_of [a] = [byte a div 4, byte a mod 4 * 16]"
| "sextets_of [] = []"

lemma b64_groups_sextets: "b64_groups s = map b64_char (sextets_of s)"
  by (induction s rule: sextets_of.induct) simp_all

lemma byte_lt: "byte c < 256"
  by simp

lemma sextet_bounds:
  fixes a b :: nat
  assumes "a < 256" and "b < 256"
  shows "a div 4 < 64" and "a mod 4 * 16 + b div 16 < 64" and "a mod 16 * 4 + b div 64 < 64"
    and "a mod 64 < 64" and "a mod 16 * 4 < 64" and "a mod 4 * 16 < 64"
proof -
  have "a mod 4 < 4" "a mod 16 < 16" "b div 16 < 16" "b div 64 < 4" using assms by auto
  then show "a mod 4 * 16 + b div 16 < 64" "a mod 16 * 4 + b div 64 < 64"
    "a mod 16 * 4 < 64" "a mod 4 * 16 < 64" by linarith+
  show "a div 4 < 64" "a mod 64 < 64" using assms by auto
qed

lemmas byte_split = sextet_bounds [OF byte_lt byte_lt]

lemma sextets_of_bound: "n \<in> set (sextets_of s) \<Longrightarrow> n < 64"
  by (induction s rule: sextets_of.induct) (auto simp: byte_split)

lemma nibbles:
  fixes n :: nat
  assumes "n < 256"
  shows "n div 16 div 16 = 0" and "n div 16 mod 16 = n div 16"
    and "n div 64 div 4 = 0" and "n div 64 mod 4 = n div 64"
  using assms by auto

lemmas byte_parts = nibbles [OF byte_lt]

lemma b64_bytes_sextets: "b64_bytes (sextets_of s) = Some s"
  by (induction s rule: sextets_of.induct) (simp_all add: byte_parts)

lemma DecodeString_EncodeToString [simp]: "DecodeString (EncodeToString s) = Some s"
proof -
  let ?ns = "sextets_of s"
  have "filter (\<lambda>c. c \<notin> {CHR 0x0A, CHR 0x0D}) (map b64_char ?ns) = map b64_char ?ns"
    using b64_char_not_newline sextets_of_bound by (auto simp: filter_id_conv)
  moreover have "map b64_value (map b64_char ?ns) = map Some ?ns"
    using sextets_of_bound by auto
  ultimately show ?thesis
    by (simp add: DecodeString_def EncodeToString_def b64_groups_sextets b64_bytes_sextets
        del: map_map) (simp add: b64_bytes_sextets)
qed

lemma EncodeToString_nonempty: "EncodeToString (c # s) \<noteq> []"
  by (cases "c # s" rule: b64_groups.cases) (auto simp: EncodeToString_def)

end
