(* ===== verification/Catalog_Listing.thy ===== *)
theory Catalog_Listing
  imports Catalog_Store Go_Base64
begin

text \<open>
  The read side of the catalog: \<open>GetService\<close> and \<open>ListServices\<close> of
  \<^verbatim>\<open>internal/modules/catalog/app/queries.go\<close>, and \<^verbatim>\<open>Repository.List\<close> with its query builder
  and its cursors. \<open>list_query\<close> is the SQL text with its arguments, assembled as the code
  assembles it; \<open>select_services\<close> is what the database answers to it.
\<close>

section \<open>Filters\<close>

record list_filter =
  lf_TenantID :: "tenant_id option"
  lf_Lifecycle :: "lifecycle option"
  lf_Tier :: "tier option"
  lf_Sort :: string
  lf_Order :: string
  lf_Limit :: int
  lf_Cursor :: string

definition SortCreatedAt :: string where
  "SortCreatedAt = ''created_at''"
definition SortName :: string where
  "SortName = ''name''"
definition OrderAsc :: string where
  "OrderAsc = ''asc''"
definition OrderDesc :: string where
  "OrderDesc = ''desc''"

lemmas sort_names [simp] = SortCreatedAt_def SortName_def OrderAsc_def OrderDesc_def

section \<open>Cursors\<close>

record cursor =
  cu_Sort :: string
  cu_Order :: string
  cu_Value :: string
  cu_ID :: string

definition cursor_json :: "cursor \<Rightarrow> json" where
  "cursor_json c =
     JObj [(''s'', JStr (cu_Sort c)), (''o'', JStr (cu_Order c)), (''v'', JStr (cu_Value c)),
           (''id'', JStr (cu_ID c))]"

definition cursor_fields :: "(string \<times> (json \<Rightarrow> cursor \<Rightarrow> cursor option)) list" where
  "cursor_fields =
     [(''s'', string_field (\<lambda>x c. c\<lparr>cu_Sort := x\<rparr>)), (''o'', string_field (\<lambda>x c. c\<lparr>cu_Order := x\<rparr>)),
      (''v'', string_field (\<lambda>x c. c\<lparr>cu_Value := x\<rparr>)), (''id'', string_field (\<lambda>x c. c\<lparr>cu_ID := x\<rparr>))]"

definition encodeCursor :: "uuid_lib \<Rightarrow> list_filter \<Rightarrow> service \<Rightarrow> string" where
  "encodeCursor U f s =
     (let value = (if lf_Sort f = SortName then ServiceName_String (svc_name s)
                   else RFC3339Nano (svc_createdAt s));
          c = \<lparr>cu_Sort = lf_Sort f, cu_Order = lf_Order f, cu_Value = value,
               cu_ID = ServiceID_String U (svc_id s)\<rparr>
      in EncodeToString (Marshal (cursor_json c)))"

definition malformed_cursor :: go_error where
  "malformed_cursor = Validation ''INVALID_CURSOR'' ''cursor is malformed''"

definition mismatched_cursor :: go_error where
  "mismatched_cursor =
     Validation ''INVALID_CURSOR'' ''cursor does not match the requested sort or order''"

definition decodeCursor :: "string \<Rightarrow> string \<Rightarrow> string \<Rightarrow> go_error + cursor" where
  "decodeCursor encoded sortField order =
     (case DecodeString encoded of
        None \<Rightarrow> Inl malformed_cursor
      | Some raw \<Rightarrow>
     (case Option.bind (Unmarshal raw) (\<lambda>v. decode_struct False cursor_fields v
             \<lparr>cu_Sort = [], cu_Order = [], cu_Value = [], cu_ID = []\<rparr>) of
        None \<Rightarrow> Inl malformed_cursor
      | Some c \<Rightarrow>
          (if cu_Sort c \<noteq> sortField \<or> cu_Order c \<noteq> order then Inl mismatched_cursor else Inr c)))"

section \<open>The query builder\<close>

datatype sql_arg = ArgStr string | ArgInt int

record queryBuilder =
  qb_base :: string
  qb_clauses :: "string list"
  qb_values :: "sql_arg list"

definition newQueryBuilder :: "string \<Rightarrow> queryBuilder" where
  "newQueryBuilder base = \<lparr>qb_base = base, qb_clauses = [], qb_values = []\<rparr>"

text \<open>\<^verbatim>\<open>fmt.Sprintf\<close> with the verbs the builder uses, \<^verbatim>\<open>%s\<close> on strings and \<^verbatim>\<open>%%\<close>.\<close>

fun Sprintf :: "string \<Rightarrow> string list \<Rightarrow> string" where
  "Sprintf [] xs = []"
| "Sprintf [c] xs = [c]"
| "Sprintf (c # d # s) xs =
     (if c = CHR ''%'' \<and> d = CHR ''%'' then CHR ''%'' # Sprintf s xs
      else if c = CHR ''%'' \<and> d = CHR ''s''
      then (case xs of [] \<Rightarrow> ''%!s(MISSING)'' @ Sprintf s [] | x # ys \<Rightarrow> x @ Sprintf s ys)
      else c # Sprintf (d # s) xs)"

definition qb_where :: "string \<Rightarrow> sql_arg list \<Rightarrow> queryBuilder \<Rightarrow> queryBuilder" where
  "qb_where clauseFmt args q =
     (let n = length (qb_values q);
          placeholders = map (\<lambda>i. CHR ''$'' # format_nat (n + i + 1)) [0..<length args]
      in q\<lparr>qb_values := qb_values q @ args,
           qb_clauses := qb_clauses q @ [Sprintf clauseFmt placeholders]\<rparr>)"

definition qb_raw :: "string \<Rightarrow> queryBuilder \<Rightarrow> queryBuilder" where
  "qb_raw s q = q\<lparr>qb_base := qb_base q @ s\<rparr>"

text \<open>\<^verbatim>\<open>indexOf\<close>: the loop over start positions; \<open>None\<close> is -1.\<close>

fun indexOf :: "string \<Rightarrow> string \<Rightarrow> nat option" where
  "indexOf s sub =
     (if length s < length sub then None
      else if take (length sub) s = sub then Some 0
      else case s of [] \<Rightarrow> None | c # t \<Rightarrow> map_option Suc (indexOf t sub))"

declare indexOf.simps [simp del]

definition indexOfOrder :: "string \<Rightarrow> nat option" where
  "indexOfOrder txt =
     (case indexOf txt '' ORDER BY '' of Some i \<Rightarrow> Some i | None \<Rightarrow> indexOf txt '' LIMIT '')"

definition insertWhere :: "queryBuilder \<Rightarrow> string \<Rightarrow> string" where
  "insertWhere q txt =
     (let w = '' WHERE '' @ join '' AND '' (qb_clauses q)
      in case indexOfOrder txt of None \<Rightarrow> txt @ w | Some idx \<Rightarrow> take idx txt @ w @ drop idx txt)"

definition qb_sql :: "queryBuilder \<Rightarrow> string" where
  "qb_sql q = (if qb_clauses q = [] then qb_base q else insertWhere q (qb_base q))"

definition serviceColumns :: string where
  "serviceColumns = ''id::text, tenant_id::text, name, description, tier, lifecycle, repository_url, '' @
     ''owning_team, on_call_ref, version, created_at, updated_at''"

definition list_base :: string where
  "list_base = ''SELECT '' @ serviceColumns @ '' FROM catalog_services''"

definition opt_where :: "string \<Rightarrow> 'a option \<Rightarrow> ('a \<Rightarrow> sql_arg list) \<Rightarrow> queryBuilder \<Rightarrow> queryBuilder" where
  "opt_where c x arg q = (case x of None \<Rightarrow> q | Some v \<Rightarrow> qb_where c (arg v) q)"

definition list_query :: "uuid_lib \<Rightarrow> list_filter \<Rightarrow> cursor option \<Rightarrow> string \<times> sql_arg list" where
  "list_query U f cur =
     (let (sortCol, valCast) = (if lf_Sort f = SortName then (''name'', ''text'') else (''created_at'', ''timestamptz''));
          (cmp, dir) = (if lf_Order f = OrderDesc then (''<'', ''DESC'') else (''>'', ''ASC''));
          q0 = newQueryBuilder list_base;
          q1 = opt_where ''tenant_id = %s::uuid'' (lf_TenantID f) (\<lambda>t. [ArgStr (TenantID_String U t)]) q0;
          q2 = opt_where ''lifecycle = %s'' (lf_Lifecycle f) (\<lambda>l. [ArgStr (Lifecycle_string l)]) q1;
          q3 = opt_where ''tier = %s'' (lf_Tier f) (\<lambda>t. [ArgInt (Tier_Int t)]) q2;
          q4 = opt_where (Sprintf ''(%s, id) %s (%%s::%s, %%s::uuid)'' [sortCol, cmp, valCast]) cur
                 (\<lambda>c. [ArgStr (cu_Value c), ArgStr (cu_ID c)]) q3;
          q5 = qb_raw ('' ORDER BY '' @ sortCol @ '' '' @ dir @ '', id '' @ dir @ '' LIMIT '' @
                 FormatInt (int64 (lf_Limit f + 1))) q4
      in (qb_sql q5, qb_values q5))"

section \<open>What the database answers\<close>

definition by_created :: "env \<Rightarrow> bool \<Rightarrow> time \<times> uuid \<Rightarrow> time \<times> uuid \<Rightarrow> bool" where
  "by_created E desc a b = (if desc then pair_before (<) b a else pair_before (<) a b)"

definition by_name :: "env \<Rightarrow> bool \<Rightarrow> string \<times> uuid \<Rightarrow> string \<times> uuid \<Rightarrow> bool" where
  "by_name E desc a b =
     (if desc then pair_before (pg_collate (env_pg E)) b a else pair_before (pg_collate (env_pg E)) a b)"

definition row_matches :: "list_filter \<Rightarrow> catalog_service_row \<Rightarrow> bool" where
  "row_matches f r \<longleftrightarrow>
     (case lf_TenantID f of None \<Rightarrow> True | Some t \<Rightarrow> cs_tenant_id r = TenantID_UUID t) \<and>
     (case lf_Lifecycle f of None \<Rightarrow> True | Some l \<Rightarrow> cs_lifecycle r = Lifecycle_string l) \<and>
     (case lf_Tier f of None \<Rightarrow> True | Some t \<Rightarrow> cs_tier r = Tier_Int t)"

definition pg_datetime_error :: go_error where
  "pg_datetime_error = PgError ''22007'' ''invalid input syntax for type timestamp with time zone''"
definition pg_limit_error :: go_error where
  "pg_limit_error = PgError ''2201W'' ''LIMIT must not be negative''"

definition select_services ::
    "env \<Rightarrow> list_filter \<Rightarrow> cursor option \<Rightarrow> db \<Rightarrow> (go_error + catalog_service_row list) \<times> db" where
  "select_services E f cur d =
     (let desc = (lf_Order f = OrderDesc); n = int64 (lf_Limit f + 1);
          page = (\<lambda>after. select_page (by_created E desc) (\<lambda>r. (cs_created_at r, cs_id r)) (row_matches f)
                    after (nat n) (catalog_services d));
          page_by_name = (\<lambda>after. select_page (by_name E desc) (\<lambda>r. (cs_name r, cs_id r)) (row_matches f)
                    after (nat n) (catalog_services d))
      in if n < 0 then (Inl pg_limit_error, d)
         else case cur of
           None \<Rightarrow> (Inr (if lf_Sort f = SortName then page_by_name None else page None), d)
         | Some c \<Rightarrow>
             (if \<not> (pg_text (cu_Value c) \<and> pg_text (cu_ID c)) then (Inl pg_encoding_error, d)
              else case uuid_Parse (env_uuid E) (cu_ID c) of
                None \<Rightarrow> (Inl pg_uuid_error, d)
              | Some i \<Rightarrow>
                  (if lf_Sort f = SortName then (Inr (page_by_name (Some (cu_Value c, i))), d)
                   else case pg_timestamptz_in (env_pg E) (cu_Value c) of
                          None \<Rightarrow> (Inl pg_datetime_error, d)
                        | Some t \<Rightarrow> (Inr (page (Some (t, i))), d))))"

section \<open>Listing\<close>

text \<open>The \<^verbatim>\<open>rows.Next\<close> loop.\<close>

fun scan_rows :: "uuid_lib \<Rightarrow> catalog_service_row list \<Rightarrow> go_error + service list" where
  "scan_rows U [] = Inr []"
| "scan_rows U (r # rs) =
     (case scanService U (Some r) of
        Inl err \<Rightarrow> Inl err
      | Inr svc \<Rightarrow> (case scan_rows U rs of Inl err \<Rightarrow> Inl err | Inr ss \<Rightarrow> Inr (svc # ss)))"

text \<open>
  \<^verbatim>\<open>Repository.List\<close>. The fault of the second statement is \<^verbatim>\<open>rows.Err()\<close>. A limit below 1 makes
  the index of the last row negative, a run-time panic.
\<close>

definition index_panic :: go_error where
  "index_panic = OtherError ''runtime error: index out of range''"

definition Repository_List :: "env \<Rightarrow> list_filter \<Rightarrow> (service list \<times> string) tx" where
  "Repository_List E f w =
     (case (if lf_Cursor f = [] then Inr None
            else map_sum id Some (decodeCursor (lf_Cursor f) (lf_Sort f) (lf_Order f))) of
        Inl err \<Rightarrow> (Inl err, w)
      | Inr cur \<Rightarrow>
     (case sql E (select_services E f cur) w of
        (Inl err, w1) \<Rightarrow> (Inl (Errorf ''list services'' err), w1)
      | (Inr rows, w1) \<Rightarrow>
     (case scan_rows (env_uuid E) rows of
        Inl err \<Rightarrow> (Inl err, w1)
      | Inr services \<Rightarrow>
     (case sql E (\<lambda>d. (Inr (), d)) w1 of
        (Inl err, w2) \<Rightarrow> (Inl err, w2)
      | (Inr _, w2) \<Rightarrow>
          (if int (length services) > lf_Limit f
           then if lf_Limit f < 1 then (Inl index_panic, w2)
                else let last = services ! nat (lf_Limit f - 1)
                     in (Inr (take (nat (lf_Limit f)) services, encodeCursor (env_uuid E) f last), w2)
           else (Inr (services, []), w2))))))"

section \<open>Queries\<close>

definition GetService :: "env \<Rightarrow> string \<Rightarrow> service tx" where
  "GetService E serviceID w =
     (case ServiceIDFromString (env_uuid E) serviceID of
        Inl err \<Rightarrow> (Inl err, w)
      | Inr i \<Rightarrow> Repository_FindByID E i w)"

definition list_defaults :: "list_filter \<Rightarrow> list_filter" where
  "list_defaults f =
     (let f1 = (if lf_Limit f \<le> 0 \<or> lf_Limit f > 200 then f\<lparr>lf_Limit := 50\<rparr> else f);
          f2 = (if lf_Sort f1 = [] then f1\<lparr>lf_Sort := SortCreatedAt\<rparr> else f1)
      in if lf_Order f2 = [] then f2\<lparr>lf_Order := OrderDesc\<rparr> else f2)"

definition ListServices :: "env \<Rightarrow> list_filter \<Rightarrow> (service list \<times> string) tx" where
  "ListServices E f = Repository_List E (list_defaults f)"

section \<open>Cursors survive the round trip\<close>

lemma decode_cursor_json:
  "decode_struct False cursor_fields (cursor_json c)
     \<lparr>cu_Sort = [], cu_Order = [], cu_Value = [], cu_ID = []\<rparr> = Some c"
  by (cases c) (simp add: decode_struct_def cursor_json_def cursor_fields_def field_for_def string_field_def)

lemma decodeCursor_encoded:
  assumes "ascii (cu_Sort c)" "ascii (cu_Order c)" "ascii (cu_Value c)" "ascii (cu_ID c)"
  shows "decodeCursor (EncodeToString (Marshal (cursor_json c))) s d =
    (if cu_Sort c \<noteq> s \<or> cu_Order c \<noteq> d then Inl mismatched_cursor else Inr c)"
proof -
  have "json_ok (cursor_json c)" using assms by (simp add: cursor_json_def)
  moreover have "json_depth (cursor_json c) \<le> maxNestingDepth"
    by (simp add: cursor_json_def maxNestingDepth_def)
  ultimately show ?thesis
    by (simp add: decodeCursor_def Unmarshal_Marshal decode_cursor_json)
qed

lemma ascii_name: "name_ok n \<Longrightarrow> ascii (ServiceName_String n)"
  by (auto simp: name_ok_def dns1123_def ascii_def list_all_iff in_class_def
      dash_alnum_def alnum_def)

end
