(* ===== verification/Catalog_Query.thy ===== *)
theory Catalog_Query
  imports Catalog_Listing
begin

text \<open>
  The SQL text that \<^verbatim>\<open>List\<close> sends, against a reference form of it: the query builder of
  \<^verbatim>\<open>internal/modules/catalog/adapters/postgres/repository.go\<close> appends the ordering first and later finds
  the place of the conditions by searching for it.
\<close>

section \<open>The query text\<close>

text \<open>
  The reference form of the query: the conditions that apply, each a text with the number of
  its first placeholder filled in, and their arguments.
\<close>

definition placeholder :: "nat \<Rightarrow> string" where
  "placeholder n = CHR ''$'' # format_nat n"

type_synonym condition = "(nat \<Rightarrow> string) \<times> sql_arg list"

fun render :: "nat \<Rightarrow> condition list \<Rightarrow> string list" where
  "render n [] = []"
| "render n ((t, args) # cs) = t n # render (n + length args) cs"

definition sort_column :: "list_filter \<Rightarrow> string" where
  "sort_column f = (if lf_Sort f = SortName then ''name'' else ''created_at'')"

definition list_conditions :: "uuid_lib \<Rightarrow> list_filter \<Rightarrow> cursor option \<Rightarrow> condition list" where
  "list_conditions U f cur =
     (case lf_TenantID f of None \<Rightarrow> []
      | Some t \<Rightarrow> [(\<lambda>n. ''tenant_id = '' @ placeholder n @ ''::uuid'', [ArgStr (TenantID_String U t)])]) @
     (case lf_Lifecycle f of None \<Rightarrow> []
      | Some l \<Rightarrow> [(\<lambda>n. ''lifecycle = '' @ placeholder n, [ArgStr (Lifecycle_string l)])]) @
     (case lf_Tier f of None \<Rightarrow> []
      | Some t \<Rightarrow> [(\<lambda>n. ''tier = '' @ placeholder n, [ArgInt (Tier_Int t)])]) @
     (case cur of None \<Rightarrow> []
      | Some c \<Rightarrow> [(\<lambda>n. ''('' @ sort_column f @ '', id) '' @ (if lf_Order f = OrderDesc then ''<'' else ''>'') @
            '' ('' @ placeholder n @ ''::'' @ (if lf_Sort f = SortName then ''text'' else ''timestamptz'') @ '', '' @
            placeholder (n + 1) @ ''::uuid)'', [ArgStr (cu_Value c), ArgStr (cu_ID c)])])"

definition list_order :: "list_filter \<Rightarrow> string" where
  "list_order f =
     (let dir = (if lf_Order f = OrderDesc then ''DESC'' else ''ASC'')
      in '' ORDER BY '' @ sort_column f @ '' '' @ dir @ '', id '' @ dir @ '' LIMIT '' @ FormatInt (int64 (lf_Limit f + 1)))"

text \<open>The insertion point: the select list has no blank before a capital O.\<close>

lemma indexOf_first:
  "successively (\<lambda>c d. \<not> (c = x \<and> d = y)) (b @ [x]) \<Longrightarrow>
     indexOf (b @ x # y # z @ t) (x # y # z) = Some (length b)"
proof (induction b)
  case Nil
  then show ?case by (simp add: indexOf.simps)
next
  case (Cons c b)
  then show ?case
    by (cases b) (auto simp: indexOf.simps [of "_ # _"] successively_Cons)
qed

lemma list_base_index: "indexOf (list_base @ '' ORDER BY '' @ t) '' ORDER BY '' = Some (length list_base)"
  using indexOf_first [of "CHR '' ''" "CHR ''O''" list_base "''RDER BY ''" t]
  by (simp add: list_base_def serviceColumns_def)

lemma render_append: "render n (cs @ ds) = render n cs @ render (n + length (concat (map snd cs))) ds"
  by (induction n cs rule: render.induct) (auto simp: algebra_simps)

text \<open>A builder that holds the conditions \<open>cs\<close>.\<close>

definition holds_conditions :: "condition list \<Rightarrow> queryBuilder \<Rightarrow> bool" where
  "holds_conditions cs q \<longleftrightarrow>
     qb_base q = list_base \<and> qb_clauses q = render 1 cs \<and> qb_values q = concat (map snd cs)"

lemma holds_opt_where:
  assumes "holds_conditions cs q"
    and "\<And>v n. x = Some v \<Longrightarrow>
           t v n = Sprintf c (map (\<lambda>i. CHR ''$'' # format_nat (n + i)) [0..<length (arg v)])"
  shows "holds_conditions (cs @ (case x of None \<Rightarrow> [] | Some v \<Rightarrow> [(t v, arg v)])) (opt_where c x arg q)"
  using assms
  by (auto simp: holds_conditions_def opt_where_def qb_where_def Let_def render_append algebra_simps split: option.split)

lemma holds_new: "holds_conditions [] (newQueryBuilder list_base)"
  by (simp add: holds_conditions_def newQueryBuilder_def)

lemma holds_sql:
  assumes "holds_conditions cs q"
  shows "qb_sql (qb_raw ('' ORDER BY '' @ t) q) =
     list_base @ (if cs = [] then [] else '' WHERE '' @ join '' AND '' (render 1 cs)) @ '' ORDER BY '' @ t"
proof -
  have "render 1 cs = [] \<longleftrightarrow> cs = []" by (cases cs) auto
  then show ?thesis using assms list_base_index [of t]
    by (auto simp: holds_conditions_def qb_sql_def qb_raw_def insertWhere_def indexOfOrder_def simp del: append_Cons)
qed


lemma two_placeholders: 
  "map (\<lambda>i. CHR ''$'' # format_nat (n + i)) [0..<length [a, b]] = [placeholder n, placeholder (n + 1)]"
  by (simp add: placeholder_def)

lemma cursor_condition:
  "Sprintf (Sprintf ''(%s, id) %s (%%s::%s, %%s::uuid)''
      [if lf_Sort f = SortName then ''name'' else ''created_at'',
       if lf_Order f = OrderDesc then ''<'' else ''>'',
       if lf_Sort f = SortName then ''text'' else ''timestamptz'']) [p, q] =
   ''('' @ sort_column f @ '', id) '' @ (if lf_Order f = OrderDesc then ''<'' else ''>'') @ '' ('' @ p @ ''::'' @
     (if lf_Sort f = SortName then ''text'' else ''timestamptz'') @ '', '' @ q @ ''::uuid)''"
  by (cases "lf_Sort f = SortName"; cases "lf_Order f = OrderDesc") (simp_all add: sort_column_def)

text \<open>
  C8: The query that the builder of \<^verbatim>\<open>List\<close> composes is the reference query: the select list,
  then (only if a condition applies) \<^verbatim>\<open>WHERE\<close> and the conditions joined by \<^verbatim>\<open>AND\<close>, each with
  placeholders numbered by the position of its arguments, then the ordering and the limit. The
  values only ever travel as arguments, in the order of the placeholders.
\<close>

theorem list_query_text:
  "list_query U f cur =
     (let cs = list_conditions U f cur
      in (list_base @ (if cs = [] then [] else '' WHERE '' @ join '' AND '' (render 1 cs)) @ list_order f,
          concat (map snd cs)))"
proof -
  let ?col = "if lf_Sort f = SortName then ''name'' else ''created_at''"
  let ?cast = "if lf_Sort f = SortName then ''text'' else ''timestamptz''"
  let ?cmp = "if lf_Order f = OrderDesc then ''<'' else ''>''"
  let ?dir = "if lf_Order f = OrderDesc then ''DESC'' else ''ASC''"
  define q1 where "q1 = opt_where ''tenant_id = %s::uuid'' (lf_TenantID f) (\<lambda>t. [ArgStr (TenantID_String U t)])
    (newQueryBuilder list_base)"
  define q2 where "q2 = opt_where ''lifecycle = %s'' (lf_Lifecycle f) (\<lambda>l. [ArgStr (Lifecycle_string l)]) q1"
  define q3 where "q3 = opt_where ''tier = %s'' (lf_Tier f) (\<lambda>t. [ArgInt (Tier_Int t)]) q2"
  define q4 where "q4 = opt_where (Sprintf ''(%s, id) %s (%%s::%s, %%s::uuid)'' [?col, ?cmp, ?cast]) cur
    (\<lambda>c. [ArgStr (cu_Value c), ArgStr (cu_ID c)]) q3"
  let ?c1 = "case lf_TenantID f of None \<Rightarrow> []
      | Some t \<Rightarrow> [(\<lambda>n. ''tenant_id = '' @ placeholder n @ ''::uuid'', [ArgStr (TenantID_String U t)])]"
  let ?c2 = "case lf_Lifecycle f of None \<Rightarrow> []
      | Some l \<Rightarrow> [(\<lambda>n. ''lifecycle = '' @ placeholder n, [ArgStr (Lifecycle_string l)])]"
  let ?c3 = "case lf_Tier f of None \<Rightarrow> []
      | Some t \<Rightarrow> [(\<lambda>n. ''tier = '' @ placeholder n, [ArgInt (Tier_Int t)])]"
  let ?c4 = "case cur of None \<Rightarrow> []
      | Some c \<Rightarrow> [(\<lambda>n. ''('' @ sort_column f @ '', id) '' @ ?cmp @ '' ('' @ placeholder n @ ''::'' @ ?cast @
           '', '' @ placeholder (n + 1) @ ''::uuid)'', [ArgStr (cu_Value c), ArgStr (cu_ID c)])]"
  have "holds_conditions ([] @ ?c1) q1"
    unfolding q1_def by (rule holds_opt_where [OF holds_new]) (simp add: placeholder_def)
  then have "holds_conditions (([] @ ?c1) @ ?c2) q2"
    unfolding q2_def by (rule holds_opt_where) (simp add: placeholder_def)
  then have "holds_conditions ((([] @ ?c1) @ ?c2) @ ?c3) q3"
    unfolding q3_def by (rule holds_opt_where) (simp add: placeholder_def)
  then have "holds_conditions (((([] @ ?c1) @ ?c2) @ ?c3) @ ?c4) q4"
    unfolding q4_def
    by (rule holds_opt_where) (simp only: two_placeholders cursor_condition)
  then have holds: "holds_conditions (list_conditions U f cur) q4"
    by (simp only: list_conditions_def append.assoc append.left_neutral)
  have "list_query U f cur = (qb_sql (qb_raw ('' ORDER BY '' @ ?col @ '' '' @ ?dir @ '', id '' @ ?dir @
      '' LIMIT '' @ FormatInt (int64 (lf_Limit f + 1))) q4), qb_values q4)"
    by (simp add: list_query_def Let_def q1_def q2_def q3_def q4_def qb_raw_def)
  with holds_sql [OF holds] holds show ?thesis
    by (simp add: Let_def list_order_def sort_column_def holds_conditions_def)
qed

end
