(* ===== verification/Provisioning_Saga.thy ===== *)
theory Provisioning_Saga
  imports Apperr Forge_Prelude
begin

text \<open>
  \<^verbatim>\<open>internal/provisioning\<close>: the workflow that provisions a tenant environment as a saga, the
  activities it calls, and the in-memory provisioner behind them.

  The Temporal runtime is a parameter. \<open>tp_delivery n\<close> tells what becomes of the \<open>n\<close>-th attempt
  at an activity: it runs and reports its result, it is lost before it runs, it runs and its
  result is lost (both time out), or the workflow's context is cancelled, in which case the call
  returns without running anything. \<open>tp_error\<close> is how the runtime wraps an error. A failed or
  lost attempt is retried up to the retry policy's maximum. The history records, as Temporal's
  does, every activity scheduled and whether it completed.
\<close>

section \<open>Requests and results\<close>

record provision_tenant_input =
  pi_Slug :: string
  pi_MaxServices :: int

record provision_tenant_result =
  pr_Namespace :: string
  pr_Endpoint :: string

record namespace_request = nr_Slug :: string
record namespace_result = nr_Name :: string

record quota_request =
  qr_Slug :: string
  qr_MaxServices :: int

record dns_request = dr_Slug :: string
record dns_result = dr_FQDN :: string
record secret_request = sr_Slug :: string
record finalize_request = fr_Slug :: string

section \<open>The provisioner interface\<close>

type_synonym ('s, 'r) operation = "'s \<Rightarrow> (go_error + 'r) \<times> 's"

record 's provisioner =
  pv_CreateNamespace :: "string \<Rightarrow> ('s, string) operation"
  pv_DeleteNamespace :: "string \<Rightarrow> ('s, unit) operation"
  pv_ApplyQuota :: "string \<Rightarrow> int \<Rightarrow> ('s, unit) operation"
  pv_RemoveQuota :: "string \<Rightarrow> ('s, unit) operation"
  pv_RegisterDNS :: "string \<Rightarrow> ('s, string) operation"
  pv_DeregisterDNS :: "string \<Rightarrow> ('s, unit) operation"
  pv_CreateSecretPath :: "string \<Rightarrow> ('s, unit) operation"
  pv_DeleteSecretPath :: "string \<Rightarrow> ('s, unit) operation"
  pv_Finalize :: "string \<Rightarrow> ('s, unit) operation"

section \<open>Activities\<close>

definition Act_CreateNamespace :: "'s provisioner \<Rightarrow> namespace_request \<Rightarrow> ('s, namespace_result) operation" where
  "Act_CreateNamespace p inp s =
     (case pv_CreateNamespace p (nr_Slug inp) s of
        (Inl err, s') \<Rightarrow> (Inl err, s') | (Inr name, s') \<Rightarrow> (Inr \<lparr>nr_Name = name\<rparr>, s'))"

definition Act_DeleteNamespace :: "'s provisioner \<Rightarrow> namespace_request \<Rightarrow> ('s, unit) operation" where
  "Act_DeleteNamespace p inp = pv_DeleteNamespace p (nr_Slug inp)"

definition Act_ApplyQuota :: "'s provisioner \<Rightarrow> quota_request \<Rightarrow> ('s, unit) operation" where
  "Act_ApplyQuota p inp = pv_ApplyQuota p (qr_Slug inp) (qr_MaxServices inp)"

definition Act_RemoveQuota :: "'s provisioner \<Rightarrow> quota_request \<Rightarrow> ('s, unit) operation" where
  "Act_RemoveQuota p inp = pv_RemoveQuota p (qr_Slug inp)"

definition Act_RegisterDNS :: "'s provisioner \<Rightarrow> dns_request \<Rightarrow> ('s, dns_result) operation" where
  "Act_RegisterDNS p inp s =
     (case pv_RegisterDNS p (dr_Slug inp) s of
        (Inl err, s') \<Rightarrow> (Inl err, s') | (Inr fqdn, s') \<Rightarrow> (Inr \<lparr>dr_FQDN = fqdn\<rparr>, s'))"

definition Act_DeregisterDNS :: "'s provisioner \<Rightarrow> dns_request \<Rightarrow> ('s, unit) operation" where
  "Act_DeregisterDNS p inp = pv_DeregisterDNS p (dr_Slug inp)"

definition Act_CreateSecretPath :: "'s provisioner \<Rightarrow> secret_request \<Rightarrow> ('s, unit) operation" where
  "Act_CreateSecretPath p inp = pv_CreateSecretPath p (sr_Slug inp)"

definition Act_DeleteSecretPath :: "'s provisioner \<Rightarrow> secret_request \<Rightarrow> ('s, unit) operation" where
  "Act_DeleteSecretPath p inp = pv_DeleteSecretPath p (sr_Slug inp)"

definition Act_Finalize :: "'s provisioner \<Rightarrow> finalize_request \<Rightarrow> ('s, unit) operation" where
  "Act_Finalize p inp = pv_Finalize p (fr_Slug inp)"

section \<open>Running an activity\<close>

datatype activity =
    CreateNamespace | DeleteNamespace | ApplyQuota | RemoveQuota | RegisterDNS | DeregisterDNS
  | CreateSecretPath | DeleteSecretPath | Finalize

datatype delivery = Completed | Lost go_error | Unreported go_error | Canceled go_error

record temporal =
  tp_delivery :: "nat \<Rightarrow> delivery"
  tp_error :: "activity \<Rightarrow> go_error \<Rightarrow> go_error"

record 's run =
  rn_sys :: 's
  rn_attempts :: nat
  rn_history :: "(activity \<times> bool) list"

text \<open>The options of the workflow's activities: at most three attempts each.\<close>

definition MaximumAttempts :: nat where
  "MaximumAttempts = 3"

fun attempt :: "temporal \<Rightarrow> ('s, 'r) operation \<Rightarrow> nat \<Rightarrow> go_error \<Rightarrow> 's run \<Rightarrow> (go_error + 'r) \<times> 's run" where
  "attempt T f 0 err st = (Inl err, st)"
| "attempt T f (Suc n) err st =
     (let st' = st\<lparr>rn_attempts := Suc (rn_attempts st)\<rparr>
      in case tp_delivery T (rn_attempts st) of
           Canceled e \<Rightarrow> (Inl e, st')
         | Lost e \<Rightarrow> attempt T f n e st'
         | Unreported e \<Rightarrow> attempt T f n e (st'\<lparr>rn_sys := snd (f (rn_sys st))\<rparr>)
         | Completed \<Rightarrow>
             (case f (rn_sys st) of
                (Inl e, s) \<Rightarrow> attempt T f n e (st'\<lparr>rn_sys := s\<rparr>)
              | (Inr r, s) \<Rightarrow> (Inr r, st'\<lparr>rn_sys := s\<rparr>)))"

definition ExecuteActivity ::
    "temporal \<Rightarrow> activity \<Rightarrow> ('s, 'r) operation \<Rightarrow> 's run \<Rightarrow> (go_error + 'r) \<times> 's run" where
  "ExecuteActivity T a f st =
     (case attempt T f MaximumAttempts (OtherError ''not started'') st of
        (Inl err, st') \<Rightarrow> (Inl (tp_error T a err), st'\<lparr>rn_history := rn_history st' @ [(a, False)]\<rparr>)
      | (Inr r, st') \<Rightarrow> (Inr r, st'\<lparr>rn_history := rn_history st' @ [(a, True)]\<rparr>))"

section \<open>The saga\<close>

type_synonym 's compensation = "'s run \<Rightarrow> (go_error + unit) \<times> 's run"

record 's saga =
  compensations :: "'s compensation list"

definition newSaga :: "'s saga" where
  "newSaga = \<lparr>compensations = []\<rparr>"

definition addCompensation :: "'s compensation \<Rightarrow> 's saga \<Rightarrow> 's saga" where
  "addCompensation f sg = sg\<lparr>compensations := compensations sg @ [f]\<rparr>"

fun run_compensations :: "'s compensation list \<Rightarrow> 's run \<Rightarrow> 's run" where
  "run_compensations [] st = st"
| "run_compensations (c # cs) st = run_compensations cs (snd (c st))"

definition compensate :: "'s saga \<Rightarrow> go_error \<Rightarrow> 's run \<Rightarrow> go_error \<times> 's run" where
  "compensate sg cause st =
     (Errorf ''provisioning failed and was rolled back'' cause, run_compensations (rev (compensations sg)) st)"

definition rolled_back :: "'s saga \<Rightarrow> go_error \<Rightarrow> 's run \<Rightarrow> (go_error + 'r) \<times> 's run" where
  "rolled_back sg cause st = (case compensate sg cause st of (err, st') \<Rightarrow> (Inl err, st'))"

definition ProvisionTenantWorkflow ::
    "temporal \<Rightarrow> 's provisioner \<Rightarrow> provision_tenant_input \<Rightarrow> 's run \<Rightarrow> (go_error + provision_tenant_result) \<times> 's run" where
  "ProvisionTenantWorkflow T p inp st =
     (let slug = pi_Slug inp; saga0 = newSaga in
     (case ExecuteActivity T CreateNamespace (Act_CreateNamespace p \<lparr>nr_Slug = slug\<rparr>) st of
        (Inl err, st1) \<Rightarrow> (Inl err, st1)
      | (Inr ns, st1) \<Rightarrow>
     (let saga1 = addCompensation (ExecuteActivity T DeleteNamespace (Act_DeleteNamespace p \<lparr>nr_Slug = slug\<rparr>)) saga0 in
     (case ExecuteActivity T ApplyQuota
            (Act_ApplyQuota p \<lparr>qr_Slug = slug, qr_MaxServices = pi_MaxServices inp\<rparr>) st1 of
        (Inl err, st2) \<Rightarrow> rolled_back saga1 err st2
      | (Inr _, st2) \<Rightarrow>
     (let saga2 = addCompensation (ExecuteActivity T RemoveQuota
            (Act_RemoveQuota p \<lparr>qr_Slug = slug, qr_MaxServices = 0\<rparr>)) saga1 in
     (case ExecuteActivity T RegisterDNS (Act_RegisterDNS p \<lparr>dr_Slug = slug\<rparr>) st2 of
        (Inl err, st3) \<Rightarrow> rolled_back saga2 err st3
      | (Inr dns, st3) \<Rightarrow>
     (let saga3 = addCompensation (ExecuteActivity T DeregisterDNS (Act_DeregisterDNS p \<lparr>dr_Slug = slug\<rparr>)) saga2 in
     (case ExecuteActivity T CreateSecretPath (Act_CreateSecretPath p \<lparr>sr_Slug = slug\<rparr>) st3 of
        (Inl err, st4) \<Rightarrow> rolled_back saga3 err st4
      | (Inr _, st4) \<Rightarrow>
     (let saga4 = addCompensation (ExecuteActivity T DeleteSecretPath (Act_DeleteSecretPath p \<lparr>sr_Slug = slug\<rparr>)) saga3 in
     (case ExecuteActivity T Finalize (Act_Finalize p \<lparr>fr_Slug = slug\<rparr>) st4 of
        (Inl err, st5) \<Rightarrow> rolled_back saga4 err st5
      | (Inr _, st5) \<Rightarrow> (Inr \<lparr>pr_Namespace = nr_Name ns, pr_Endpoint = dr_FQDN dns\<rparr>, st5)))))))))))"

section \<open>The simulated provisioner\<close>

definition dnsZone :: string where
  "dnsZone = ''forge.example.com''"

record simulated =
  sp_namespaces :: "string \<rightharpoonup> bool"
  sp_quotas :: "string \<rightharpoonup> int"
  sp_dns :: "string \<rightharpoonup> bool"
  sp_secrets :: "string \<rightharpoonup> bool"
  sp_FailRegisterDNS :: bool

definition NewSimulatedProvisioner :: simulated where
  "NewSimulatedProvisioner = \<lparr>sp_namespaces = Map.empty, sp_quotas = Map.empty, sp_dns = Map.empty,
     sp_secrets = Map.empty, sp_FailRegisterDNS = False\<rparr>"

definition Sim_CreateNamespace :: "string \<Rightarrow> (simulated, string) operation" where
  "Sim_CreateNamespace slug p = (Inr (''tenant-'' @ slug), p\<lparr>sp_namespaces := (sp_namespaces p)(slug \<mapsto> True)\<rparr>)"

definition Sim_DeleteNamespace :: "string \<Rightarrow> (simulated, unit) operation" where
  "Sim_DeleteNamespace slug p = (Inr (), p\<lparr>sp_namespaces := (sp_namespaces p)(slug := None)\<rparr>)"

definition Sim_ApplyQuota :: "string \<Rightarrow> int \<Rightarrow> (simulated, unit) operation" where
  "Sim_ApplyQuota slug maxServices p = (Inr (), p\<lparr>sp_quotas := (sp_quotas p)(slug \<mapsto> maxServices)\<rparr>)"

definition Sim_RemoveQuota :: "string \<Rightarrow> (simulated, unit) operation" where
  "Sim_RemoveQuota slug p = (Inr (), p\<lparr>sp_quotas := (sp_quotas p)(slug := None)\<rparr>)"

text \<open>\<open>quote\<close> is the \<^verbatim>\<open>%q\<close> verb.\<close>

definition Sim_RegisterDNS :: "(string \<Rightarrow> string) \<Rightarrow> string \<Rightarrow> (simulated, string) operation" where
  "Sim_RegisterDNS quote slug p =
     (if sp_FailRegisterDNS p then (Inl (OtherError (''dns provider unavailable for '' @ quote slug)), p)
      else (Inr (slug @ ''.'' @ dnsZone), p\<lparr>sp_dns := (sp_dns p)(slug \<mapsto> True)\<rparr>))"

definition Sim_DeregisterDNS :: "string \<Rightarrow> (simulated, unit) operation" where
  "Sim_DeregisterDNS slug p = (Inr (), p\<lparr>sp_dns := (sp_dns p)(slug := None)\<rparr>)"

definition Sim_CreateSecretPath :: "string \<Rightarrow> (simulated, unit) operation" where
  "Sim_CreateSecretPath slug p = (Inr (), p\<lparr>sp_secrets := (sp_secrets p)(slug \<mapsto> True)\<rparr>)"

definition Sim_DeleteSecretPath :: "string \<Rightarrow> (simulated, unit) operation" where
  "Sim_DeleteSecretPath slug p = (Inr (), p\<lparr>sp_secrets := (sp_secrets p)(slug := None)\<rparr>)"

definition Sim_Finalize :: "string \<Rightarrow> (simulated, unit) operation" where
  "Sim_Finalize slug p = (Inr (), p)"

definition SimulatedProvisioner :: "(string \<Rightarrow> string) \<Rightarrow> simulated provisioner" where
  "SimulatedProvisioner quote =
     \<lparr>pv_CreateNamespace = Sim_CreateNamespace, pv_DeleteNamespace = Sim_DeleteNamespace,
      pv_ApplyQuota = Sim_ApplyQuota, pv_RemoveQuota = Sim_RemoveQuota,
      pv_RegisterDNS = Sim_RegisterDNS quote, pv_DeregisterDNS = Sim_DeregisterDNS,
      pv_CreateSecretPath = Sim_CreateSecretPath, pv_DeleteSecretPath = Sim_DeleteSecretPath,
      pv_Finalize = Sim_Finalize\<rparr>"

definition sp_has :: "(string \<rightharpoonup> bool) \<Rightarrow> string \<Rightarrow> bool" where
  "sp_has m slug = (case m slug of None \<Rightarrow> False | Some b \<Rightarrow> b)"

definition HasNamespace :: "simulated \<Rightarrow> string \<Rightarrow> bool" where
  "HasNamespace p slug = sp_has (sp_namespaces p) slug"

definition HasDNS :: "simulated \<Rightarrow> string \<Rightarrow> bool" where
  "HasDNS p slug = sp_has (sp_dns p) slug"

definition HasSecret :: "simulated \<Rightarrow> string \<Rightarrow> bool" where
  "HasSecret p slug = sp_has (sp_secrets p) slug"

definition HasQuota :: "simulated \<Rightarrow> string \<Rightarrow> bool" where
  "HasQuota p slug \<longleftrightarrow> sp_quotas p slug \<noteq> None"

section \<open>What an activity does to the system\<close>

text \<open>
  An operation acts as \<open>g\<close> on what is observed of the system when a call that succeeds has applied
  \<open>g\<close> and a call that fails has applied it or not.
\<close>

definition acts_as :: "('s \<Rightarrow> 'x) \<Rightarrow> ('x \<Rightarrow> 'x) \<Rightarrow> ('s, 'r) operation \<Rightarrow> bool" where
  "acts_as obs g f \<longleftrightarrow> (\<forall>s. obs (snd (f s)) \<in> {obs s, g (obs s)} \<and>
     (\<forall>r. fst (f s) = Inr r \<longrightarrow> obs (snd (f s)) = g (obs s)))"

definition idem :: "('x \<Rightarrow> 'x) \<Rightarrow> bool" where
  "idem g \<longleftrightarrow> (\<forall>x. g (g x) = g x)"

lemma idem_resource [simp]: "idem (insert r)" "idem (\<lambda>X. X - {r})" "idem id"
  by (auto simp: idem_def)

lemma acts_as_map:
  "acts_as obs g f \<Longrightarrow> acts_as obs g (\<lambda>s. case f s of (Inl err, s') \<Rightarrow> (Inl err, s') | (Inr v, s') \<Rightarrow> (Inr (h v), s'))"
  unfolding acts_as_def by (auto split: prod.split sum.split) (metis fst_conv snd_conv)+

lemma attempt_effect:
  assumes "acts_as obs g f" and "idem g" and "attempt T f n err st = (r, st')"
  shows "obs (rn_sys st') \<in> {obs (rn_sys st), g (obs (rn_sys st))}"
    and "r = Inr v \<Longrightarrow> obs (rn_sys st') = g (obs (rn_sys st))"
    and "rn_history st' = rn_history st"
    and "rn_attempts st \<le> rn_attempts st'" and "rn_attempts st' \<le> rn_attempts st + n"
proof -
  have f: "obs (snd (f s)) \<in> {obs s, g (obs s)}" "f s = (Inr v, s') \<Longrightarrow> obs s' = g (obs s)" for s s' v
    using assms(1) by (auto simp: acts_as_def) (metis fst_conv snd_conv)+
  have g: "g (g x) = g x" for x using assms(2) by (simp add: idem_def)
  have "obs (rn_sys st') \<in> {obs (rn_sys st), g (obs (rn_sys st))} \<and>
    (r = Inr v \<longrightarrow> obs (rn_sys st') = g (obs (rn_sys st))) \<and> rn_history st' = rn_history st \<and>
    rn_attempts st \<le> rn_attempts st' \<and> rn_attempts st' \<le> rn_attempts st + n"
    using assms(3)
  proof (induction n arbitrary: err st)
    case (Suc n)
    let ?next = "st\<lparr>rn_attempts := Suc (rn_attempts st)\<rparr>"
    have retry: ?case if "attempt T f n e (?next\<lparr>rn_sys := s\<rparr>) = (r, st')" "obs s \<in> {obs (rn_sys st), g (obs (rn_sys st))}" for e s
      using Suc.IH [OF that(1)] that(2) g by auto
    show ?case
    proof (cases "tp_delivery T (rn_attempts st)")
      case Completed
      show ?thesis
      proof (cases "f (rn_sys st)")
        case (Pair q s)
        then have "obs s \<in> {obs (rn_sys st), g (obs (rn_sys st))}" using f(1) [of "rn_sys st"] by simp
        with Suc.prems Completed Pair f(2) retry show ?thesis by (cases q) auto
      qed
    next
      case (Lost e)
      with Suc.prems show ?thesis by (intro retry [of e "rn_sys st"]) simp_all
    next
      case (Unreported e)
      with Suc.prems f(1) show ?thesis by (intro retry [of e "snd (f (rn_sys st))"]) simp_all
    qed (use Suc.prems in auto)
  qed auto
  then show "obs (rn_sys st') \<in> {obs (rn_sys st), g (obs (rn_sys st))}"
    and "r = Inr v \<Longrightarrow> obs (rn_sys st') = g (obs (rn_sys st))"
    and "rn_history st' = rn_history st"
    and "rn_attempts st \<le> rn_attempts st'" and "rn_attempts st' \<le> rn_attempts st + n" by simp_all
qed

lemma ExecuteActivity_effect:
  assumes "ExecuteActivity T a f st = (r, st')" and "acts_as obs g f" and "idem g"
  shows "rn_history st' = rn_history st @ [(a, \<not> isl r)]"
    and "obs (rn_sys st') \<in> {obs (rn_sys st), g (obs (rn_sys st))}"
    and "\<not> isl r \<Longrightarrow> obs (rn_sys st') = g (obs (rn_sys st))"
    and "rn_attempts st' \<le> rn_attempts st + MaximumAttempts"
proof -
  obtain q st1 where q: "attempt T f MaximumAttempts (OtherError ''not started'') st = (q, st1)" by fastforce
  note e = attempt_effect [OF assms(2,3) q]
  have st': "st' = st1\<lparr>rn_history := rn_history st1 @ [(a, \<not> isl r)]\<rparr>" "\<not> isl r \<longleftrightarrow> \<not> isl q"
    using assms(1) q by (auto simp: ExecuteActivity_def split: sum.splits)
  show "rn_history st' = rn_history st @ [(a, \<not> isl r)]"
    and "obs (rn_sys st') \<in> {obs (rn_sys st), g (obs (rn_sys st))}"
    and "rn_attempts st' \<le> rn_attempts st + MaximumAttempts"
    using st' e(1,3,5) by simp_all
  show "obs (rn_sys st') = g (obs (rn_sys st))" if "\<not> isl r"
    using that st' e(2) by (cases q) auto
qed

section \<open>Rolling back\<close>

datatype resource = R_Namespace | R_Quota | R_Dns | R_Secret

lemma run_compensations_effect:
  assumes "\<And>a f x. (a, f, x) \<in> set cs \<Longrightarrow> acts_as resources (\<lambda>X. X - {x}) f"
  shows "\<exists>oks. length oks = length cs \<and>
    rn_history (run_compensations (map (\<lambda>(a, f, x). ExecuteActivity T a f) cs) st) =
      rn_history st @ zip (map fst cs) oks \<and>
    (let Y = resources (rn_sys (run_compensations (map (\<lambda>(a, f, x). ExecuteActivity T a f) cs) st)) in
     Y \<subseteq> resources (rn_sys st) \<and> resources (rn_sys st) - (\<lambda>(a, f, x). x) ` set cs \<subseteq> Y \<and>
     ((\<forall>ok \<in> set oks. ok) \<longrightarrow> Y = resources (rn_sys st) - (\<lambda>(a, f, x). x) ` set cs))"
  using assms
proof (induction cs arbitrary: st)
  case (Cons c cs)
  obtain a f x where c: "c = (a, f, x)" by (cases c) auto
  obtain r st1 where e: "ExecuteActivity T a f st = (r, st1)" by fastforce
  have "acts_as resources (\<lambda>X. X - {x}) f" using Cons.prems [of a f x] c by simp
  note one = ExecuteActivity_effect [OF e this idem_resource(2)]
  obtain oks where oks: "length oks = length cs"
    "rn_history (run_compensations (map (\<lambda>(a, f, x). ExecuteActivity T a f) cs) st1) =
      rn_history st1 @ zip (map fst cs) oks"
    and Y: "let Y = resources (rn_sys (run_compensations (map (\<lambda>(a, f, x). ExecuteActivity T a f) cs) st1)) in
     Y \<subseteq> resources (rn_sys st1) \<and> resources (rn_sys st1) - (\<lambda>(a, f, x). x) ` set cs \<subseteq> Y \<and>
     ((\<forall>ok \<in> set oks. ok) \<longrightarrow> Y = resources (rn_sys st1) - (\<lambda>(a, f, x). x) ` set cs)"
    using Cons.IH [of st1] Cons.prems by (metis list.set_intros(2))
  show ?case
    using oks Y one e by (intro exI [of _ "(\<not> isl r) # oks"]) (auto simp: c Let_def)
qed (auto simp: Let_def)

definition saga_steps :: "activity list" where
  "saga_steps = [CreateNamespace, ApplyQuota, RegisterDNS, CreateSecretPath, Finalize]"

definition saga_undo :: "activity list" where
  "saga_undo = [DeleteNamespace, RemoveQuota, DeregisterDNS, DeleteSecretPath]"

definition saga_owned :: "resource list" where
  "saga_owned = [R_Namespace, R_Quota, R_Dns, R_Secret]"

text \<open>
  What a run of the saga that stopped at step \<open>k\<close> looks like: the steps before \<open>k\<close> completed, step
  \<open>k\<close> did not, and the compensations of the former ran in reverse order, each once. With all
  compensations completed nothing of the completed steps is left, and outside of step \<open>k\<close>'s own
  resource everything else is as before.
\<close>

definition stopped_at :: "nat \<Rightarrow> string \<Rightarrow> ('s \<Rightarrow> (string \<times> resource) set) \<Rightarrow> 's run \<Rightarrow> 's run \<Rightarrow> bool" where
  "stopped_at k slug resources st st' \<longleftrightarrow>
     (\<exists>oks. length oks = k \<and>
        rn_history st' = rn_history st @ map (\<lambda>a. (a, True)) (take k saga_steps) @ [(saga_steps ! k, False)] @
          zip (rev (take k saga_undo)) oks \<and>
        ((\<forall>ok \<in> set oks. ok) \<longrightarrow>
           resources (rn_sys st') \<inter> {slug} \<times> set (take k saga_owned) = {} \<and>
           resources (rn_sys st') - {slug} \<times> set (take (Suc k) saga_owned) =
           resources (rn_sys st) - {slug} \<times> set (take (Suc k) saga_owned)))"

definition progressed :: "nat \<Rightarrow> string \<Rightarrow> ('s \<Rightarrow> (string \<times> resource) set) \<Rightarrow> 's run \<Rightarrow> 's run \<Rightarrow> bool" where
  "progressed k slug resources st st' \<longleftrightarrow>
     rn_history st' = rn_history st @ map (\<lambda>a. (a, True)) (take k saga_steps) \<and>
     resources (rn_sys st') = resources (rn_sys st) \<union> {slug} \<times> set (take k saga_owned)"

section \<open>The contract of a provisioner\<close>

text \<open>
  What the saga relies on: each operation, repeated or not, adds or removes its one resource of its
  one tenant and touches nothing else.
\<close>

locale provisioner_contract =
  fixes p :: "'s provisioner" and resources :: "'s \<Rightarrow> (string \<times> resource) set"
  assumes create_namespace: "acts_as resources (insert (slug, R_Namespace)) (pv_CreateNamespace p slug)"
    and delete_namespace: "acts_as resources (\<lambda>X. X - {(slug, R_Namespace)}) (pv_DeleteNamespace p slug)"
    and apply_quota: "acts_as resources (insert (slug, R_Quota)) (pv_ApplyQuota p slug m)"
    and remove_quota: "acts_as resources (\<lambda>X. X - {(slug, R_Quota)}) (pv_RemoveQuota p slug)"
    and register_dns: "acts_as resources (insert (slug, R_Dns)) (pv_RegisterDNS p slug)"
    and deregister_dns: "acts_as resources (\<lambda>X. X - {(slug, R_Dns)}) (pv_DeregisterDNS p slug)"
    and create_secret: "acts_as resources (insert (slug, R_Secret)) (pv_CreateSecretPath p slug)"
    and delete_secret: "acts_as resources (\<lambda>X. X - {(slug, R_Secret)}) (pv_DeleteSecretPath p slug)"
    and finalize: "acts_as resources id (pv_Finalize p slug)"
begin

lemma activities:
  "acts_as resources (insert (slug, R_Namespace)) (Act_CreateNamespace p \<lparr>nr_Slug = slug\<rparr>)"
  "acts_as resources (insert (slug, R_Quota)) (Act_ApplyQuota p \<lparr>qr_Slug = slug, qr_MaxServices = m\<rparr>)"
  "acts_as resources (insert (slug, R_Dns)) (Act_RegisterDNS p \<lparr>dr_Slug = slug\<rparr>)"
  "acts_as resources (insert (slug, R_Secret)) (Act_CreateSecretPath p \<lparr>sr_Slug = slug\<rparr>)"
  "acts_as resources id (Act_Finalize p \<lparr>fr_Slug = slug\<rparr>)"
  "acts_as resources (\<lambda>X. X - {(slug, R_Namespace)}) (Act_DeleteNamespace p \<lparr>nr_Slug = slug\<rparr>)"
  "acts_as resources (\<lambda>X. X - {(slug, R_Quota)}) (Act_RemoveQuota p \<lparr>qr_Slug = slug, qr_MaxServices = m\<rparr>)"
  "acts_as resources (\<lambda>X. X - {(slug, R_Dns)}) (Act_DeregisterDNS p \<lparr>dr_Slug = slug\<rparr>)"
  "acts_as resources (\<lambda>X. X - {(slug, R_Secret)}) (Act_DeleteSecretPath p \<lparr>sr_Slug = slug\<rparr>)"
  using create_namespace [of slug, THEN acts_as_map] delete_namespace [of slug] apply_quota [of slug m]
    remove_quota [of slug] register_dns [of slug, THEN acts_as_map] deregister_dns [of slug]
    create_secret [of slug] delete_secret [of slug] finalize [of slug]
  by (simp_all add: Act_CreateNamespace_def [abs_def] Act_ApplyQuota_def Act_RegisterDNS_def [abs_def]
      Act_CreateSecretPath_def Act_Finalize_def Act_DeleteNamespace_def Act_RemoveQuota_def
      Act_DeregisterDNS_def Act_DeleteSecretPath_def)

lemma step_progress:
  assumes "progressed k slug resources st st1" and "ExecuteActivity T (saga_steps ! k) f st1 = (Inr v, st2)"
    and "acts_as resources (if k < 4 then insert (slug, saga_owned ! k) else id) f" and "k < 5"
  shows "progressed (Suc k) slug resources st st2"
proof -
  let ?g = "if k < 4 then insert (slug, saga_owned ! k) else id"
  have "idem ?g" by simp
  note e = ExecuteActivity_effect [OF assms(2,3) this]
  have "take (Suc k) saga_steps = take k saga_steps @ [saga_steps ! k]"
    using assms(4) by (intro take_Suc_conv_app_nth) (simp add: saga_steps_def)
  moreover have "set (take (Suc k) saga_owned) = (if k < 4 then insert (saga_owned ! k) (set (take k saga_owned)) else set saga_owned)"
  proof (cases "k < 4")
    case True
    then have "take (Suc k) saga_owned = take k saga_owned @ [saga_owned ! k]"
      by (intro take_Suc_conv_app_nth) (simp add: saga_owned_def)
    with True show ?thesis by simp
  qed (use assms(4) in \<open>simp add: saga_owned_def\<close>)
  ultimately show ?thesis
    using assms(1) e(1,3) by (auto simp: progressed_def saga_owned_def)
qed

lemma step_failure:
  assumes "progressed k slug resources st st1" and "ExecuteActivity T (saga_steps ! k) f st1 = (Inl err, st2)"
    and "acts_as resources (if k < 4 then insert (slug, saga_owned ! k) else id) f" and "k < 5"
    and "cs = take k [(DeleteNamespace, Act_DeleteNamespace p \<lparr>nr_Slug = slug\<rparr>, (slug, R_Namespace)),
       (RemoveQuota, Act_RemoveQuota p \<lparr>qr_Slug = slug, qr_MaxServices = 0\<rparr>, (slug, R_Quota)),
       (DeregisterDNS, Act_DeregisterDNS p \<lparr>dr_Slug = slug\<rparr>, (slug, R_Dns)),
       (DeleteSecretPath, Act_DeleteSecretPath p \<lparr>sr_Slug = slug\<rparr>, (slug, R_Secret))]"
    and "st' = run_compensations (map (\<lambda>(a, f, x). ExecuteActivity T a f) (rev cs)) st2"
  shows "stopped_at k slug resources st st'"
proof -
  have k: "k \<in> {0, 1, 2, 3, 4}" using assms(4) by auto
  have "idem (if k < 4 then insert (slug, saga_owned ! k) else id)" by simp
  note e = ExecuteActivity_effect [OF assms(2,3) this]
  have undo: "acts_as resources (\<lambda>X. X - {x}) f" if "(a, f, x) \<in> set (rev cs)" for a f x
    using that activities(6-9) assms(5) by (auto dest!: in_set_takeD)
  obtain oks where oks: "length oks = length cs"
    "rn_history st' = rn_history st2 @ zip (map fst (rev cs)) oks"
    "(\<forall>ok \<in> set oks. ok) \<longrightarrow> resources (rn_sys st') = resources (rn_sys st2) - (\<lambda>(a, f, x). x) ` set cs"
    unfolding assms(6)
    by (rule exE [OF run_compensations_effect [where cs = "rev cs" and T = T and st = st2 and resources = resources]])
      (rule undo, simp, fastforce simp: Let_def)
  have "map fst (rev cs) = rev (take k saga_undo)" "(\<lambda>(a, f, x). x) ` set cs = {slug} \<times> set (take k saga_owned)"
    "length cs = k"
    using k unfolding assms(5) by (auto simp: saga_undo_def saga_owned_def numeral_eq_Suc)
  moreover have "resources (rn_sys st2) - {slug} \<times> set (take (Suc k) saga_owned) =
      resources (rn_sys st) - {slug} \<times> set (take (Suc k) saga_owned)"
    "set (take k saga_owned) \<subseteq> set (take (Suc k) saga_owned)"
    using k e(2) assms(1) by (auto simp: progressed_def saga_owned_def numeral_eq_Suc)
  ultimately show ?thesis
    unfolding stopped_at_def using oks e(1) assms(1) 
    by (intro exI [of _ oks]) (auto simp: progressed_def)
qed

text \<open>One step of the workflow: it completes and the rest runs, or it stops the workflow there.\<close>

lemma saga_step:
  assumes "(case ExecuteActivity T a f st1 of (Inl err, st2) \<Rightarrow> undo err st2 | (Inr v, st2) \<Rightarrow> rest v st2) = (r, st')"
    and "progressed k slug resources st st1" and "acts_as resources g f"
    and "k < 5 \<and> a = saga_steps ! k \<and> g = (if k < 4 then insert (slug, saga_owned ! k) else id)"
    and "\<forall>err st2. isl (fst (undo err st2)) \<and> snd (undo err st2) =
      run_compensations (map (\<lambda>(a, f, x). ExecuteActivity T a f) (rev (take k
       [(DeleteNamespace, Act_DeleteNamespace p \<lparr>nr_Slug = slug\<rparr>, (slug, R_Namespace)),
        (RemoveQuota, Act_RemoveQuota p \<lparr>qr_Slug = slug, qr_MaxServices = 0\<rparr>, (slug, R_Quota)),
        (DeregisterDNS, Act_DeregisterDNS p \<lparr>dr_Slug = slug\<rparr>, (slug, R_Dns)),
        (DeleteSecretPath, Act_DeleteSecretPath p \<lparr>sr_Slug = slug\<rparr>, (slug, R_Secret))]))) st2"
    and "isl r \<Longrightarrow> k < 5 \<Longrightarrow> stopped_at k slug resources st st' \<Longrightarrow> thesis"
    and "\<And>v st2. rest v st2 = (r, st') \<Longrightarrow> progressed (Suc k) slug resources st st2 \<Longrightarrow> thesis"
  shows thesis
proof (cases "ExecuteActivity T a f st1")
  case (Pair r1 st2)
  note acts = assms(3) [unfolded conjunct2 [OF conjunct2 [OF assms(4)]]]
  show thesis
  proof (cases r1)
    case (Inl err)
    with Pair assms(1) have u: "undo err st2 = (r, st')" by simp
    have "stopped_at k slug resources st st'"
      using step_failure [OF assms(2) _ acts _ refl refl] Pair Inl u assms(4,5) by (metis snd_conv)
    then show thesis using assms(4,5,6) u by (metis fst_conv)
  next
    case (Inr v)
    with Pair assms(1,4) show thesis
      by (intro assms(7) [OF _ step_progress [OF assms(2) _ acts]]) auto
  qed
qed

lemma workflow_outcome:
  assumes "ProvisionTenantWorkflow T p inp st = (r, st')"
  shows "case r of
      Inl err \<Rightarrow> \<exists>k < 5. stopped_at k (pi_Slug inp) resources st st'
    | Inr res \<Rightarrow> progressed 5 (pi_Slug inp) resources st st'" (is ?outcome)
proof -
  have start: "progressed 0 (pi_Slug inp) resources st st" by (simp add: progressed_def)
  have stop: ?outcome if "isl r" "k < 5" "stopped_at k (pi_Slug inp) resources st st'" for k
    using that by (auto split: sum.split)
  note saga = newSaga_def addCompensation_def rolled_back_def compensate_def saga_steps_def saga_owned_def
  show ?outcome
    apply (rule saga_step [OF assms [unfolded ProvisionTenantWorkflow_def Let_def] start activities(1)],
        (simp_all add: saga)[2], erule (2) stop)
    apply (erule saga_step, assumption, rule activities(2-5), (simp_all add: saga numeral_eq_Suc)[2], erule (2) stop)+
    apply (auto simp: numeral_eq_Suc)
    done
qed

end

section \<open>The simulated provisioner keeps the contract\<close>

definition sim_has :: "simulated \<Rightarrow> string \<times> resource \<Rightarrow> bool" where
  "sim_has s tx = (case snd tx of
     R_Namespace \<Rightarrow> HasNamespace s (fst tx) | R_Quota \<Rightarrow> HasQuota s (fst tx)
   | R_Dns \<Rightarrow> HasDNS s (fst tx) | R_Secret \<Rightarrow> HasSecret s (fst tx))"

definition sim_resources :: "simulated \<Rightarrow> (string \<times> resource) set" where
  "sim_resources s = {tx. sim_has s tx}"

lemmas sim_defs = Sim_CreateNamespace_def Sim_DeleteNamespace_def Sim_ApplyQuota_def Sim_RemoveQuota_def
  Sim_RegisterDNS_def Sim_DeregisterDNS_def Sim_CreateSecretPath_def Sim_DeleteSecretPath_def Sim_Finalize_def

lemma acts_as_simulated:
  assumes "\<And>s. snd (f s) = s \<and> isl (fst (f s)) \<or> (\<forall>tx. sim_has (snd (f s)) tx \<longleftrightarrow> tx \<in> g (sim_resources s))"
  shows "acts_as sim_resources g f"
proof -
  have "isl (fst (f s)) \<and> snd (f s) = s \<or> sim_resources (snd (f s)) = g (sim_resources s)" for s
    using assms [of s] by (auto simp: sim_resources_def)
  then show ?thesis unfolding acts_as_def by (metis insertCI isl_def sum.disc(2))
qed

interpretation sim: provisioner_contract "SimulatedProvisioner quote" sim_resources for quote
  by unfold_locales
    (rule acts_as_simulated; auto simp: SimulatedProvisioner_def sim_defs sim_resources_def sim_has_def
      HasNamespace_def HasQuota_def HasDNS_def HasSecret_def sp_has_def split: resource.splits if_splits)+

section \<open>Dependable delivery\<close>

text \<open>
  Delivery is dependable when of any three attempts in a row one runs and reports, with only lost
  or unreported ones before it.
\<close>

definition dependable :: "temporal \<Rightarrow> bool" where
  "dependable T \<longleftrightarrow> (\<forall>n. \<exists>i < MaximumAttempts. tp_delivery T (n + i) = Completed \<and>
     (\<forall>j < i. \<exists>e. tp_delivery T (n + j) \<in> {Lost e, Unreported e}))"

lemma attempt_dependable:
  assumes "\<And>s. P s \<Longrightarrow> fst (f s) = Inr v \<and> P (snd (f s))" and "P (rn_sys st)" and "i < n"
    and "tp_delivery T (rn_attempts st + i) = Completed"
    and "\<forall>j < i. \<exists>e. tp_delivery T (rn_attempts st + j) \<in> {Lost e, Unreported e}"
  shows "\<exists>st'. attempt T f n err st = (Inr v, st') \<and> P (rn_sys st')"
  using assms(2-5)
proof (induction i arbitrary: n err st)
  case 0
  obtain m where "n = Suc m" using 0(2) by (cases n) auto
  moreover obtain s where "f (rn_sys st) = (Inr v, s)" "P s"
    using assms(1) [OF 0(1)] by (metis prod.collapse)
  ultimately show ?case using 0(3) by (simp add: Let_def)
next
  case (Suc i)
  obtain m where m: "n = Suc m" "i < m" using Suc.prems(2) by (cases n) auto
  have "\<forall>j < i. \<exists>e. tp_delivery T (Suc (rn_attempts st) + j) \<in> {Lost e, Unreported e}"
    using Suc.prems(4) by (metis Suc_mono add_Suc add_Suc_right)
  then have next_ok: "\<exists>st'. attempt T f m e (st\<lparr>rn_attempts := Suc (rn_attempts st), rn_sys := s\<rparr>) = (Inr v, st') \<and> P (rn_sys st')"
    if "P s" for e s
    using Suc.IH [of "st\<lparr>rn_attempts := Suc (rn_attempts st), rn_sys := s\<rparr>" m e] that m Suc.prems(3) by auto
  obtain e where "tp_delivery T (rn_attempts st) \<in> {Lost e, Unreported e}"
    using Suc.prems(4) by (metis add_0_right zero_less_Suc)
  then show ?case
    using m next_ok [of "rn_sys st" e] next_ok [of "snd (f (rn_sys st))" e] assms(1) Suc.prems(1)
    by (auto simp: Let_def)
qed

lemma ExecuteActivity_dependable:
  assumes "dependable T" and "\<And>s. P s \<Longrightarrow> fst (f s) = Inr v \<and> P (snd (f s))" and "P (rn_sys st)"
  obtains st' where "ExecuteActivity T a f st = (Inr v, st')" and "P (rn_sys st')"
proof -
  obtain i where "i < MaximumAttempts" "tp_delivery T (rn_attempts st + i) = Completed"
    "\<forall>j < i. \<exists>e. tp_delivery T (rn_attempts st + j) \<in> {Lost e, Unreported e}"
    using assms(1) by (auto simp: dependable_def)
  then obtain st1 where
    "attempt T f MaximumAttempts (OtherError ''not started'') st = (Inr v, st1)" "P (rn_sys st1)"
    using attempt_dependable [where P = P and f = f and v = v and st = st] assms(2,3) by metis
  then show ?thesis
    by (intro that [of "st1\<lparr>rn_history := rn_history st1 @ [(a, True)]\<rparr>"]) (auto simp: ExecuteActivity_def)
qed

lemma sim_results:
  "fst (Act_CreateNamespace (SimulatedProvisioner quote) \<lparr>nr_Slug = slug\<rparr> s) = Inr \<lparr>nr_Name = ''tenant-'' @ slug\<rparr>"
  "fst (Act_ApplyQuota (SimulatedProvisioner quote) \<lparr>qr_Slug = slug, qr_MaxServices = m\<rparr> s) = Inr ()"
  "\<not> sp_FailRegisterDNS s \<Longrightarrow>
     fst (Act_RegisterDNS (SimulatedProvisioner quote) \<lparr>dr_Slug = slug\<rparr> s) = Inr \<lparr>dr_FQDN = slug @ ''.'' @ dnsZone\<rparr>"
  "fst (Act_CreateSecretPath (SimulatedProvisioner quote) \<lparr>sr_Slug = slug\<rparr> s) = Inr ()"
  "fst (Act_Finalize (SimulatedProvisioner quote) \<lparr>fr_Slug = slug\<rparr> s) = Inr ()"
  by (simp_all add: Act_CreateNamespace_def Act_ApplyQuota_def Act_RegisterDNS_def Act_CreateSecretPath_def
      Act_Finalize_def SimulatedProvisioner_def sim_defs)

lemma sim_keeps_flag:
  "sp_FailRegisterDNS (snd (Act_CreateNamespace (SimulatedProvisioner quote) n s)) = sp_FailRegisterDNS s"
  "sp_FailRegisterDNS (snd (Act_ApplyQuota (SimulatedProvisioner quote) q s)) = sp_FailRegisterDNS s"
  "sp_FailRegisterDNS (snd (Act_RegisterDNS (SimulatedProvisioner quote) d s)) = sp_FailRegisterDNS s"
  "sp_FailRegisterDNS (snd (Act_CreateSecretPath (SimulatedProvisioner quote) c s)) = sp_FailRegisterDNS s"
  "sp_FailRegisterDNS (snd (Act_Finalize (SimulatedProvisioner quote) f s)) = sp_FailRegisterDNS s"
  by (simp_all add: Act_CreateNamespace_def Act_ApplyQuota_def Act_RegisterDNS_def Act_CreateSecretPath_def
      Act_Finalize_def SimulatedProvisioner_def sim_defs)

section \<open>Properties\<close>

definition example_temporal :: "(nat \<Rightarrow> delivery) \<Rightarrow> temporal" where
  "example_temporal d = \<lparr>tp_delivery = d, tp_error = (\<lambda>a e. e)\<rparr>"

definition example_run :: "simulated run" where
  "example_run = \<lparr>rn_sys = NewSimulatedProvisioner, rn_attempts = 0, rn_history = []\<rparr>"

text \<open>
  C22: The saga provisions everything or rolls back. However attempts are delivered, a run that
  succeeds has completed the five steps in order and the tenant has all four resources, every
  other tenant's being untouched. A run that fails stopped at one step, has run the
  compensations of exactly the completed steps in reverse order, each once and whether or not
  one of them failed, and, if none failed, has left nothing of the completed steps and changed
  nothing beyond them but possibly the resource of the very step that failed.
\<close>

theorem provision_all_or_rolled_back:
  assumes "ProvisionTenantWorkflow T (SimulatedProvisioner quote) inp st = (r, st')"
  shows "case r of
      Inr res \<Rightarrow> rn_history st' = rn_history st @ map (\<lambda>a. (a, True)) saga_steps \<and>
        sim_resources (rn_sys st') = sim_resources (rn_sys st) \<union> {pi_Slug inp} \<times> set saga_owned
    | Inl err \<Rightarrow> \<exists>k < 5. stopped_at k (pi_Slug inp) sim_resources st st'"
  using sim.workflow_outcome [OF assms]
  by (auto simp: progressed_def saga_steps_def saga_owned_def split: sum.splits)

theorem provision_all_or_rolled_back_witness:
  "\<exists>err st'. ProvisionTenantWorkflow (example_temporal (\<lambda>n. if n = 1 then Canceled (OtherError ''canceled'') else Completed))
      (SimulatedProvisioner id) \<lparr>pi_Slug = ''acme'', pi_MaxServices = 10\<rparr> example_run = (Inl err, st') \<and>
    (\<exists>k < 5. stopped_at k ''acme'' sim_resources example_run st')"
proof -
  let ?T = "example_temporal (\<lambda>n. if n = 1 then Canceled (OtherError ''canceled'') else Completed)"
  let ?inp = "\<lparr>pi_Slug = ''acme'', pi_MaxServices = 10\<rparr>"
  obtain r st' where w: "ProvisionTenantWorkflow ?T (SimulatedProvisioner id) ?inp example_run = (r, st')" by fastforce
  moreover have "isl (fst (ProvisionTenantWorkflow ?T (SimulatedProvisioner id) ?inp example_run))" by code_simp
  ultimately obtain err where "r = Inl err" by (auto simp: isl_def)
  with w provision_all_or_rolled_back [OF w] show ?thesis by auto
qed

text \<open>
  C23: Provisioning gets through an unreliable network. When of any three attempts one runs and
  reports, whatever the others do before it, and the DNS provider is up, the workflow succeeds
  with the tenant's namespace and endpoint: lost attempts are retried and repeated ones are
  harmless.
\<close>

theorem provision_succeeds:
  assumes "dependable T" and "\<not> sp_FailRegisterDNS (rn_sys st)"
  shows "\<exists>st'. ProvisionTenantWorkflow T (SimulatedProvisioner quote) inp st =
      (Inr \<lparr>pr_Namespace = ''tenant-'' @ pi_Slug inp, pr_Endpoint = pi_Slug inp @ ''.forge.example.com''\<rparr>, st') \<and>
    HasNamespace (rn_sys st') (pi_Slug inp) \<and> HasQuota (rn_sys st') (pi_Slug inp) \<and>
    HasDNS (rn_sys st') (pi_Slug inp) \<and> HasSecret (rn_sys st') (pi_Slug inp)"
proof -
  note go = ExecuteActivity_dependable [OF assms(1), where P = "\<lambda>s. \<not> sp_FailRegisterDNS s"]
  note facts = sim_results [where quote = quote] sim_keeps_flag [where quote = quote]
  let ?p = "SimulatedProvisioner quote"
  obtain st1 where 1: "ExecuteActivity T CreateNamespace (Act_CreateNamespace ?p \<lparr>nr_Slug = pi_Slug inp\<rparr>) st =
      (Inr \<lparr>nr_Name = ''tenant-'' @ pi_Slug inp\<rparr>, st1)" "\<not> sp_FailRegisterDNS (rn_sys st1)"
    using go [where f = "Act_CreateNamespace ?p \<lparr>nr_Slug = pi_Slug inp\<rparr>" and v = "\<lparr>nr_Name = ''tenant-'' @ pi_Slug inp\<rparr>", OF _ assms(2)] by (auto simp only: facts)
  obtain st2 where 2: "ExecuteActivity T ApplyQuota
      (Act_ApplyQuota ?p \<lparr>qr_Slug = pi_Slug inp, qr_MaxServices = pi_MaxServices inp\<rparr>) st1 = (Inr (), st2)"
      "\<not> sp_FailRegisterDNS (rn_sys st2)"
    using go [where f = "Act_ApplyQuota ?p \<lparr>qr_Slug = pi_Slug inp, qr_MaxServices = pi_MaxServices inp\<rparr>" and v = "()", OF _ 1(2)] by (auto simp only: facts)
  obtain st3 where 3: "ExecuteActivity T RegisterDNS (Act_RegisterDNS ?p \<lparr>dr_Slug = pi_Slug inp\<rparr>) st2 =
      (Inr \<lparr>dr_FQDN = pi_Slug inp @ ''.'' @ dnsZone\<rparr>, st3)" "\<not> sp_FailRegisterDNS (rn_sys st3)"
    using go [where f = "Act_RegisterDNS ?p \<lparr>dr_Slug = pi_Slug inp\<rparr>" and v = "\<lparr>dr_FQDN = pi_Slug inp @ ''.'' @ dnsZone\<rparr>", OF _ 2(2)] by (auto simp only: facts simp_thms)
  obtain st4 where 4: "ExecuteActivity T CreateSecretPath (Act_CreateSecretPath ?p \<lparr>sr_Slug = pi_Slug inp\<rparr>) st3 = (Inr (), st4)"
      "\<not> sp_FailRegisterDNS (rn_sys st4)"
    using go [where f = "Act_CreateSecretPath ?p \<lparr>sr_Slug = pi_Slug inp\<rparr>" and v = "()", OF _ 3(2)] by (auto simp only: facts)
  obtain st5 where 5: "ExecuteActivity T Finalize (Act_Finalize ?p \<lparr>fr_Slug = pi_Slug inp\<rparr>) st4 = (Inr (), st5)"
    using go [where f = "Act_Finalize ?p \<lparr>fr_Slug = pi_Slug inp\<rparr>" and v = "()", OF _ 4(2)] by (auto simp only: facts)
  have w: "ProvisionTenantWorkflow T ?p inp st =
      (Inr \<lparr>pr_Namespace = ''tenant-'' @ pi_Slug inp, pr_Endpoint = pi_Slug inp @ ''.forge.example.com''\<rparr>, st5)"
    using 1(1) 2(1) 3(1) 4(1) 5 by (simp add: ProvisionTenantWorkflow_def Let_def dnsZone_def)
  have "{pi_Slug inp} \<times> set saga_owned \<subseteq> sim_resources (rn_sys st5)"
    using sim.workflow_outcome [OF w] by (auto simp: progressed_def saga_owned_def)
  with w show ?thesis by (auto simp: sim_resources_def sim_has_def saga_owned_def)
qed

lemma example_dependable: "dependable (example_temporal (\<lambda>n. if even n then Unreported (OtherError ''timeout'') else Completed))"
  unfolding dependable_def
proof
  fix n :: nat
  let ?T = "example_temporal (\<lambda>n. if even n then Unreported (OtherError ''timeout'') else Completed)"
  show "\<exists>i < MaximumAttempts. tp_delivery ?T (n + i) = Completed \<and>
      (\<forall>j < i. \<exists>e. tp_delivery ?T (n + j) \<in> {Lost e, Unreported e})"
    by (rule exI [of _ "if even n then 1 else 0"]) (auto simp: example_temporal_def MaximumAttempts_def)
qed

theorem provision_succeeds_witness:
  "\<exists>st'. ProvisionTenantWorkflow (example_temporal (\<lambda>n. if even n then Unreported (OtherError ''timeout'') else Completed))
      (SimulatedProvisioner id) \<lparr>pi_Slug = ''acme'', pi_MaxServices = 10\<rparr> example_run =
      (Inr \<lparr>pr_Namespace = ''tenant-acme'', pr_Endpoint = ''acme.forge.example.com''\<rparr>, st') \<and>
    HasNamespace (rn_sys st') ''acme'' \<and> HasQuota (rn_sys st') ''acme'' \<and>
    HasDNS (rn_sys st') ''acme'' \<and> HasSecret (rn_sys st') ''acme''"
  using provision_succeeds [OF example_dependable, of example_run id "\<lparr>pi_Slug = ''acme'', pi_MaxServices = 10\<rparr>"]
  by (simp add: example_run_def NewSimulatedProvisioner_def)

text \<open>Of the simulated provisioner the whole state can be observed.\<close>

lemma ExecuteActivity_total:
  assumes "dependable T" and "\<And>s. f s = (Inr v, g s)" and "\<And>s. g (g s) = g s"
  obtains st' where "ExecuteActivity T a f st = (Inr v, st')" and "rn_sys st' = g (rn_sys st)"
proof -
  obtain st' where e: "ExecuteActivity T a f st = (Inr v, st')"
    using ExecuteActivity_dependable [OF assms(1), where P = "\<lambda>s. True" and f = f and v = v] assms(2) by auto
  have "acts_as id g f" "idem g" using assms(2,3) by (auto simp: acts_as_def idem_def)
  from ExecuteActivity_effect(3) [OF e this] have "rn_sys st' = g (rn_sys st)" by simp
  with e show ?thesis by (rule that)
qed

lemma attempt_failing:
  assumes "\<And>s. P s \<Longrightarrow> \<exists>e. f s = (Inl e, s)" and "P (rn_sys st)" and "attempt T f n err st = (r, st')"
  shows "isl r \<and> rn_sys st' = rn_sys st"
  using assms(2,3)
proof (induction n arbitrary: err st)
  case (Suc n)
  obtain e where "f (rn_sys st) = (Inl e, rn_sys st)" using assms(1) Suc.prems(1) by blast
  moreover have ?case if "attempt T f n e' (st\<lparr>rn_attempts := m, rn_sys := rn_sys st\<rparr>) = (r, st')" for e' m
    using Suc.IH [OF _ that] Suc.prems(1) by simp
  ultimately show ?case
    using Suc.prems(2) by (cases "tp_delivery T (rn_attempts st)") (auto simp: Let_def)
qed auto

lemma ExecuteActivity_failing:
  assumes "\<And>s. P s \<Longrightarrow> \<exists>e. f s = (Inl e, s)" and "P (rn_sys st)"
  obtains e st' where "ExecuteActivity T a f st = (Inl e, st')" and "rn_sys st' = rn_sys st"
proof -
  obtain r st1 where a: "attempt T f MaximumAttempts (OtherError ''not started'') st = (r, st1)" by fastforce
  obtain e where "r = Inl e" "rn_sys st1 = rn_sys st"
    using attempt_failing [where P = P, OF _ assms(2) a] assms(1) by (auto simp: isl_def)
  with a show ?thesis
    by (intro that [of "tp_error T a e" "st1\<lparr>rn_history := rn_history st1 @ [(a, False)]\<rparr>"]) (simp_all add: ExecuteActivity_def)
qed



text \<open>
  C25: Cancelling a run defeats its rollback. When the workflow is cancelled after the namespace
  was created, the compensations run on the cancelled context and none of them is executed: the
  workflow reports that it was rolled back and the namespace is still there.
\<close>

theorem cancelled_run_not_rolled_back:
  assumes "tp_delivery T (rn_attempts st) = Completed"
    and "\<And>n. rn_attempts st < n \<Longrightarrow> \<exists>e. tp_delivery T n = Canceled e"
  shows "\<exists>err st'. ProvisionTenantWorkflow T (SimulatedProvisioner quote) inp st =
      (Inl (Errorf ''provisioning failed and was rolled back'' err), st') \<and>
    HasNamespace (rn_sys st') (pi_Slug inp)"
proof -
  let ?p = "SimulatedProvisioner quote" and ?slug = "pi_Slug inp"
  have cancelled: "\<exists>e st''. ExecuteActivity T a f st' = (Inl e, st'') \<and> rn_sys st'' = rn_sys st' \<and>
      rn_attempts st < rn_attempts st''"
    if "rn_attempts st < rn_attempts st'" for st' a and f :: "(simulated, unit) operation"
    using assms(2) [OF that] that by (auto simp: ExecuteActivity_def MaximumAttempts_def numeral_3_eq_3)
  obtain st1 where 1: "ExecuteActivity T CreateNamespace (Act_CreateNamespace ?p \<lparr>nr_Slug = ?slug\<rparr>) st =
      (Inr \<lparr>nr_Name = ''tenant-'' @ ?slug\<rparr>, st1)" "HasNamespace (rn_sys st1) ?slug" "rn_attempts st < rn_attempts st1"
    using assms(1) by (auto simp: ExecuteActivity_def MaximumAttempts_def numeral_3_eq_3 Act_CreateNamespace_def
        SimulatedProvisioner_def Sim_CreateNamespace_def HasNamespace_def sp_has_def)
  obtain e2 st2 where 2: "ExecuteActivity T ApplyQuota
      (Act_ApplyQuota ?p \<lparr>qr_Slug = ?slug, qr_MaxServices = pi_MaxServices inp\<rparr>) st1 = (Inl e2, st2)"
    "rn_sys st2 = rn_sys st1" "rn_attempts st < rn_attempts st2"
    using cancelled [OF 1(3)] by blast
  obtain e3 st3 where "ExecuteActivity T DeleteNamespace (Act_DeleteNamespace ?p \<lparr>nr_Slug = ?slug\<rparr>) st2 = (Inl e3, st3)"
    "rn_sys st3 = rn_sys st2"
    using cancelled [OF 2(3)] by blast
  with 1 2 show ?thesis
    by (simp add: ProvisionTenantWorkflow_def Let_def rolled_back_def compensate_def addCompensation_def newSaga_def)
qed

theorem cancelled_run_not_rolled_back_witness:
  "\<exists>err st'. ProvisionTenantWorkflow (example_temporal (\<lambda>n. if n = 0 then Completed else Canceled (OtherError ''canceled'')))
      (SimulatedProvisioner id) \<lparr>pi_Slug = ''acme'', pi_MaxServices = 10\<rparr> example_run =
      (Inl (Errorf ''provisioning failed and was rolled back'' err), st') \<and>
    HasNamespace (rn_sys st') ''acme''"
  using cancelled_run_not_rolled_back [of "example_temporal (\<lambda>n. if n = 0 then Completed else Canceled (OtherError ''canceled''))"
      example_run id "\<lparr>pi_Slug = ''acme'', pi_MaxServices = 10\<rparr>"]
  by (simp add: example_temporal_def example_run_def)

end
