(* ===== verification/Go_Memory.thy ===== *)
theory Go_Memory
  imports Forge_Prelude
begin

text \<open>
  Go's memory as far as copies are concerned. Cells hold arrays, and a variable made with
  \<^verbatim>\<open>new\<close> is an array of length one; a slice is a window of an array and a pointer names an element
  of one. The locale \<open>deep_copy\<close> is the contract of a \<^verbatim>\<open>DeepCopyInto\<close> method: the copy denotes what
  the original does, only new cells are written, and only new cells are reachable from the copy.
  Structs, slices and pointers keep the contract (\<open>deep_both\<close>, \<open>deep_field\<close>, \<open>deep_slice\<close>,
  \<open>deep_pointer\<close>), so the methods of \<^verbatim>\<open>api/v1alpha1\<close> get it from their fields.
\<close>

section \<open>Memory\<close>

type_synonym addr = nat

record 'c memory =
  mm_next :: addr
  mm_cells :: "addr \<rightharpoonup> 'c"

definition mem_ok :: "'c memory \<Rightarrow> bool" where
  "mem_ok m \<longleftrightarrow> (\<forall>a \<in> dom (mm_cells m). a < mm_next m)"

definition allocate :: "'c \<Rightarrow> 'c memory \<Rightarrow> addr \<times> 'c memory" where
  "allocate c m = (mm_next m, m\<lparr>mm_next := Suc (mm_next m), mm_cells := (mm_cells m)(mm_next m \<mapsto> c)\<rparr>)"

definition store_at :: "addr \<Rightarrow> 'c \<Rightarrow> 'c memory \<Rightarrow> 'c memory" where
  "store_at a c m = m\<lparr>mm_cells := (mm_cells m)(a \<mapsto> c)\<rparr>"

record slice =
  sl_array :: addr
  sl_off :: nat
  sl_len :: nat

type_synonym pointer = "addr \<times> nat"

definition elements :: "('c \<Rightarrow> 'e list option) \<Rightarrow> 'c memory \<Rightarrow> slice \<Rightarrow> 'e list option" where
  "elements un m s =
     (case mm_cells m (sl_array s) of
        None \<Rightarrow> None
      | Some c \<Rightarrow> (case un c of
          None \<Rightarrow> None
        | Some xs \<Rightarrow> (if sl_off s + sl_len s \<le> length xs then Some (take (sl_len s) (drop (sl_off s) xs)) else None)))"

fun copy_all :: "('e \<Rightarrow> 'c memory \<Rightarrow> 'e \<times> 'c memory) \<Rightarrow> 'e list \<Rightarrow> 'c memory \<Rightarrow> 'e list \<times> 'c memory" where
  "copy_all f [] m = ([], m)"
| "copy_all f (x # xs) m =
     (case f x m of (y, m1) \<Rightarrow> (case copy_all f xs m1 of (ys, m2) \<Rightarrow> (y # ys, m2)))"

text \<open>
  A slice that is not nil is copied by making an array of its length and copying each element into
  its place: \<open>f\<close> copies an element, \<open>mk\<close> and \<open>un\<close> are the cells of the element type. A slice out of
  bounds does not occur in Go.
\<close>

definition copy_slice ::
    "('e list \<Rightarrow> 'c) \<Rightarrow> ('c \<Rightarrow> 'e list option) \<Rightarrow> 'e \<Rightarrow> ('e \<Rightarrow> 'c memory \<Rightarrow> 'e \<times> 'c memory) \<Rightarrow>
     slice option \<Rightarrow> 'c memory \<Rightarrow> slice option \<times> 'c memory" where
  "copy_slice mk un zero f s m =
     (case s of
        None \<Rightarrow> (None, m)
      | Some s \<Rightarrow> (case elements un m s of
          None \<Rightarrow> (None, m)
        | Some xs \<Rightarrow>
            (case allocate (mk (replicate (sl_len s) zero)) m of (a, m1) \<Rightarrow>
            (case copy_all f xs m1 of (ys, m2) \<Rightarrow>
              (Some \<lparr>sl_array = a, sl_off = 0, sl_len = sl_len s\<rparr>, store_at a (mk ys) m2)))))"

text \<open>A pointer that is not nil: a new variable, and the copy of the element written into it.\<close>

definition copy_pointer ::
    "('e list \<Rightarrow> 'c) \<Rightarrow> ('c \<Rightarrow> 'e list option) \<Rightarrow> 'e \<Rightarrow> ('e \<Rightarrow> 'c memory \<Rightarrow> 'e \<times> 'c memory) \<Rightarrow>
     pointer option \<Rightarrow> 'c memory \<Rightarrow> pointer option \<times> 'c memory" where
  "copy_pointer mk un zero f p m =
     (case p of
        None \<Rightarrow> (None, m)
      | Some (a, i) \<Rightarrow> (case elements un m \<lparr>sl_array = a, sl_off = i, sl_len = 1\<rparr> of
          Some [x] \<Rightarrow>
            (case allocate (mk [zero]) m of (b, m1) \<Rightarrow>
            (case f x m1 of (y, m2) \<Rightarrow> (Some (b, 0), store_at b (mk [y]) m2)))
        | _ \<Rightarrow> (None, m)))"

section \<open>What a copy promises\<close>

definition grown :: "'c memory \<Rightarrow> 'c memory \<Rightarrow> bool" where
  "grown m m' \<longleftrightarrow> mem_ok m' \<and> mm_next m \<le> mm_next m' \<and> (\<forall>a < mm_next m. mm_cells m' a = mm_cells m a)"

definition agree :: "addr set \<Rightarrow> 'c memory \<Rightarrow> 'c memory \<Rightarrow> bool" where
  "agree A m m' \<longleftrightarrow> (\<forall>a \<in> A. mm_cells m' a = mm_cells m a)"

lemma grown_refl [simp]: "mem_ok m \<Longrightarrow> grown m m"
  by (simp add: grown_def)

lemma grown_ok [forge_inv]: "grown m m' \<Longrightarrow> mem_ok m'"
  by (simp add: grown_def)

lemma grown_trans [trans]: "grown m m1 \<Longrightarrow> grown m1 m2 \<Longrightarrow> grown m m2"
  by (auto simp: grown_def)

lemma grown_agree: "grown m m' \<Longrightarrow> mem_ok m \<Longrightarrow> A \<subseteq> dom (mm_cells m) \<Longrightarrow> agree A m m'"
  by (auto simp: grown_def agree_def mem_ok_def)

lemma grown_allocate: "mem_ok m \<Longrightarrow> grown m (snd (allocate c m))"
  by (auto simp: grown_def allocate_def mem_ok_def less_Suc_eq)

lemma grown_store: "grown m m' \<Longrightarrow> mm_next m \<le> a \<Longrightarrow> a < mm_next m' \<Longrightarrow> grown m (store_at a c m')"
  by (auto simp: grown_def store_at_def mem_ok_def)

lemma agree_store: "a \<notin> A \<Longrightarrow> agree A m (store_at a c m)"
  by (auto simp: agree_def store_at_def)

lemma agree_mono: "agree A m m' \<Longrightarrow> B \<subseteq> A \<Longrightarrow> agree B m m'"
  by (auto simp: agree_def)

lemma elements_cong: "mm_cells m' (sl_array s) = mm_cells m (sl_array s) \<Longrightarrow> elements un m' s = elements un m s"
  by (simp add: elements_def)

text \<open>
  \<open>denotes\<close> reads a value through its references (\<open>None\<close> when one dangles) and \<open>cells\<close> are the
  addresses it reads.
\<close>

locale deep_copy =
  fixes copy :: "'a \<Rightarrow> 'c memory \<Rightarrow> 'a \<times> 'c memory"
    and denotes :: "'c memory \<Rightarrow> 'a \<Rightarrow> 'v option"
    and cells :: "'c memory \<Rightarrow> 'a \<Rightarrow> addr set"
  assumes grows: "mem_ok m \<Longrightarrow> denotes m a = Some v \<Longrightarrow> copy a m = (a', m') \<Longrightarrow> grown m m'"
    and equal: "mem_ok m \<Longrightarrow> denotes m a = Some v \<Longrightarrow> copy a m = (a', m') \<Longrightarrow> denotes m' a' = Some v"
    and fresh: "mem_ok m \<Longrightarrow> denotes m a = Some v \<Longrightarrow> copy a m = (a', m') \<Longrightarrow> x \<in> cells m' a' \<Longrightarrow> mm_next m \<le> x"
    and allocated: "denotes m a = Some v \<Longrightarrow> cells m a \<subseteq> dom (mm_cells m)"
    and reads: "denotes m a = Some v \<Longrightarrow> agree (cells m a) m m' \<Longrightarrow> denotes m' a = Some v \<and> cells m' a = cells m a"
begin

lemma kept:
  assumes "mem_ok m" and "denotes m a = Some v" and "grown m m'"
  shows "denotes m' a = Some v" and "cells m' a = cells m a"
  using reads [OF assms(2) grown_agree [OF assms(3,1) allocated [OF assms(2)]]] by auto

lemma separate:
  assumes "mem_ok m" and "denotes m a = Some v" and "copy a m = (a', m')"
  shows "cells m' a' \<inter> cells m' a = {}"
proof -
  have "x < mm_next m" if "x \<in> cells m' a" for x
    using that allocated [OF assms(2)] assms(1) kept(2) [OF assms(1,2) grows [OF assms]] by (auto simp: mem_ok_def)
  then show ?thesis using fresh [OF assms] by fastforce
qed

text \<open>Whatever is written to the cells of the copy, or to new ones, the original denotes the same, and conversely.\<close>

lemma isolated:
  assumes "mem_ok m" and "denotes m a = Some v" and "copy a m = (a', m')"
  shows "agree (dom (mm_cells m') - cells m' a') m' m'' \<Longrightarrow> denotes m'' a = Some v"
    and "agree (dom (mm_cells m') - cells m' a) m' m'' \<Longrightarrow> denotes m'' a' = Some v"
proof -
  note k = kept(1) [OF assms(1,2) grows [OF assms]] and e = equal [OF assms]
  have sub: "cells m' a \<subseteq> dom (mm_cells m') - cells m' a'" "cells m' a' \<subseteq> dom (mm_cells m') - cells m' a"
    using allocated [OF k] allocated [OF e] separate [OF assms] by blast+
  show "denotes m'' a = Some v" if "agree (dom (mm_cells m') - cells m' a') m' m''"
    using reads [OF k agree_mono [OF that sub(1)]] by simp
  show "denotes m'' a' = Some v" if "agree (dom (mm_cells m') - cells m' a) m' m''"
    using reads [OF e agree_mono [OF that sub(2)]] by simp
qed

end

section \<open>Values, structs, slices and pointers\<close>

text \<open>Assignment copies a value without references.\<close>

lemma deep_value: "deep_copy (\<lambda>x m. (x, m)) (\<lambda>m x. Some x) (\<lambda>m x. {})"
  by unfold_locales auto

text \<open>Two fields one after the other.\<close>

definition copy_both ::
    "('a \<Rightarrow> 'c memory \<Rightarrow> 'a \<times> 'c memory) \<Rightarrow> ('b \<Rightarrow> 'c memory \<Rightarrow> 'b \<times> 'c memory) \<Rightarrow>
     'a \<times> 'b \<Rightarrow> 'c memory \<Rightarrow> ('a \<times> 'b) \<times> 'c memory" where
  "copy_both f g p m = (case f (fst p) m of (x, m1) \<Rightarrow> (case g (snd p) m1 of (y, m2) \<Rightarrow> ((x, y), m2)))"

definition both :: "'v option \<Rightarrow> 'u option \<Rightarrow> ('v \<times> 'u) option" where
  "both v u = (case v of None \<Rightarrow> None | Some x \<Rightarrow> map_option (Pair x) u)"

lemma both_Some [simp]: "both v u = Some (x, y) \<longleftrightarrow> v = Some x \<and> u = Some y"
  by (auto simp: both_def split: option.splits)

lemma deep_both:
  assumes f: "deep_copy f d c" and g: "deep_copy g e k"
  shows "deep_copy (copy_both f g) (\<lambda>m p. both (d m (fst p)) (e m (snd p))) (\<lambda>m p. c m (fst p) \<union> k m (snd p))"
proof -
  have main: "grown m m' \<and> both (d m' (fst p')) (e m' (snd p')) = Some w \<and>
      (\<forall>x \<in> c m' (fst p') \<union> k m' (snd p'). mm_next m \<le> x)"
    if ok: "mem_ok m" and v: "both (d m (fst p)) (e m (snd p)) = Some w" and run: "copy_both f g p m = (p', m')"
    for m p w p' m'
  proof -
    obtain a b where p: "p = (a, b)" by (cases p)
    obtain v u where w: "w = (v, u)" by (cases w)
    have vu: "d m a = Some v" "e m b = Some u" using v by (simp_all add: p w)
    obtain x m1 where 1: "f a m = (x, m1)" by fastforce
    obtain y m2 where 2: "g b m1 = (y, m2)" by fastforce
    have out: "p' = (x, y)" "m' = m2" using run by (simp_all add: copy_both_def p 1 2)
    note g1 = deep_copy.grows [OF f ok vu(1) 1] and b1 = deep_copy.kept(1) [OF g ok vu(2)]
    note g2 = deep_copy.grows [OF g grown_ok [OF g1] b1 [OF g1] 2]
    note x2 = deep_copy.kept [OF f grown_ok [OF g1] deep_copy.equal [OF f ok vu(1) 1] g2]
    show ?thesis
      using grown_trans [OF g1 g2] x2 deep_copy.equal [OF g grown_ok [OF g1] b1 [OF g1] 2]
        deep_copy.fresh [OF f ok vu(1) 1] deep_copy.fresh [OF g grown_ok [OF g1] b1 [OF g1] 2] g1
      by (fastforce simp: out w grown_def)
  qed
  show ?thesis
  proof
    fix m p w p' m' x
    assume "mem_ok m" "both (d m (fst p)) (e m (snd p)) = Some w" "copy_both f g p m = (p', m')"
    from main [OF this] show "grown m m'" "both (d m' (fst p')) (e m' (snd p')) = Some w"
      "x \<in> c m' (fst p') \<union> k m' (snd p') \<Longrightarrow> mm_next m \<le> x" by auto
  next
    fix m p w m'
    assume w: "both (d m (fst p)) (e m (snd p)) = Some w"
    then obtain v u where vu: "d m (fst p) = Some v" "e m (snd p) = Some u" "w = (v, u)" by (cases w) auto
    then show "c m (fst p) \<union> k m (snd p) \<subseteq> dom (mm_cells m)"
      using deep_copy.allocated [OF f] deep_copy.allocated [OF g] by blast
    assume "agree (c m (fst p) \<union> k m (snd p)) m m'"
    then have "agree (c m (fst p)) m m'" "agree (k m (snd p)) m m'" by (auto simp: agree_def)
    with vu show "both (d m' (fst p)) (e m' (snd p)) = Some w \<and>
        c m' (fst p) \<union> k m' (snd p) = c m (fst p) \<union> k m (snd p)"
      using deep_copy.reads [OF f vu(1)] deep_copy.reads [OF g vu(2)] by simp
  qed
qed

text \<open>A struct is copied by assignment, and then the field with references is replaced by its copy.\<close>

lemma deep_field:
  assumes f: "deep_copy f d c" and F: "\<And>r m. F r m = (case f (get r) m of (x, m') \<Rightarrow> (put x r, m'))"
    and D: "\<And>m r. D m r = map_option (mk r) (d m (get r))" and C: "\<And>m r. C m r = c m (get r)"
    and put: "\<And>x r. get (put x r) = x" "\<And>x r. mk (put x r) = mk r"
  shows "deep_copy F D C"
proof
  fix m r w r' m' x
  assume ok: "mem_ok m" and w: "D m r = Some w" and run: "F r m = (r', m')"
  obtain v where v: "d m (get r) = Some v" "w = mk r v" using w by (auto simp: D)
  obtain y where y: "f (get r) m = (y, m')" "r' = put y r" using run by (auto simp: F split: prod.splits)
  show "grown m m'" "D m' r' = Some w" "x \<in> C m' r' \<Longrightarrow> mm_next m \<le> x"
    using deep_copy.grows [OF f ok v(1) y(1)] deep_copy.equal [OF f ok v(1) y(1)]
      deep_copy.fresh [OF f ok v(1) y(1)] v(2) y(2) put by (simp_all add: C D)
next
  fix m r w m'
  assume w: "D m r = Some w"
  then obtain v where v: "d m (get r) = Some v" "w = mk r v" by (auto simp: D)
  show "C m r \<subseteq> dom (mm_cells m)" using deep_copy.allocated [OF f v(1)] by (simp add: C)
  assume "agree (C m r) m m'"
  then show "D m' r = Some w \<and> C m' r = C m r"
    using deep_copy.reads [OF f v(1)] v(2) by (simp add: C D)
qed

text \<open>A list of elements, each copied in turn.\<close>

lemma those_Cons_Some [simp]: "those (map h (x # xs)) = Some vs \<longleftrightarrow> (\<exists>u us. h x = Some u \<and> those (map h xs) = Some us \<and> vs = u # us)"
  by (cases "h x"; cases "those (map h xs)") auto

lemma those_cong: "those (map h xs) = Some vs \<Longrightarrow> (\<And>x u. x \<in> set xs \<Longrightarrow> h x = Some u \<Longrightarrow> h' x = Some u) \<Longrightarrow>
    those (map h' xs) = Some vs"
  by (induction xs arbitrary: vs) (simp, force simp del: list.map simp: those_Cons_Some)

lemma those_elem: "those (map h xs) = Some vs \<Longrightarrow> x \<in> set xs \<Longrightarrow> \<exists>u. h x = Some u"
  by (induction xs arbitrary: vs) (simp, force simp del: list.map simp: those_Cons_Some)

lemma copy_all_deep:
  assumes f: "deep_copy f d c"
  shows "mem_ok m \<Longrightarrow> those (map (d m) xs) = Some vs \<Longrightarrow> copy_all f xs m = (ys, m') \<Longrightarrow>
    grown m m' \<and> those (map (d m') ys) = Some vs \<and> length ys = length xs \<and> (\<forall>y \<in> set ys. \<forall>x \<in> c m' y. mm_next m \<le> x)"
proof (induction xs arbitrary: m vs ys)
  case (Cons x xs)
  obtain u us where v: "d m x = Some u" "those (map (d m) xs) = Some us" "vs = u # us"
    using Cons.prems(2) unfolding those_Cons_Some by blast
  obtain y m1 where 1: "f x m = (y, m1)" by fastforce
  obtain zs where 2: "copy_all f xs m1 = (zs, m')" "ys = y # zs"
    using Cons.prems(3) 1 by (auto split: prod.splits)
  note g1 = deep_copy.grows [OF f Cons.prems(1) v(1) 1]
  have "those (map (d m1) xs) = Some us"
    by (rule those_cong [OF v(2)]) (rule deep_copy.kept(1) [OF f Cons.prems(1) _ g1])
  note IH = Cons.IH [OF grown_ok [OF g1] this 2(1)]
  note y2 = deep_copy.kept [OF f grown_ok [OF g1] deep_copy.equal [OF f Cons.prems(1) v(1) 1] conjunct1 [OF IH]]
  have "mm_next m \<le> mm_next m1" using g1 by (simp add: grown_def)
  then show ?case
    using IH grown_trans [OF g1 conjunct1 [OF IH]] y2 v(3) deep_copy.fresh [OF f Cons.prems(1) v(1) 1]
    by (fastforce simp: 2(2))
qed simp

section \<open>Slices and pointers\<close>

definition slice_value :: "('c \<Rightarrow> 'e list option) \<Rightarrow> ('c memory \<Rightarrow> 'e \<Rightarrow> 'v option) \<Rightarrow> 'c memory \<Rightarrow> slice option \<Rightarrow> 'v list option" where
  "slice_value un d m s =
     (case s of None \<Rightarrow> Some [] | Some s \<Rightarrow> (case elements un m s of None \<Rightarrow> None | Some xs \<Rightarrow> those (map (d m) xs)))"

definition slice_cells :: "('c \<Rightarrow> 'e list option) \<Rightarrow> ('c memory \<Rightarrow> 'e \<Rightarrow> addr set) \<Rightarrow> 'c memory \<Rightarrow> slice option \<Rightarrow> addr set" where
  "slice_cells un c m s =
     (case s of None \<Rightarrow> {}
      | Some s \<Rightarrow> insert (sl_array s) (case elements un m s of None \<Rightarrow> {} | Some xs \<Rightarrow> \<Union>x \<in> set xs. c m x))"

lemma slice_value_Some:
  assumes "slice_value un d m (Some s) = Some vs"
  obtains xs where "elements un m s = Some xs" and "those (map (d m) xs) = Some vs" and "length xs = sl_len s"
    and "sl_array s \<in> dom (mm_cells m)"
  using assms by (auto simp: slice_value_def elements_def dom_def split: option.splits if_splits)

lemma copy_slice_deep:
  assumes f: "deep_copy f d c" and un: "\<And>xs. un (mk xs) = Some xs" and ok: "mem_ok m"
    and v: "slice_value un d m (Some s) = Some vs" and run: "copy_slice mk un zero f (Some s) m = (s', m')"
  shows "grown m m' \<and> slice_value un d m' s' = Some vs \<and> (\<forall>x \<in> slice_cells un c m' s'. mm_next m \<le> x)"
proof -
  obtain xs where xs: "elements un m s = Some xs" "those (map (d m) xs) = Some vs" "length xs = sl_len s"
    by (rule slice_value_Some [OF v])
  let ?a = "mm_next m" and ?m1 = "snd (allocate (mk (replicate (sl_len s) zero)) m)"
  obtain ys m2 where 2: "copy_all f xs ?m1 = (ys, m2)" by fastforce
  have out: "s' = Some \<lparr>sl_array = ?a, sl_off = 0, sl_len = sl_len s\<rparr>" "m' = store_at ?a (mk ys) m2"
    using run xs 2 by (simp_all add: copy_slice_def allocate_def)
  note g1 = grown_allocate [OF ok, of "mk (replicate (sl_len s) zero)"]
  have "those (map (d ?m1) xs) = Some vs"
    by (rule those_cong [OF xs(2)]) (rule deep_copy.kept(1) [OF f ok _ g1])
  note r = copy_all_deep [OF f grown_ok [OF g1] this 2]
  have n1: "mm_next ?m1 = Suc ?a" by (simp add: allocate_def)
  have g: "grown m m'" unfolding out
    using grown_trans [OF g1] r n1 by (intro grown_store) (auto simp: grown_def)
  have el: "elements un m' \<lparr>sl_array = ?a, sl_off = 0, sl_len = sl_len s\<rparr> = Some ys"
    using r xs(3) by (simp add: elements_def out store_at_def un)
  have y: "d m' y = Some u \<and> c m' y = c m2 y" if "y \<in> set ys" "d m2 y = Some u" for y u
    unfolding out using r that n1
    by (intro deep_copy.reads [OF f that(2)] agree_store) fastforce
  have "those (map (d m') ys) = Some vs"
    using r y by (blast intro: those_cong)
  moreover have "mm_next m \<le> x" if yx: "y \<in> set ys" "x \<in> c m' y" for x y
    using y [OF yx(1)] those_elem [of "d m2" ys vs y] r yx n1 by fastforce
  ultimately show ?thesis using g el out(1) by (auto simp: slice_value_def slice_cells_def)
qed

lemma slice_reads:
  assumes f: "deep_copy f d c" and v: "slice_value un d m s = Some vs"
  shows "slice_cells un c m s \<subseteq> dom (mm_cells m)"
    and "agree (slice_cells un c m s) m m' \<Longrightarrow> slice_value un d m' s = Some vs \<and> slice_cells un c m' s = slice_cells un c m s"
proof -
  have *: "slice_cells un c m s \<subseteq> dom (mm_cells m) \<and> (agree (slice_cells un c m s) m m' \<longrightarrow>
      slice_value un d m' s = Some vs \<and> slice_cells un c m' s = slice_cells un c m s)"
  proof (cases s)
    case None
    then show ?thesis using v by (simp add: slice_cells_def slice_value_def)
  next
    case (Some t)
    obtain xs where xs: "elements un m t = Some xs" "those (map (d m) xs) = Some vs" "sl_array t \<in> dom (mm_cells m)"
      using v slice_value_Some [of un d m t vs] unfolding Some by metis
    have x: "c m x \<subseteq> dom (mm_cells m)" if "x \<in> set xs" for x
      using those_elem [OF xs(2) that] deep_copy.allocated [OF f] by metis
    have r: "d m' x = Some u \<and> c m' x = c m x" if "agree (slice_cells un c m s) m m'" "x \<in> set xs" "d m x = Some u" for x u
      using that xs(1) by (intro deep_copy.reads [OF f that(3)]) (auto simp: agree_def slice_cells_def Some)
    have e: "elements un m' t = Some xs" if "agree (slice_cells un c m s) m m'"
      using that xs(1) elements_cong [of m' t m un] by (auto simp: agree_def slice_cells_def Some)
    have "those (map (d m') xs) = Some vs" if "agree (slice_cells un c m s) m m'"
      using those_cong [OF xs(2)] r [OF that] by blast
    moreover have "c m' x = c m x" if "agree (slice_cells un c m s) m m'" "x \<in> set xs" for x
      using r [OF that] those_elem [OF xs(2) that(2)] by blast
    moreover have "slice_cells un c m s \<subseteq> dom (mm_cells m)"
      using xs(1,3) UN_least [OF x, of "set xs"] by (simp add: slice_cells_def Some)
    ultimately show ?thesis using xs(1) e by (auto simp: slice_cells_def slice_value_def Some)
  qed
  show "slice_cells un c m s \<subseteq> dom (mm_cells m)"
    and "agree (slice_cells un c m s) m m' \<Longrightarrow> slice_value un d m' s = Some vs \<and> slice_cells un c m' s = slice_cells un c m s"
    using * by blast+
qed

lemma deep_slice:
  assumes f: "deep_copy f d c" and un: "\<And>xs. un (mk xs) = Some xs"
  shows "deep_copy (copy_slice mk un zero f) (slice_value un d) (slice_cells un c)"
proof
  fix m s vs s' m' x
  assume h: "mem_ok m" "slice_value un d m s = Some vs" "copy_slice mk un zero f s m = (s', m')"
  have "grown m m' \<and> slice_value un d m' s' = Some vs \<and> (\<forall>x \<in> slice_cells un c m' s'. mm_next m \<le> x)"
    using h copy_slice_deep [OF f un, of m _ vs zero s' m']
    by (cases s) (auto simp: copy_slice_def slice_cells_def)
  then show "grown m m'" "slice_value un d m' s' = Some vs" "x \<in> slice_cells un c m' s' \<Longrightarrow> mm_next m \<le> x" by auto
qed (use slice_reads [OF f] in blast)+

text \<open>A pointer behaves as the slice of length one at its element.\<close>

definition pointed :: "pointer \<Rightarrow> slice" where
  "pointed p = \<lparr>sl_array = fst p, sl_off = snd p, sl_len = 1\<rparr>"

definition pointer_value :: "('c \<Rightarrow> 'e list option) \<Rightarrow> ('c memory \<Rightarrow> 'e \<Rightarrow> 'v option) \<Rightarrow> 'c memory \<Rightarrow> pointer option \<Rightarrow> 'v option option" where
  "pointer_value un d m p =
     (case p of None \<Rightarrow> Some None | Some q \<Rightarrow> map_option (\<lambda>vs. Some (hd vs)) (slice_value un d m (Some (pointed q))))"

definition pointer_cells :: "('c \<Rightarrow> 'e list option) \<Rightarrow> ('c memory \<Rightarrow> 'e \<Rightarrow> addr set) \<Rightarrow> 'c memory \<Rightarrow> pointer option \<Rightarrow> addr set" where
  "pointer_cells un c m p = slice_cells un c m (map_option pointed p)"

lemma copy_pointer_slice:
  assumes "pointer_value un d m (Some p) = Some v" and "copy_pointer mk un zero f (Some p) m = (q, m')"
  shows "\<exists>b. q = Some (b, 0) \<and> copy_slice mk un zero f (Some (pointed p)) m = (Some (pointed (b, 0)), m')"
proof -
  obtain x where x: "elements un m (pointed p) = Some [x]"
    using assms(1) by (auto simp: pointer_value_def pointed_def length_Suc_conv elim!: slice_value_Some)
  then show ?thesis
    using assms(2)
    by (cases p) (auto simp: copy_pointer_def copy_slice_def pointed_def allocate_def split: prod.splits)
qed

lemma deep_pointer:
  assumes f: "deep_copy f d c" and un: "\<And>xs. un (mk xs) = Some xs"
  shows "deep_copy (copy_pointer mk un zero f) (pointer_value un d) (pointer_cells un c)"
proof
  fix m p v q m' x
  assume h: "mem_ok m" "pointer_value un d m p = Some v" "copy_pointer mk un zero f p m = (q, m')"
  have "grown m m' \<and> pointer_value un d m' q = Some v \<and> (\<forall>x \<in> pointer_cells un c m' q. mm_next m \<le> x)"
  proof (cases p)
    case None
    then show ?thesis using h by (auto simp: copy_pointer_def pointer_value_def pointer_cells_def slice_cells_def)
  next
    case (Some p0)
    obtain b where b: "q = Some (b, 0)" "copy_slice mk un zero f (Some (pointed p0)) m = (Some (pointed (b, 0)), m')"
      using copy_pointer_slice [OF h(2,3) [unfolded Some]] by blast
    obtain vs where vs: "slice_value un d m (Some (pointed p0)) = Some vs" "v = Some (hd vs)"
      using h(2) by (auto simp: Some pointer_value_def)
    show ?thesis
      using copy_slice_deep [OF f un h(1) vs(1) b(2)] by (simp add: b(1) vs(2) pointer_value_def pointer_cells_def)
  qed
  then show "grown m m'" "pointer_value un d m' q = Some v" "x \<in> pointer_cells un c m' q \<Longrightarrow> mm_next m \<le> x" by auto
next
  fix m p v m'
  assume v: "pointer_value un d m p = Some v"
  then obtain vs where "slice_value un d m (map_option pointed p) = Some vs"
    by (cases p) (auto simp: pointer_value_def slice_value_def)
  note r = slice_reads [OF f this]
  show "pointer_cells un c m p \<subseteq> dom (mm_cells m)" using r(1) by (simp add: pointer_cells_def)
  assume "agree (pointer_cells un c m p) m m'"
  from r(2) [OF this [unfolded pointer_cells_def]] show "pointer_value un d m' p = Some v \<and> pointer_cells un c m' p = pointer_cells un c m p"
    using v \<open>slice_value un d m (map_option pointed p) = Some vs\<close>
    by (cases p) (auto simp: pointer_value_def pointer_cells_def)
qed

text \<open>A pointer to a variable has a copy that is not nil.\<close>

lemma pointer_isolated:
  assumes f: "deep_copy f d c" and un: "\<And>xs. un (mk xs) = Some xs" and "mem_ok m"
    and v: "pointer_value un d m (Some p) = Some v" and run: "copy_pointer mk un zero f (Some p) m = (q, m')"
  shows "\<exists>q'. q = Some q' \<and> pointer_value un d m' (Some q') = Some v \<and> pointer_value un d m' (Some p) = Some v \<and>
    (\<forall>m''. agree (dom (mm_cells m') - pointer_cells un c m' (Some q')) m' m'' \<longrightarrow> pointer_value un d m'' (Some p) = Some v) \<and>
    (\<forall>m''. agree (dom (mm_cells m') - pointer_cells un c m' (Some p)) m' m'' \<longrightarrow> pointer_value un d m'' (Some q') = Some v)"
proof -
  note deep = deep_pointer [where f = f and un = un and mk = mk and zero = zero, OF f un]
  obtain b where q: "q = Some (b, 0)" using copy_pointer_slice [OF v run] by blast
  show ?thesis
    unfolding q using deep_copy.equal [OF deep assms(3) v run] deep_copy.isolated [OF deep assms(3) v run]
      deep_copy.kept(1) [OF deep assms(3) v deep_copy.grows [OF deep assms(3) v run]]
    by (auto simp: q)
qed

end
