(* ===== verification/Application_Controller.thy ===== *)
theory Application_Controller
  imports Go_Strings Apperr
begin

text \<open>
  \<^verbatim>\<open>internal/controller\<close> and \<^verbatim>\<open>api/v1alpha1\<close>: the reconciler that turns an \<^verbatim>\<open>Application\<close> into a
  Deployment, a Service and a ConfigMap and reports its status.

  Of the Kubernetes types the model has the fields that the code sets or reads. The API server
  behind the client is a parameter (\<open>kube\<close>), with what is observable of it (\<open>kc_view\<close>: the
  applications, the fields the operator manages of the objects it applied, and the status of the
  deployments); \<open>kube_laws\<close> is its documented behaviour: reads change nothing, a server-side
  apply sets the managed fields of its object, and an update of the status replaces the status
  of the version it was read from or is refused as a conflict. \<open>MustParse\<close>, which panics on a
  malformed quantity, is the parameter \<open>kc_quantity\<close>: \<open>None\<close> is the panic.
\<close>

section \<open>The Application resource\<close>

record env_var =
  ev_Name :: string
  ev_Value :: string

record resource_requests =
  rr_CPU :: string
  rr_Memory :: string

record security_settings =
  ss_ReadOnlyRootFilesystem :: "bool option"

record application_spec =
  sp_Image :: string
  sp_Port :: int
  sp_Replicas :: int
  sp_Tier :: int
  sp_Env :: "env_var list"
  sp_Resources :: resource_requests
  sp_Expose :: bool
  sp_Security :: security_settings

record condition =
  cn_Type :: string
  cn_Status :: string
  cn_ObservedGeneration :: int
  cn_LastTransitionTime :: time
  cn_Reason :: string
  cn_Message :: string

record application_status =
  as_Phase :: string
  as_ObservedGeneration :: int
  as_Replicas :: int
  as_ReadyReplicas :: int
  as_Conditions :: "condition list"

type_synonym labels = "string \<rightharpoonup> string"

record object_meta =
  om_Name :: string
  om_Namespace :: string
  om_Labels :: labels
  om_Annotations :: labels
  om_UID :: string
  om_Generation :: int
  om_ResourceVersion :: string
  om_Controller :: "string option"

record application =
  ap_meta :: object_meta
  ap_Spec :: application_spec
  ap_Status :: application_status

type_synonym key = "string \<times> string"

definition key_of :: "object_meta \<Rightarrow> key" where
  "key_of m = (om_Namespace m, om_Name m)"

definition new_meta :: "string \<Rightarrow> string \<Rightarrow> labels \<Rightarrow> object_meta" where
  "new_meta name namespace lbls =
     \<lparr>om_Name = name, om_Namespace = namespace, om_Labels = lbls, om_Annotations = Map.empty, om_UID = [],
      om_Generation = 0, om_ResourceVersion = [], om_Controller = None\<rparr>"

section \<open>The objects it owns\<close>

record 'q resource_requirements =
  rq_Requests :: "string \<rightharpoonup> 'q"
  rq_Limits :: "string \<rightharpoonup> 'q"

record probe =
  pb_TCPPort :: int
  pb_InitialDelaySeconds :: int
  pb_PeriodSeconds :: int
  pb_TimeoutSeconds :: int
  pb_FailureThreshold :: int

record security_context =
  sc_RunAsNonRoot :: bool
  sc_AllowPrivilegeEscalation :: bool
  sc_ReadOnlyRootFilesystem :: bool
  sc_DropCapabilities :: "string list"

record 'q container =
  ct_Name :: string
  ct_Image :: string
  ct_Ports :: "int list"
  ct_Env :: "env_var list"
  ct_Resources :: "'q resource_requirements"
  ct_LivenessProbe :: probe
  ct_ReadinessProbe :: probe
  ct_SecurityContext :: security_context

record 'q pod_template =
  pt_Labels :: labels
  pt_Annotations :: labels
  pt_RunAsNonRoot :: bool
  pt_Containers :: "'q container list"

record 'q deployment =
  dp_Kind :: "string \<times> string"
  dp_meta :: object_meta
  dp_Replicas :: int
  dp_Selector :: labels
  dp_Template :: "'q pod_template"

record deployment_status =
  ds_Replicas :: int
  ds_ReadyReplicas :: int

record service_port =
  sv_Name :: string
  sv_Port :: int
  sv_TargetPort :: int
  sv_Protocol :: string

record kube_service =
  ks_Kind :: "string \<times> string"
  ks_meta :: object_meta
  ks_Selector :: labels
  ks_Type :: string
  ks_Ports :: "service_port list"

record config_map =
  cm_Kind :: "string \<times> string"
  cm_meta :: object_meta
  cm_Data :: "string \<rightharpoonup> string"

section \<open>Desired state\<close>

definition tierDefaults :: "int \<rightharpoonup> resource_requests" where
  "tierDefaults = [1 \<mapsto> \<lparr>rr_CPU = ''1'', rr_Memory = ''1Gi''\<rparr>, 2 \<mapsto> \<lparr>rr_CPU = ''500m'', rr_Memory = ''512Mi''\<rparr>,
     3 \<mapsto> \<lparr>rr_CPU = ''250m'', rr_Memory = ''256Mi''\<rparr>, 4 \<mapsto> \<lparr>rr_CPU = ''100m'', rr_Memory = ''128Mi''\<rparr>]"

definition effectiveTier :: "application \<Rightarrow> int" where
  "effectiveTier app =
     (if 1 \<le> sp_Tier (ap_Spec app) \<and> sp_Tier (ap_Spec app) \<le> 4 then sp_Tier (ap_Spec app) else 3)"

definition readOnlyRoot :: "application \<Rightarrow> bool" where
  "readOnlyRoot app = (case ss_ReadOnlyRootFilesystem (sp_Security (ap_Spec app)) of Some b \<Rightarrow> b | None \<Rightarrow> True)"

definition resourceRequirements :: "(string \<Rightarrow> 'q option) \<Rightarrow> application \<Rightarrow> 'q resource_requirements option" where
  "resourceRequirements mustParse app =
     (let def = (case tierDefaults (effectiveTier app) of
                   Some d \<Rightarrow> d | None \<Rightarrow> \<lparr>rr_CPU = [], rr_Memory = []\<rparr>);
          cpu = (if rr_CPU (sp_Resources (ap_Spec app)) \<noteq> [] then rr_CPU (sp_Resources (ap_Spec app)) else rr_CPU def);
          mem = (if rr_Memory (sp_Resources (ap_Spec app)) \<noteq> [] then rr_Memory (sp_Resources (ap_Spec app)) else rr_Memory def)
      in case mustParse cpu of
           None \<Rightarrow> None
         | Some qc \<Rightarrow> (case mustParse mem of
             None \<Rightarrow> None
           | Some qm \<Rightarrow> (let q = [''cpu'' \<mapsto> qc, ''memory'' \<mapsto> qm] in Some \<lparr>rq_Requests = q, rq_Limits = q\<rparr>)))"

fun toEnvVars :: "env_var list \<Rightarrow> env_var list" where
  "toEnvVars [] = []"
| "toEnvVars (e # es) = \<lparr>ev_Name = ev_Name e, ev_Value = ev_Value e\<rparr> # toEnvVars es"

definition tcpProbe :: "int \<Rightarrow> int \<Rightarrow> probe" where
  "tcpProbe port initialDelay =
     \<lparr>pb_TCPPort = port, pb_InitialDelaySeconds = initialDelay, pb_PeriodSeconds = 10,
      pb_TimeoutSeconds = 2, pb_FailureThreshold = 3\<rparr>"

definition managedLabels :: "application \<Rightarrow> labels" where
  "managedLabels app =
     [''app.kubernetes.io/name'' \<mapsto> om_Name (ap_meta app), ''app.kubernetes.io/managed-by'' \<mapsto> ''forge'',
      ''forge.dev/application'' \<mapsto> om_Name (ap_meta app), ''forge.dev/tier'' \<mapsto> FormatInt (effectiveTier app)]"

definition desired_replicas :: "application \<Rightarrow> int" where
  "desired_replicas app = (if sp_Replicas (ap_Spec app) = 0 then 1 else sp_Replicas (ap_Spec app))"

definition desired_container :: "'q resource_requirements \<Rightarrow> application \<Rightarrow> 'q container" where
  "desired_container res app =
     \<lparr>ct_Name = ''app'', ct_Image = sp_Image (ap_Spec app), ct_Ports = [sp_Port (ap_Spec app)],
      ct_Env = toEnvVars (sp_Env (ap_Spec app)), ct_Resources = res,
      ct_LivenessProbe = tcpProbe (sp_Port (ap_Spec app)) 15, ct_ReadinessProbe = tcpProbe (sp_Port (ap_Spec app)) 5,
      ct_SecurityContext = \<lparr>sc_RunAsNonRoot = True, sc_AllowPrivilegeEscalation = False,
        sc_ReadOnlyRootFilesystem = readOnlyRoot app, sc_DropCapabilities = [''ALL'']\<rparr>\<rparr>"

definition desiredDeployment :: "(string \<Rightarrow> 'q option) \<Rightarrow> application \<Rightarrow> 'q deployment option" where
  "desiredDeployment mustParse app =
     (case resourceRequirements mustParse app of
        None \<Rightarrow> None
      | Some res \<Rightarrow> Some
         \<lparr>dp_Kind = (''apps/v1'', ''Deployment''),
          dp_meta = new_meta (om_Name (ap_meta app)) (om_Namespace (ap_meta app)) (managedLabels app),
          dp_Replicas = desired_replicas app, dp_Selector = [''forge.dev/application'' \<mapsto> om_Name (ap_meta app)],
          dp_Template = \<lparr>pt_Labels = managedLabels app,
            pt_Annotations = [''prometheus.io/scrape'' \<mapsto> ''true'', ''prometheus.io/port'' \<mapsto> FormatInt (sp_Port (ap_Spec app))],
            pt_RunAsNonRoot = True, pt_Containers = [desired_container res app]\<rparr>\<rparr>)"

definition desiredService :: "application \<Rightarrow> kube_service" where
  "desiredService app =
     \<lparr>ks_Kind = (''v1'', ''Service''),
      ks_meta = new_meta (om_Name (ap_meta app)) (om_Namespace (ap_meta app)) (managedLabels app),
      ks_Selector = [''forge.dev/application'' \<mapsto> om_Name (ap_meta app)], ks_Type = ''ClusterIP'',
      ks_Ports = [\<lparr>sv_Name = ''http'', sv_Port = sp_Port (ap_Spec app), sv_TargetPort = sp_Port (ap_Spec app),
        sv_Protocol = ''TCP''\<rparr>]\<rparr>"

text \<open>The generated files, line by line; \<open>bs\<close> is the backslash.\<close>

definition bs :: string where
  "bs = [CHR 0x5C]"

fun join_lines :: "string list \<Rightarrow> string" where
  "join_lines [] = []"
| "join_lines [l] = l"
| "join_lines (l # ls) = l @ CHR 0x0A # join_lines ls"

definition dashboardJSON :: "application \<Rightarrow> string" where
  \<open>dashboardJSON app =
     (let name = om_Name (ap_meta app) in join_lines
       [''{'',
        ''  "title": "Forge / '' @ name @ ''",'',
        ''  "uid": "forge-'' @ name @ ''",'',
        ''  "tags": ["forge", "managed"],'',
        ''  "panels": ['',
        ''    {"title": "Request rate", "type": "timeseries", "targets": [{"expr": "sum(rate(http_requests_total{app='' @ bs @ ''"'' @ name @ bs @ ''"}[5m]))"}]},'',
        ''    {"title": "p95 latency", "type": "timeseries", "targets": [{"expr": "histogram_quantile(0.95, sum(rate(http_request_duration_seconds_bucket{app='' @ bs @ ''"'' @ name @ bs @ ''"}[5m])) by (le))"}]},'',
        ''    {"title": "Ready replicas", "type": "stat", "targets": [{"expr": "kube_deployment_status_replicas_ready{deployment='' @ bs @ ''"'' @ name @ bs @ ''"}"}]}'',
        ''  ]'',
        ''}''])\<close>

definition alertRules :: "application \<Rightarrow> string" where
  \<open>alertRules app =
     (let name = om_Name (ap_meta app); desired = desired_replicas app in join_lines
       [''groups:'',
        ''  - name: forge-'' @ name,
        ''    rules:'',
        ''      - alert: HighErrorRate'',
        ''        expr: sum(rate(http_requests_total{app="'' @ name @ ''",status=~"5.."}[5m])) / sum(rate(http_requests_total{app="'' @ name @ ''"}[5m])) > 0.05'',
        ''        for: 10m'',
        ''        labels:'',
        ''          severity: page'',
        ''          forge_application: '' @ name,
        ''        annotations:'',
        ''          summary: "High 5xx error rate for '' @ name @ ''"'',
        ''      - alert: InsufficientReplicas'',
        ''        expr: kube_deployment_status_replicas_ready{deployment="'' @ name @ ''"} < '' @ FormatInt desired,
        ''        for: 15m'',
        ''        labels:'',
        ''          severity: page'',
        ''          forge_application: '' @ name,
        ''        annotations:'',
        ''          summary: "'' @ name @ '' has fewer ready replicas than desired"'',
        []])\<close>

definition desiredObservability :: "application \<Rightarrow> config_map" where
  "desiredObservability app =
     \<lparr>cm_Kind = (''v1'', ''ConfigMap''),
      cm_meta = new_meta (om_Name (ap_meta app) @ ''-observability'') (om_Namespace (ap_meta app))
        [''app.kubernetes.io/managed-by'' \<mapsto> ''forge'', ''forge.dev/application'' \<mapsto> om_Name (ap_meta app),
         ''grafana_dashboard'' \<mapsto> ''1'', ''forge.dev/prometheus-rules'' \<mapsto> ''true''],
      cm_Data = [''dashboard.json'' \<mapsto> dashboardJSON app, ''alerts.yaml'' \<mapsto> alertRules app]\<rparr>"

section \<open>The API server\<close>

record 'q cluster =
  cl_apps :: "key \<rightharpoonup> application"
  cl_deployments :: "key \<rightharpoonup> 'q deployment"
  cl_services :: "key \<rightharpoonup> kube_service"
  cl_configmaps :: "key \<rightharpoonup> config_map"
  cl_status :: "key \<rightharpoonup> deployment_status"

record ('k, 'q) kube =
  kc_view :: "'k \<Rightarrow> 'q cluster"
  kc_quantity :: "string \<Rightarrow> 'q option"
  kc_now :: "'k \<Rightarrow> time"
  kc_is_not_found :: "go_error \<Rightarrow> bool"
  kc_is_conflict :: "go_error \<Rightarrow> bool"
  kc_retry_steps :: nat
  kc_owner_error :: "key \<Rightarrow> string \<Rightarrow> object_meta \<Rightarrow> go_error option"
  kc_get_app :: "key \<Rightarrow> 'k \<Rightarrow> (go_error + application) \<times> 'k"
  kc_get_deployment :: "key \<Rightarrow> 'k \<Rightarrow> (go_error + deployment_status) \<times> 'k"
  kc_apply_deployment :: "'q deployment \<Rightarrow> 'k \<Rightarrow> go_error option \<times> 'k"
  kc_apply_service :: "kube_service \<Rightarrow> 'k \<Rightarrow> go_error option \<times> 'k"
  kc_apply_configmap :: "config_map \<Rightarrow> 'k \<Rightarrow> go_error option \<times> 'k"
  kc_update_status :: "application \<Rightarrow> 'k \<Rightarrow> go_error option \<times> 'k"

definition SetControllerReference :: "('k, 'q) kube \<Rightarrow> application \<Rightarrow> object_meta \<Rightarrow> go_error + object_meta" where
  "SetControllerReference K app m =
     (case kc_owner_error K (key_of (ap_meta app)) (om_UID (ap_meta app)) m of
        Some err \<Rightarrow> Inl err
      | None \<Rightarrow> Inr (m\<lparr>om_Controller := Some (om_UID (ap_meta app))\<rparr>))"

text \<open>
  \<^verbatim>\<open>retry.RetryOnConflict\<close>: the function runs again while it fails with a conflict and steps are
  left.
\<close>

fun RetryOnConflict :: "(go_error \<Rightarrow> bool) \<Rightarrow> nat \<Rightarrow> ('s \<Rightarrow> go_error option \<times> 's) \<Rightarrow> 's \<Rightarrow> go_error option \<times> 's" where
  "RetryOnConflict conflict 0 f s = (Some (OtherError ''timed out waiting for the condition''), s)"
| "RetryOnConflict conflict (Suc n) f s =
     (case f s of
        (None, s') \<Rightarrow> (None, s')
      | (Some err, s') \<Rightarrow> if conflict err \<and> n \<noteq> 0 then RetryOnConflict conflict n f s' else (Some err, s'))"

section \<open>Status\<close>

text \<open>A zero \<^verbatim>\<open>LastTransitionTime\<close> is replaced by the present time, as the only caller leaves it zero.\<close>

fun upsert :: "condition \<Rightarrow> condition list \<Rightarrow> condition list" where
  "upsert c [] = [c]"
| "upsert c (d # ds) =
     (if cn_Type d = cn_Type c
      then (if cn_Status d = cn_Status c then c\<lparr>cn_LastTransitionTime := cn_LastTransitionTime d\<rparr> else c) # ds
      else d # upsert c ds)"

definition setCondition :: "time \<Rightarrow> time \<Rightarrow> condition list \<Rightarrow> condition \<Rightarrow> condition list" where
  "setCondition zero now conditions c =
     upsert (if cn_LastTransitionTime c = zero then c\<lparr>cn_LastTransitionTime := now\<rparr> else c) conditions"

definition zero_time :: time where
  "zero_time = - 62135596800000000000"

definition phase_of :: "application \<Rightarrow> deployment_status \<Rightarrow> string" where
  "phase_of app dep =
     (if ds_ReadyReplicas dep \<ge> desired_replicas app \<and> desired_replicas app > 0 then ''Ready'' else ''Progressing'')"

definition condition_status :: "application \<Rightarrow> deployment_status \<Rightarrow> string" where
  "condition_status app dep =
     (if ds_ReadyReplicas dep \<ge> desired_replicas app \<and> desired_replicas app > 0 then ''True'' else ''False'')"

definition status_current :: "application \<Rightarrow> deployment_status \<Rightarrow> bool" where
  "status_current app dep \<longleftrightarrow>
     as_Phase (ap_Status app) = phase_of app dep \<and>
     as_ReadyReplicas (ap_Status app) = ds_ReadyReplicas dep \<and>
     as_Replicas (ap_Status app) = ds_Replicas dep \<and>
     as_ObservedGeneration (ap_Status app) = om_Generation (ap_meta app)"

definition new_status :: "time \<Rightarrow> application \<Rightarrow> deployment_status \<Rightarrow> application_status" where
  "new_status now app dep =
     \<lparr>as_Phase = phase_of app dep, as_ObservedGeneration = om_Generation (ap_meta app),
      as_Replicas = ds_Replicas dep, as_ReadyReplicas = ds_ReadyReplicas dep,
      as_Conditions = setCondition zero_time now (as_Conditions (ap_Status app))
        \<lparr>cn_Type = ''Available'', cn_Status = condition_status app dep,
         cn_ObservedGeneration = om_Generation (ap_meta app), cn_LastTransitionTime = zero_time,
         cn_Reason = phase_of app dep,
         cn_Message = FormatInt (ds_ReadyReplicas dep) @ ''/'' @ FormatInt (desired_replicas app) @ '' replicas ready''\<rparr>\<rparr>"

text \<open>One attempt: the flag is the captured variable \<^verbatim>\<open>wrote\<close>.\<close>

definition status_attempt ::
    "('k, 'q) kube \<Rightarrow> key \<Rightarrow> deployment_status \<Rightarrow> bool \<times> 'k \<Rightarrow> go_error option \<times> bool \<times> 'k" where
  "status_attempt K key dep s =
     (case s of (wrote, k) \<Rightarrow>
     (case kc_get_app K key k of
        (Inl err, k1) \<Rightarrow> (Some err, wrote, k1)
      | (Inr app, k1) \<Rightarrow>
          (if status_current app dep then (None, False, k1)
           else case kc_update_status K (app\<lparr>ap_Status := new_status (kc_now K k1) app dep\<rparr>) k1 of
                  (err, k2) \<Rightarrow> (err, True, k2))))"

definition updateStatus ::
    "('k, 'q) kube \<Rightarrow> key \<Rightarrow> deployment_status \<Rightarrow> 'k \<Rightarrow> (bool \<times> go_error option) \<times> 'k" where
  "updateStatus K key dep k =
     (case RetryOnConflict (kc_is_conflict K) (kc_retry_steps K) (status_attempt K key dep) (False, k) of
        (err, wrote, k') \<Rightarrow> ((wrote, err), k'))"

section \<open>Reconciling\<close>

datatype reconcile_result = Done | Failed go_error | Panic

definition owned_deployment :: "('k, 'q) kube \<Rightarrow> application \<Rightarrow> 'q deployment \<Rightarrow> go_error + 'q deployment" where
  "owned_deployment K app dep = map_sum id (\<lambda>m. dep\<lparr>dp_meta := m\<rparr>) (SetControllerReference K app (dp_meta dep))"

definition owned_service :: "('k, 'q) kube \<Rightarrow> application \<Rightarrow> go_error + kube_service" where
  "owned_service K app =
     map_sum id (\<lambda>m. (desiredService app)\<lparr>ks_meta := m\<rparr>) (SetControllerReference K app (ks_meta (desiredService app)))"

definition owned_configmap :: "('k, 'q) kube \<Rightarrow> application \<Rightarrow> go_error + config_map" where
  "owned_configmap K app =
     map_sum id (\<lambda>m. (desiredObservability app)\<lparr>cm_meta := m\<rparr>)
       (SetControllerReference K app (cm_meta (desiredObservability app)))"

definition apply_as :: "string \<Rightarrow> ('a \<Rightarrow> 'k \<Rightarrow> go_error option \<times> 'k) \<Rightarrow> go_error + 'a \<Rightarrow> 'k \<Rightarrow> go_error option \<times> 'k" where
  "apply_as what patch obj k =
     (case obj of
        Inl err \<Rightarrow> (Some err, k)
      | Inr x \<Rightarrow> (case patch x k of (Some err, k') \<Rightarrow> (Some (Errorf what err), k') | (None, k') \<Rightarrow> (None, k')))"

definition apply_exposed :: "('k, 'q) kube \<Rightarrow> application \<Rightarrow> 'k \<Rightarrow> go_error option \<times> 'k" where
  "apply_exposed K app k =
     (if sp_Expose (ap_Spec app) then apply_as ''apply service'' (kc_apply_service K) (owned_service K app) k
      else (None, k))"

definition Reconcile :: "('k, 'q) kube \<Rightarrow> key \<Rightarrow> 'k \<Rightarrow> reconcile_result \<times> 'k" where
  "Reconcile K req k =
     (case kc_get_app K req k of
        (Inl err, k1) \<Rightarrow> (if kc_is_not_found K err then (Done, k1) else (Failed err, k1))
      | (Inr app, k1) \<Rightarrow>
     (case desiredDeployment (kc_quantity K) app of
        None \<Rightarrow> (Panic, k1)
      | Some dep \<Rightarrow>
     (case apply_as ''apply deployment'' (kc_apply_deployment K) (owned_deployment K app dep) k1 of
        (Some err, k2) \<Rightarrow> (Failed err, k2)
      | (None, k2) \<Rightarrow>
     (case apply_exposed K app k2 of
        (Some err, k3) \<Rightarrow> (Failed err, k3)
      | (None, k3) \<Rightarrow>
     (case apply_as ''apply observability'' (kc_apply_configmap K) (owned_configmap K app) k3 of
        (Some err, k4) \<Rightarrow> (Failed err, k4)
      | (None, k4) \<Rightarrow>
     (case kc_get_deployment K (key_of (dp_meta dep)) k4 of
        (Inl err, k5) \<Rightarrow> (Failed (Errorf ''read deployment status'' err), k5)
      | (Inr live, k5) \<Rightarrow>
     (case updateStatus K req live k5 of
        ((wrote, Some err), k6) \<Rightarrow> (Failed err, k6)
      | ((wrote, None), k6) \<Rightarrow> (Done, k6))))))))"

section \<open>What the API server promises\<close>

definition with_deployment :: "'q deployment \<Rightarrow> 'q cluster \<Rightarrow> 'q cluster" where
  "with_deployment d v = v\<lparr>cl_deployments := (cl_deployments v)(key_of (dp_meta d) \<mapsto> d),
     cl_status := (case cl_status v (key_of (dp_meta d)) of
       None \<Rightarrow> (cl_status v)(key_of (dp_meta d) \<mapsto> \<lparr>ds_Replicas = 0, ds_ReadyReplicas = 0\<rparr>)
     | Some s \<Rightarrow> cl_status v)\<rparr>"

definition with_service :: "kube_service \<Rightarrow> 'q cluster \<Rightarrow> 'q cluster" where
  "with_service s v = v\<lparr>cl_services := (cl_services v)(key_of (ks_meta s) \<mapsto> s)\<rparr>"

definition with_configmap :: "config_map \<Rightarrow> 'q cluster \<Rightarrow> 'q cluster" where
  "with_configmap c v = v\<lparr>cl_configmaps := (cl_configmaps v)(key_of (cm_meta c) \<mapsto> c)\<rparr>"

definition restated :: "application \<Rightarrow> application_status \<Rightarrow> string \<Rightarrow> application" where
  "restated app st rv = app\<lparr>ap_Status := st, ap_meta := (ap_meta app)\<lparr>om_ResourceVersion := rv\<rparr>\<rparr>"

definition with_status :: "application \<Rightarrow> application_status \<Rightarrow> string \<Rightarrow> 'q cluster \<Rightarrow> 'q cluster" where
  "with_status stored st rv v = v\<lparr>cl_apps := (cl_apps v)(key_of (ap_meta stored) \<mapsto> restated stored st rv)\<rparr>"

definition writes :: "('k \<Rightarrow> 'v) \<Rightarrow> ('k \<Rightarrow> go_error option \<times> 'k) \<Rightarrow> ('v \<Rightarrow> 'v) \<Rightarrow> bool" where
  "writes view f g \<longleftrightarrow> (\<forall>k r k'. f k = (r, k') \<longrightarrow>
     view k' \<in> {view k, g (view k)} \<and> (r = None \<longrightarrow> view k' = g (view k)))"

definition kube_laws :: "('k, 'q) kube \<Rightarrow> bool" where
  "kube_laws K \<longleftrightarrow>
     (\<forall>key k r k'. kc_get_app K key k = (r, k') \<longrightarrow> kc_view K k' = kc_view K k \<and>
        (\<forall>a. r = Inr a \<longrightarrow> cl_apps (kc_view K k) key = Some a) \<and>
        (\<forall>e. r = Inl e \<and> kc_is_not_found K e \<longrightarrow> cl_apps (kc_view K k) key = None)) \<and>
     (\<forall>key k r k'. kc_get_deployment K key k = (r, k') \<longrightarrow> kc_view K k' = kc_view K k \<and>
        (\<forall>s. r = Inr s \<longrightarrow> cl_status (kc_view K k) key = Some s)) \<and>
     (\<forall>d. writes (kc_view K) (kc_apply_deployment K d) (with_deployment d)) \<and>
     (\<forall>s. writes (kc_view K) (kc_apply_service K s) (with_service s)) \<and>
     (\<forall>c. writes (kc_view K) (kc_apply_configmap K c) (with_configmap c)) \<and>
     (\<forall>app k r k'. kc_update_status K app k = (r, k') \<longrightarrow>
        r \<noteq> None \<and> kc_view K k' = kc_view K k \<or>
        (\<exists>stored rv. cl_apps (kc_view K k) (key_of (ap_meta app)) = Some stored \<and>
           om_ResourceVersion (ap_meta stored) = om_ResourceVersion (ap_meta app) \<and>
           kc_view K k' = with_status stored (ap_Status app) rv (kc_view K k)))"

lemma get_app_law:
  assumes "kube_laws K" and "kc_get_app K key k = (r, k')"
  shows "kc_view K k' = kc_view K k" and "r = Inr a \<Longrightarrow> cl_apps (kc_view K k) key = Some a"
    and "r = Inl e \<Longrightarrow> kc_is_not_found K e \<Longrightarrow> cl_apps (kc_view K k) key = None"
  using assms unfolding kube_laws_def by blast+

lemma get_deployment_law:
  assumes "kube_laws K" and "kc_get_deployment K key k = (r, k')"
  shows "kc_view K k' = kc_view K k" and "r = Inr s \<Longrightarrow> cl_status (kc_view K k) key = Some s"
  using assms unfolding kube_laws_def by blast+

lemma apply_laws:
  assumes "kube_laws K"
  shows "writes (kc_view K) (kc_apply_deployment K d) (with_deployment d)"
    and "writes (kc_view K) (kc_apply_service K s) (with_service s)"
    and "writes (kc_view K) (kc_apply_configmap K c) (with_configmap c)"
  using assms unfolding kube_laws_def by blast+

text \<open>Applications are stored under their own key.\<close>

definition apps_keyed :: "'q cluster \<Rightarrow> bool" where
  "apps_keyed v \<longleftrightarrow> (\<forall>key app. cl_apps v key = Some app \<longrightarrow> key_of (ap_meta app) = key)"

lemma apps_keyedD: "apps_keyed v \<Longrightarrow> cl_apps v key = Some app \<Longrightarrow> key_of (ap_meta app) = key"
  unfolding apps_keyed_def by blast

lemma with_apps [simp]:
  "cl_apps (with_deployment d v) = cl_apps v" "cl_apps (with_service s v) = cl_apps v"
  "cl_apps (with_configmap c v) = cl_apps v"
  by (simp_all add: with_deployment_def with_service_def with_configmap_def split: option.split)

lemma with_status_apps [simp]:
  "cl_apps (with_status stored st rv v) = (cl_apps v)(key_of (ap_meta stored) \<mapsto> restated stored st rv)"
  by (simp add: with_status_def)

lemma with_status_other [simp]:
  "cl_deployments (with_status stored st rv v) = cl_deployments v" "cl_services (with_status stored st rv v) = cl_services v"
  "cl_configmaps (with_status stored st rv v) = cl_configmaps v" "cl_status (with_status stored st rv v) = cl_status v"
  by (simp_all add: with_status_def)

lemma restated_simps [simp]:
  "ap_Status (restated app st rv) = st" "ap_Spec (restated app st rv) = ap_Spec app"
  "key_of (ap_meta (restated app st rv)) = key_of (ap_meta app)"
  "om_Name (ap_meta (restated app st rv)) = om_Name (ap_meta app)"
  "om_Namespace (ap_meta (restated app st rv)) = om_Namespace (ap_meta app)"
  "om_UID (ap_meta (restated app st rv)) = om_UID (ap_meta app)"
  "om_Generation (ap_meta (restated app st rv)) = om_Generation (ap_meta app)"
  by (simp_all add: restated_def key_of_def)

lemma apps_keyed_with [simp]:
  "apps_keyed (with_deployment d v) = apps_keyed v" "apps_keyed (with_service s v) = apps_keyed v"
  "apps_keyed (with_configmap c v) = apps_keyed v" "apps_keyed v \<Longrightarrow> apps_keyed (with_status app st rv v)"
  by (auto simp: apps_keyed_def)

lemma status_current_restated: "status_current (restated app (new_status now app dep) rv) dep"
  by (simp add: status_current_def new_status_def phase_of_def desired_replicas_def)

lemma status_attempt_effect:
  assumes "kube_laws K" and "apps_keyed (kc_view K k)" and "status_attempt K key dep (b, k) = (r, b', k')"
  obtains (same) "kc_view K k' = kc_view K k"
      and "r = None \<Longrightarrow> \<exists>app. cl_apps (kc_view K k) key = Some app \<and> status_current app dep"
  | (written) app now rv where "cl_apps (kc_view K k) key = Some app" and "\<not> status_current app dep"
      and "kc_view K k' = with_status app (new_status now app dep) rv (kc_view K k)"
proof -
  obtain q k1 where g: "kc_get_app K key k = (q, k1)" by fastforce
  note v = get_app_law [OF assms(1) g]
  show thesis
  proof (cases q)
    case (Inl e)
    with assms(3) g v show thesis by (intro same) (auto simp: status_attempt_def)
  next
    case (Inr app)
    note app = v(2) [OF Inr]
    show thesis
    proof (cases "status_current app dep")
      case True
      with assms(3) g v app Inr show thesis by (intro same) (auto simp: status_attempt_def)
    next
      case False
      let ?new = "app\<lparr>ap_Status := new_status (kc_now K k1) app dep\<rparr>"
      have u: "kc_update_status K ?new k1 = (r, k')"
        using assms(3) g Inr False by (auto simp: status_attempt_def split: prod.splits)
      have "key_of (ap_meta ?new) = key" using apps_keyedD [OF assms(2) app] by simp
      moreover have "r \<noteq> None \<and> kc_view K k' = kc_view K k1 \<or>
        (\<exists>stored rv. cl_apps (kc_view K k1) (key_of (ap_meta ?new)) = Some stored \<and>
           om_ResourceVersion (ap_meta stored) = om_ResourceVersion (ap_meta ?new) \<and>
           kc_view K k' = with_status stored (ap_Status ?new) rv (kc_view K k1))"
        using assms(1) u unfolding kube_laws_def by blast
      ultimately show thesis using same written [OF app False] app v(1) by auto
    qed
  qed
qed

lemma updateStatus_effect:
  assumes "kube_laws K" and "updateStatus K key dep k = ((wrote, err), k')" and "P (kc_view K k)"
    and keyed: "\<And>v. P v \<Longrightarrow> apps_keyed v"
    and step: "\<And>v app now rv. P v \<Longrightarrow> cl_apps v key = Some app \<Longrightarrow> \<not> status_current app dep \<Longrightarrow>
      P (with_status app (new_status now app dep) rv v)"
  shows "P (kc_view K k') \<and>
    (err = None \<longrightarrow> (\<exists>app. cl_apps (kc_view K k') key = Some app \<and> status_current app dep))"
proof -
  have loop: "P (kc_view K (snd s')) \<and>
      (r = None \<longrightarrow> (\<exists>app. cl_apps (kc_view K (snd s')) key = Some app \<and> status_current app dep))"
    if "RetryOnConflict (kc_is_conflict K) n (status_attempt K key dep) s = (r, s')" "P (kc_view K (snd s))" for n s r s'
    using that
  proof (induction n arbitrary: s)
    case (Suc n)
    obtain b k0 where s: "s = (b, k0)" by fastforce
    obtain r1 b1 k1 where a: "status_attempt K key dep (b, k0) = (r1, b1, k1)" by (metis prod.exhaust)
    have one: "P (kc_view K k1) \<and>
      (r1 = None \<longrightarrow> (\<exists>app. cl_apps (kc_view K k1) key = Some app \<and> status_current app dep))"
    proof (cases rule: status_attempt_effect [OF assms(1) _ a])
      case 1
      show ?case using Suc.prems(2) s keyed by simp
    next
      case 2
      then show ?thesis using Suc.prems(2) s by auto
    next
      case (3 app now rv)
      have "key_of (ap_meta app) = key" using apps_keyedD [OF keyed 3(1)] Suc.prems(2) s by simp
      then show ?thesis
        unfolding 3(3) using step [OF _ 3(1,2)] Suc.prems(2) s status_current_restated by auto
    qed
    then show ?case
      using Suc.prems(1) Suc.IH [of "(b1, k1)"] s a by (auto split: option.splits if_splits)
  qed auto
  obtain r s' where "RetryOnConflict (kc_is_conflict K) (kc_retry_steps K) (status_attempt K key dep) (False, k) = (r, s')"
    by (metis prod.exhaust)
  with loop [OF this] assms(2,3) show ?thesis by (auto simp: updateStatus_def split: prod.splits)
qed

section \<open>A reconcile\<close>

lemma apply_as_effect:
  assumes "apply_as what patch obj k = (r, k')" and "\<And>x. writes view (patch x) (g x)"
  shows "view k' = view k \<and> r \<noteq> None \<or> (\<exists>x. obj = Inr x \<and> view k' = g x (view k))"
  using assms unfolding apply_as_def writes_def
  by (fastforce split: sum.splits prod.splits option.splits)

lemma owned_meta:
  "desiredDeployment q app = Some dep \<Longrightarrow> owned_deployment K app dep = Inr d \<Longrightarrow> key_of (dp_meta d) = key_of (ap_meta app)"
  "desiredDeployment q app = Some dep \<Longrightarrow> key_of (dp_meta dep) = key_of (ap_meta app)"
  "owned_service K app = Inr s \<Longrightarrow> key_of (ks_meta s) = key_of (ap_meta app)"
  by (auto simp: owned_deployment_def owned_service_def desiredDeployment_def desiredService_def
      SetControllerReference_def key_of_def new_meta_def split: option.splits)

lemma Reconcile_effect:
  assumes laws: "kube_laws K" and run: "Reconcile K req k = (res, k')" and init: "P (kc_view K k)"
    and keyed: "\<And>v. P v \<Longrightarrow> apps_keyed v"
    and dep: "\<And>v app dep d. P v \<Longrightarrow> cl_apps v req = Some app \<Longrightarrow> desiredDeployment (kc_quantity K) app = Some dep \<Longrightarrow>
      owned_deployment K app dep = Inr d \<Longrightarrow> P (with_deployment d v)"
    and svc: "\<And>v app s. P v \<Longrightarrow> cl_apps v req = Some app \<Longrightarrow> sp_Expose (ap_Spec app) \<Longrightarrow>
      owned_service K app = Inr s \<Longrightarrow> P (with_service s v)"
    and cm: "\<And>v app c. P v \<Longrightarrow> cl_apps v req = Some app \<Longrightarrow> owned_configmap K app = Inr c \<Longrightarrow> P (with_configmap c v)"
    and st: "\<And>v app live now rv. P v \<Longrightarrow> cl_apps v req = Some app \<Longrightarrow> cl_status v req = Some live \<Longrightarrow>
      \<not> status_current app live \<Longrightarrow> P (with_status app (new_status now app live) rv v)"
  shows "P (kc_view K k')"
proof -
  note w = apply_laws [OF laws]
  obtain r1 k1 where 1: "kc_get_app K req k = (r1, k1)" by fastforce
  note v1 = get_app_law [OF laws 1]
  show ?thesis
  proof (cases "\<exists>app dep. r1 = Inr app \<and> desiredDeployment (kc_quantity K) app = Some dep")
    case False
    then have "k' = k1" using run 1 by (auto simp: Reconcile_def split: sum.splits option.splits if_splits)
    with v1 init show ?thesis by simp
  next
    case True
    then obtain app dep' where app: "r1 = Inr app" and d: "desiredDeployment (kc_quantity K) app = Some dep'" by blast
    have P1: "P (kc_view K k1)" "cl_apps (kc_view K k1) req = Some app" using v1 app init by auto
    obtain e2 k2 where 2: "apply_as ''apply deployment'' (kc_apply_deployment K) (owned_deployment K app dep') k1 = (e2, k2)"
      by fastforce
    have P2: "P (kc_view K k2)" "cl_apps (kc_view K k2) req = Some app"
      using apply_as_effect [OF 2 w(1)] dep [OF P1 d] P1 by auto
    obtain e3 k3 where 3: "apply_exposed K app k2 = (e3, k3)" by fastforce
    have P3: "P (kc_view K k3)" "cl_apps (kc_view K k3) req = Some app"
      using 3 apply_as_effect [OF _ w(2)] svc [OF P2] P2 by (fastforce simp: apply_exposed_def split: if_splits)+
    obtain e4 k4 where 4: "apply_as ''apply observability'' (kc_apply_configmap K) (owned_configmap K app) k3 = (e4, k4)"
      by fastforce
    have P4: "P (kc_view K k4)" "cl_apps (kc_view K k4) req = Some app"
      using apply_as_effect [OF 4 w(3)] cm [OF P3] P3 by auto
    obtain r5 k5 where 5: "kc_get_deployment K (key_of (dp_meta dep')) k4 = (r5, k5)" by fastforce
    have key: "key_of (dp_meta dep') = req"
      using owned_meta(2) [OF d] apps_keyedD [OF keyed P1(2)] P1(1) by simp
    note v5 = get_deployment_law [OF laws 5, unfolded key]
    have P6: "P (kc_view K k6)" if u: "r5 = Inr live" "updateStatus K req live k5 = ((wrote, err), k6)" for live wrote err k6
    proof -
      have "P (kc_view K k6) \<and> cl_status (kc_view K k6) req = Some live"
        using updateStatus_effect [OF laws u(2), where P = "\<lambda>v. P v \<and> cl_status v req = Some live"] P4 v5 keyed st u(1)
        by (auto simp: with_status_def)
      then show ?thesis by simp
    qed
    have "k' \<in> {k2, k3, k4, k5} \<or> (\<exists>live wrote err. r5 = Inr live \<and> updateStatus K req live k5 = ((wrote, err), k'))"
      using run 1 app d 2 3 4 5
      by (cases e2; cases e3; cases e4; cases r5) (auto simp: Reconcile_def split: prod.splits option.splits)
    then show ?thesis using P2 P3 P4 v5 P6 by auto
  qed
qed

lemma Reconcile_Done:
  assumes "Reconcile K req k = (Done, k')"
  obtains (gone) err where "kc_get_app K req k = (Inl err, k')" and "kc_is_not_found K err"
  | (applied) app k1 dep k2 k3 k4 live k5 wrote where "kc_get_app K req k = (Inr app, k1)"
      and "desiredDeployment (kc_quantity K) app = Some dep"
      and "apply_as ''apply deployment'' (kc_apply_deployment K) (owned_deployment K app dep) k1 = (None, k2)"
      and "apply_exposed K app k2 = (None, k3)"
      and "apply_as ''apply observability'' (kc_apply_configmap K) (owned_configmap K app) k3 = (None, k4)"
      and "kc_get_deployment K (key_of (dp_meta dep)) k4 = (Inr live, k5)"
      and "updateStatus K req live k5 = ((wrote, None), k')"
  using assms by (auto simp: Reconcile_def split: sum.splits prod.splits option.splits if_splits)

text \<open>The cluster after a reconcile that succeeded.\<close>

definition settled :: "('k, 'q) kube \<Rightarrow> key \<Rightarrow> application \<Rightarrow> 'q cluster \<Rightarrow> bool" where
  "settled K req app v \<longleftrightarrow>
     (\<exists>dep d. desiredDeployment (kc_quantity K) app = Some dep \<and> owned_deployment K app dep = Inr d \<and>
        cl_deployments v req = Some d) \<and>
     (sp_Expose (ap_Spec app) \<longrightarrow> (\<exists>s. owned_service K app = Inr s \<and> cl_services v req = Some s)) \<and>
     (\<exists>c. owned_configmap K app = Inr c \<and> cl_configmaps v (key_of (cm_meta c)) = Some c) \<and>
     (\<exists>live st rv. cl_status v req = Some live \<and> cl_apps v req = Some (restated app st rv) \<and>
        status_current (restated app st rv) live)"

lemma restated_restated [simp]: "restated (restated app st rv) st' rv' = restated app st' rv'"
  by (simp add: restated_def)

lemma restated_self: "app = restated app (ap_Status app) (om_ResourceVersion (ap_meta app))"
  by (simp add: restated_def)

lemma Reconcile_settled:
  assumes laws: "kube_laws K" and run: "Reconcile K req k = (Done, k')"
    and keyed: "apps_keyed (kc_view K k)" and app: "cl_apps (kc_view K k) req = Some app"
  shows "settled K req app (kc_view K k')"
  using run
proof (cases rule: Reconcile_Done)
  case (gone err)
  with get_app_law(3) [OF laws gone(1) refl] app show ?thesis by simp
next
  case (applied app' k1 dep k2 k3 k4 live k5 wrote)
  note w = apply_laws [OF laws]
  have v1: "kc_view K k1 = kc_view K k" "app' = app" using get_app_law(1,2) [OF laws applied(1)] app by auto
  have key: "key_of (ap_meta app) = req" "key_of (dp_meta dep) = req"
    using apps_keyedD [OF keyed app] owned_meta(2) [OF applied(2)] v1(2) by simp_all
  obtain d where d: "owned_deployment K app dep = Inr d" "kc_view K k2 = with_deployment d (kc_view K k1)"
    using apply_as_effect [OF applied(3) w(1)] v1(2) by auto
  have s: "kc_view K k3 = kc_view K k2 \<and> \<not> sp_Expose (ap_Spec app) \<or>
      (\<exists>s. owned_service K app = Inr s \<and> kc_view K k3 = with_service s (kc_view K k2))"
    using applied(4) apply_as_effect [OF _ w(2)] v1(2) by (fastforce simp: apply_exposed_def split: if_splits)
  obtain c where c: "owned_configmap K app = Inr c" "kc_view K k4 = with_configmap c (kc_view K k3)"
    using apply_as_effect [OF applied(5) w(3)] v1(2) by auto
  have v5: "kc_view K k5 = kc_view K k4" "cl_status (kc_view K k4) req = Some live"
    using get_deployment_law [OF laws applied(6)] key by simp_all
  let ?Q = "\<lambda>v. cl_deployments v req = Some d \<and>
    (sp_Expose (ap_Spec app) \<longrightarrow> (\<exists>s. owned_service K app = Inr s \<and> cl_services v req = Some s)) \<and>
    cl_configmaps v (key_of (cm_meta c)) = Some c \<and> cl_status v req = Some live"
  let ?P = "\<lambda>v. apps_keyed v \<and> ?Q v \<and> (\<exists>st rv. cl_apps v req = Some (restated app st rv))"
  have d2: "key_of (dp_meta d) = req" using owned_meta(1) applied(2) d(1) v1(2) key(1) by blast
  have s2: "key_of (ks_meta s) = req" if "owned_service K app = Inr s" for s using owned_meta(3) [OF that] key(1) by simp
  have "?Q (kc_view K k4)" using d d2 s s2 c v5(2) by (auto simp: with_deployment_def with_service_def with_configmap_def)
  moreover have "apps_keyed (kc_view K k4)" "cl_apps (kc_view K k4) req = Some app" using d(2) s c(2) v1 keyed app by auto
  ultimately have "?P (kc_view K k5)" using v5(1) restated_self [of app] by auto
  moreover have "?P (with_status a st rv v)" if "?P v" "cl_apps v req = Some a" for a st rv v
  proof -
    have "key_of (ap_meta a) = req" "apps_keyed (with_status a st rv v)" using that apps_keyedD [of v req a] by auto
    moreover have "?Q (with_status a st rv v)" using that by (simp add: with_status_def)
    moreover have "cl_apps (with_status a st rv v) req = Some (restated app st rv)" using that calculation(1) by auto
    ultimately show ?thesis by blast
  qed
  ultimately have "?P (kc_view K k') \<and> (\<exists>app. cl_apps (kc_view K k') req = Some app \<and> status_current app live)"
    using updateStatus_effect [OF laws applied(7), where P = ?P] by blast
  then show ?thesis unfolding settled_def using d(1) c(1) applied(2) v1(2) by (metis option.inject)
qed

section \<open>Well-formed clusters\<close>

definition selects :: "labels \<Rightarrow> labels \<Rightarrow> bool" where
  "selects sel lbls \<longleftrightarrow> sel \<subseteq>\<^sub>m lbls"

lemma selects_name: "selects [''forge.dev/application'' \<mapsto> n] (managedLabels app) \<longleftrightarrow> n = om_Name (ap_meta app)"
proof -
  have "managedLabels app ''forge.dev/application'' = Some (om_Name (ap_meta app))" by (simp add: managedLabels_def)
  then show ?thesis by (auto simp: selects_def map_le_def)
qed

definition hardened_container :: "'q container \<Rightarrow> bool" where
  "hardened_container c \<longleftrightarrow>
     sc_RunAsNonRoot (ct_SecurityContext c) \<and> \<not> sc_AllowPrivilegeEscalation (ct_SecurityContext c) \<and>
     ''ALL'' \<in> set (sc_DropCapabilities (ct_SecurityContext c)) \<and>
     rq_Limits (ct_Resources c) = rq_Requests (ct_Resources c) \<and>
     dom (rq_Requests (ct_Resources c)) = {''cpu'', ''memory''} \<and>
     pb_TCPPort (ct_LivenessProbe c) \<in> set (ct_Ports c) \<and> pb_TCPPort (ct_ReadinessProbe c) \<in> set (ct_Ports c)"

definition deployment_ok :: "'q deployment \<Rightarrow> bool" where
  "deployment_ok d \<longleftrightarrow>
     pt_RunAsNonRoot (dp_Template d) \<and> (\<forall>c \<in> set (pt_Containers (dp_Template d)). hardened_container c) \<and>
     selects (dp_Selector d) (pt_Labels (dp_Template d)) \<and> dp_Replicas d \<noteq> 0 \<and> om_Controller (dp_meta d) \<noteq> None"

definition status_ok :: "application_status \<Rightarrow> bool" where
  "status_ok st \<longleftrightarrow> distinct (map cn_Type (as_Conditions st)) \<and>
     (as_Phase st \<noteq> [] \<longrightarrow> (\<exists>c \<in> set (as_Conditions st). cn_Type c = ''Available'' \<and> cn_Reason c = as_Phase st \<and>
        cn_ObservedGeneration c = as_ObservedGeneration st \<and>
        cn_Status c = (if as_Phase st = ''Ready'' then ''True'' else ''False'')))"

definition cluster_ok :: "'q cluster \<Rightarrow> bool" where
  "cluster_ok v \<longleftrightarrow> apps_keyed v \<and> (\<forall>key d. cl_deployments v key = Some d \<longrightarrow> deployment_ok d) \<and>
     (\<forall>key app. cl_apps v key = Some app \<longrightarrow> status_ok (ap_Status app))"

lemma resourceRequirements_equal:
  assumes "resourceRequirements q app = Some res"
  shows "rq_Limits res = rq_Requests res" and "dom (rq_Requests res) = {''cpu'', ''memory''}"
  using assms by (auto simp: resourceRequirements_def Let_def split: option.splits if_splits)

lemma desiredDeployment_ok:
  assumes "desiredDeployment q app = Some dep" and "owned_deployment K app dep = Inr d"
  shows "deployment_ok d"
proof -
  obtain res where res: "resourceRequirements q app = Some res" using assms(1) by (auto simp: desiredDeployment_def split: option.splits)
  note eq = resourceRequirements_equal [OF res]
  have "hardened_container (desired_container res app)"
    using eq by (simp add: hardened_container_def desired_container_def tcpProbe_def)
  moreover have "selects [''forge.dev/application'' \<mapsto> om_Name (ap_meta app)] (managedLabels app)"
    by (simp add: selects_name)
  moreover have "desired_replicas app \<noteq> 0" by (simp add: desired_replicas_def)
  ultimately show ?thesis
    using assms res
    by (auto simp: deployment_ok_def desiredDeployment_def owned_deployment_def SetControllerReference_def
        split: option.splits)
qed

lemma upsert_types: "set (map cn_Type (upsert c ds)) = insert (cn_Type c) (set (map cn_Type ds))"
  by (induction ds) auto

lemma upsert_distinct: "distinct (map cn_Type ds) \<Longrightarrow> distinct (map cn_Type (upsert c ds))"
proof (induction ds)
  case (Cons d ds)
  then show ?case using upsert_types [of c ds] by auto
qed simp

lemma upsert_member: "\<exists>t. c\<lparr>cn_LastTransitionTime := t\<rparr> \<in> set (upsert c ds)"
proof (induction ds)
  case Nil
  show ?case by (rule exI [of _ "cn_LastTransitionTime c"]) simp
next
  case (Cons d ds)
  then show ?case by (cases "cn_Status d = cn_Status c") (auto intro: exI [of _ "cn_LastTransitionTime c"])
qed

lemma new_status_ok:
  assumes "status_ok (ap_Status app)"
  shows "status_ok (new_status now app live)"
proof -
  let ?c = "\<lparr>cn_Type = ''Available'', cn_Status = condition_status app live,
         cn_ObservedGeneration = om_Generation (ap_meta app), cn_LastTransitionTime = now,
         cn_Reason = phase_of app live,
         cn_Message = FormatInt (ds_ReadyReplicas live) @ ''/'' @ FormatInt (desired_replicas app) @ '' replicas ready''\<rparr>"
  have conds: "as_Conditions (new_status now app live) = upsert ?c (as_Conditions (ap_Status app))"
    by (simp add: new_status_def setCondition_def)
  obtain t where "?c\<lparr>cn_LastTransitionTime := t\<rparr> \<in> set (upsert ?c (as_Conditions (ap_Status app)))"
    using upsert_member by blast
  moreover have "condition_status app live = (if phase_of app live = ''Ready'' then ''True'' else ''False'')"
    by (simp add: condition_status_def phase_of_def)
  moreover have "as_Phase (new_status now app live) = phase_of app live"
    "as_ObservedGeneration (new_status now app live) = om_Generation (ap_meta app)" by (simp_all add: new_status_def)
  moreover have "distinct (map cn_Type (upsert ?c (as_Conditions (ap_Status app))))"
    using assms by (intro upsert_distinct) (simp add: status_ok_def)
  ultimately show ?thesis unfolding status_ok_def conds by force
qed

section \<open>Properties\<close>

text \<open>An API server without faults: an instance of the parameter.\<close>

definition plain_kube :: "(string cluster, string) kube" where
  "plain_kube = \<lparr>kc_view = (\<lambda>k. k), kc_quantity = (\<lambda>s. if s = [] then None else Some s), kc_now = (\<lambda>k. 1000),
     kc_is_not_found = (\<lambda>e. e = OtherError ''not found''), kc_is_conflict = (\<lambda>e. e = OtherError ''conflict''),
     kc_retry_steps = 5, kc_owner_error = (\<lambda>key uid m. None),
     kc_get_app = (\<lambda>key k. (case cl_apps k key of None \<Rightarrow> Inl (OtherError ''not found'') | Some a \<Rightarrow> Inr a, k)),
     kc_get_deployment = (\<lambda>key k. (case cl_status k key of None \<Rightarrow> Inl (OtherError ''not found'') | Some s \<Rightarrow> Inr s, k)),
     kc_apply_deployment = (\<lambda>d k. (None, with_deployment d k)),
     kc_apply_service = (\<lambda>s k. (None, with_service s k)),
     kc_apply_configmap = (\<lambda>c k. (None, with_configmap c k)),
     kc_update_status = (\<lambda>app k. case cl_apps k (key_of (ap_meta app)) of
        None \<Rightarrow> (Some (OtherError ''not found''), k)
      | Some stored \<Rightarrow>
          (if om_ResourceVersion (ap_meta stored) = om_ResourceVersion (ap_meta app)
           then (None, with_status stored (ap_Status app) (CHR ''v'' # om_ResourceVersion (ap_meta stored)) k)
           else (Some (OtherError ''conflict''), k)))\<rparr>"

lemma plain_kube_laws [simp]: "kube_laws plain_kube"
  by (auto simp: kube_laws_def plain_kube_def writes_def split: option.splits if_splits)

definition example_app :: application where
  "example_app = \<lparr>ap_meta = (new_meta ''pay'' ''default'' Map.empty)\<lparr>om_UID := ''u1'', om_Generation := 1\<rparr>,
     ap_Spec = \<lparr>sp_Image = ''pay:1'', sp_Port = 8080, sp_Replicas = 2, sp_Tier = 1, sp_Env = [],
       sp_Resources = \<lparr>rr_CPU = [], rr_Memory = []\<rparr>, sp_Expose = False,
       sp_Security = \<lparr>ss_ReadOnlyRootFilesystem = None\<rparr>\<rparr>,
     ap_Status = \<lparr>as_Phase = [], as_ObservedGeneration = 0, as_Replicas = 0, as_ReadyReplicas = 0, as_Conditions = []\<rparr>\<rparr>"

definition example_cluster :: "string cluster" where
  "example_cluster = \<lparr>cl_apps = [(''default'', ''pay'') \<mapsto> example_app], cl_deployments = Map.empty,
     cl_services = Map.empty, cl_configmaps = Map.empty, cl_status = Map.empty\<rparr>"

lemma example_cluster_ok [simp]: "cluster_ok example_cluster"
  by (auto simp: cluster_ok_def apps_keyed_def example_cluster_def example_app_def key_of_def new_meta_def status_ok_def
      split: if_splits)

text \<open>
  C26: Every workload the platform runs is hardened and every status it reports is coherent.
  Whatever fails on the way, a reconcile keeps the cluster well formed: each deployment runs as
  non-root without privilege escalation and with all capabilities dropped, has limits equal to
  its requests for cpu and memory, probes on a port it declares, a selector that matches its own
  pods, at least a replica to run and a controlling owner; and in each application's status the
  condition types are distinct and the Available condition agrees with the phase and the
  observed generation.
\<close>

theorem reconcile_keeps_cluster_ok:
  assumes "kube_laws K" and "cluster_ok (kc_view K k)" and "Reconcile K req k = (res, k')"
  shows "cluster_ok (kc_view K k')"
  using assms(1,3,2)
proof (rule Reconcile_effect)
  show "cluster_ok v \<Longrightarrow> apps_keyed v" for v by (simp add: cluster_ok_def)
  show "cluster_ok (with_deployment d v)"
    if "cluster_ok v" "desiredDeployment (kc_quantity K) app = Some dep" "owned_deployment K app dep = Inr d" for v app dep d
    using that desiredDeployment_ok [OF that(2,3)] by (auto simp: cluster_ok_def with_deployment_def apps_keyed_def split: option.splits)
  show "cluster_ok v \<Longrightarrow> cluster_ok (with_service s v)" for v s by (simp add: cluster_ok_def with_service_def apps_keyed_def)
  show "cluster_ok v \<Longrightarrow> cluster_ok (with_configmap c v)" for v c by (simp add: cluster_ok_def with_configmap_def apps_keyed_def)
  show "cluster_ok (with_status app (new_status now app live) rv v)" if "cluster_ok v" "cl_apps v req = Some app" for v app live now rv
  proof -
    have "status_ok (new_status now app live)" using that unfolding cluster_ok_def by (intro new_status_ok) blast
    moreover have "apps_keyed (with_status app (new_status now app live) rv v)" using that by (simp add: cluster_ok_def)
    ultimately show ?thesis using that by (auto simp: cluster_ok_def with_status_def)
  qed
qed

theorem reconcile_keeps_cluster_ok_witness:
  "cluster_ok (kc_view plain_kube (snd (Reconcile plain_kube (''default'', ''pay'') example_cluster)))"
proof -
  obtain res k' where r: "Reconcile plain_kube (''default'', ''pay'') example_cluster = (res, k')" by fastforce
  have "cluster_ok (kc_view plain_kube example_cluster)" by (simp add: plain_kube_def)
  from reconcile_keeps_cluster_ok [OF plain_kube_laws this r] r show ?thesis by simp
qed

text \<open>What is desired of an application does not depend on its status.\<close>

lemma restated_desired:
  "desiredDeployment q (restated app st rv) = desiredDeployment q app"
  "owned_deployment K (restated app st rv) = owned_deployment K app"
  "owned_service K (restated app st rv) = owned_service K app"
  "owned_configmap K (restated app st rv) = owned_configmap K app"
proof -
  have tier: "effectiveTier (restated app st rv) = effectiveTier app" "readOnlyRoot (restated app st rv) = readOnlyRoot app"
    "desired_replicas (restated app st rv) = desired_replicas app"
    by (simp_all only: effectiveTier_def readOnlyRoot_def desired_replicas_def restated_simps)
  then have parts: "managedLabels (restated app st rv) = managedLabels app"
    "resourceRequirements q (restated app st rv) = resourceRequirements q app"
    "desired_container r (restated app st rv) = desired_container r app"
    "dashboardJSON (restated app st rv) = dashboardJSON app" "alertRules (restated app st rv) = alertRules app"
    for q :: "string \<Rightarrow> 'q option" and r :: "'q resource_requirements"
    by (simp_all only: managedLabels_def resourceRequirements_def desired_container_def dashboardJSON_def alertRules_def restated_simps)
  have "desiredService (restated app st rv) = desiredService app" "desiredObservability (restated app st rv) = desiredObservability app"
    "SetControllerReference K (restated app st rv) = SetControllerReference K app"
    by (simp_all only: desiredService_def desiredObservability_def SetControllerReference_def [abs_def] parts restated_simps)
  then show "desiredDeployment q (restated app st rv) = desiredDeployment q app"
    "owned_deployment K (restated app st rv) = owned_deployment K app"
    "owned_service K (restated app st rv) = owned_service K app"
    "owned_configmap K (restated app st rv) = owned_configmap K app"
    by (simp_all only: desiredDeployment_def owned_deployment_def [abs_def] owned_service_def owned_configmap_def tier parts restated_simps)
qed

text \<open>
  C27: Reconciling is idempotent. After a reconcile that succeeded, a second one of the same
  application, whether it succeeds or fails midway, leaves everything observable as it is: the
  same objects are applied again and the status, being current, is not written.
\<close>

theorem reconcile_idempotent:
  assumes "kube_laws K" and "apps_keyed (kc_view K k)" and "cl_apps (kc_view K k) req = Some app"
    and "Reconcile K req k = (Done, k1)" and "Reconcile K req k1 = (res, k2)"
  shows "kc_view K k2 = kc_view K k1"
proof -
  let ?v = "kc_view K k1"
  have keyed: "apps_keyed ?v"
    by (rule Reconcile_effect [where P = apps_keyed, OF assms(1,4,2)]) simp_all
  have key: "key_of (ap_meta app) = req" using apps_keyedD [OF assms(2,3)] .
  note settled = Reconcile_settled [OF assms(1,4,2,3)]
  obtain dep d c live st rv where s: "desiredDeployment (kc_quantity K) app = Some dep" "owned_deployment K app dep = Inr d"
    "cl_deployments ?v req = Some d" "sp_Expose (ap_Spec app) \<longrightarrow> (\<exists>s. owned_service K app = Inr s \<and> cl_services ?v req = Some s)"
    "owned_configmap K app = Inr c" "cl_configmaps ?v (key_of (cm_meta c)) = Some c"
    "cl_status ?v req = Some live" "cl_apps ?v req = Some (restated app st rv)" "status_current (restated app st rv) live"
    using settled unfolding settled_def by blast
  have d: "key_of (dp_meta d) = req" using owned_meta(1) [OF s(1,2)] key by simp
  from assms(1,5) refl show ?thesis
  proof (rule Reconcile_effect [where P = "\<lambda>v. v = ?v"])
    show "v = ?v \<Longrightarrow> apps_keyed v" for v using keyed by simp
    show "with_deployment d' v = ?v"
      if "v = ?v" "cl_apps v req = Some a" "desiredDeployment (kc_quantity K) a = Some dep'" "owned_deployment K a dep' = Inr d'" for v a dep' d'
      using that s(1-3,7,8) d by (auto simp: restated_desired with_deployment_def fun_upd_idem)
    show "with_service s v = ?v"
      if "v = ?v" "cl_apps v req = Some a" "sp_Expose (ap_Spec a)" "owned_service K a = Inr s" for v a s
      using that s(4,8) owned_meta(3) [of K app s] key by (auto simp: restated_desired with_service_def fun_upd_idem)
    show "with_configmap c' v = ?v" if "v = ?v" "cl_apps v req = Some a" "owned_configmap K a = Inr c'" for v a c'
      using that s(5,6,8) by (auto simp: restated_desired with_configmap_def fun_upd_idem)
    show "with_status a (new_status now a live') rv' v = ?v"
      if "v = ?v" "cl_apps v req = Some a" "cl_status v req = Some live'" "\<not> status_current a live'" for v a live' now rv'
      using that s(7-9) by auto
  qed
qed

lemma example_reconcile_done: "fst (Reconcile plain_kube (''default'', ''pay'') example_cluster) = Done"
proof -
  let ?key = "(''default'', ''pay'')"
  have key: "key_of (ap_meta example_app) = ?key" by (simp add: example_app_def key_of_def new_meta_def)
  have app: "cl_apps example_cluster ?key = Some example_app" by (simp add: example_cluster_def)
  obtain dep where dep: "desiredDeployment (kc_quantity plain_kube) example_app = Some dep"
    by (auto simp: desiredDeployment_def resourceRequirements_def Let_def plain_kube_def example_app_def
        effectiveTier_def tierDefaults_def split: option.split)
  have own: "SetControllerReference plain_kube example_app m = Inr (m\<lparr>om_Controller := Some (om_UID (ap_meta example_app))\<rparr>)" for m
    by (simp add: SetControllerReference_def plain_kube_def)
  have expose: "\<not> sp_Expose (ap_Spec example_app)" by (simp add: example_app_def)
  have get: "kc_get_app plain_kube ?key k = (Inr example_app, k)" if "cl_apps k ?key = Some example_app" for k
    using that by (simp add: plain_kube_def)
  have upd: "kc_update_status plain_kube (example_app\<lparr>ap_Status := st\<rparr>) k =
      (None, with_status example_app st (CHR ''v'' # om_ResourceVersion (ap_meta example_app)) k)"
    if "cl_apps k ?key = Some example_app" for k st
    using that key by (simp add: plain_kube_def)
  have dep_status: "kc_get_deployment plain_kube ?key (with_configmap c (with_deployment d k)) =
      (Inr (case cl_status k ?key of None \<Rightarrow> \<lparr>ds_Replicas = 0, ds_ReadyReplicas = 0\<rparr> | Some s \<Rightarrow> s), with_configmap c (with_deployment d k))"
    if "key_of (dp_meta d) = ?key" for c d k
    using that by (simp add: plain_kube_def with_configmap_def with_deployment_def split: option.split)
  have steps: "kc_retry_steps plain_kube = Suc 4" by (simp add: plain_kube_def)
  have status: "\<exists>w k'. updateStatus plain_kube ?key live k = ((w, None), k')" if "cl_apps k ?key = Some example_app" for live k
    using get [OF that] upd [OF that] by (auto simp: updateStatus_def steps status_attempt_def numeral_eq_Suc)
  have patch: "apply_as what (kc_apply_deployment plain_kube) (Inr d) k = (None, with_deployment d k)"
    "apply_as what (kc_apply_configmap plain_kube) (Inr c) k = (None, with_configmap c k)" for what d c k
    by (simp_all add: apply_as_def plain_kube_def)
  obtain d c where d: "owned_deployment plain_kube example_app dep = Inr d" "owned_configmap plain_kube example_app = Inr c"
    by (simp add: owned_deployment_def owned_configmap_def own)
  have dk: "key_of (dp_meta dep) = ?key" "key_of (dp_meta d) = ?key"
    using owned_meta(1) [OF dep d(1)] owned_meta(2) [OF dep] key by simp_all
  obtain w k' where "updateStatus plain_kube ?key
      (case cl_status example_cluster ?key of None \<Rightarrow> \<lparr>ds_Replicas = 0, ds_ReadyReplicas = 0\<rparr> | Some s \<Rightarrow> s)
      (with_configmap c (with_deployment d example_cluster)) = ((w, None), k')"
    using status app by (metis with_apps(1,3))
  then show ?thesis
    using get [OF app] dep expose d dk dep_status [OF dk(2)]
    by (simp add: Reconcile_def apply_exposed_def patch)
qed

theorem reconcile_idempotent_witness:
  "let k1 = snd (Reconcile plain_kube (''default'', ''pay'') example_cluster)
   in snd (Reconcile plain_kube (''default'', ''pay'') k1) = k1"
proof -
  obtain k1 where 1: "Reconcile plain_kube (''default'', ''pay'') example_cluster = (Done, k1)"
    using example_reconcile_done by (metis prod.collapse)
  obtain res k2 where 2: "Reconcile plain_kube (''default'', ''pay'') k1 = (res, k2)" by fastforce
  have "apps_keyed example_cluster" using example_cluster_ok by (simp add: cluster_ok_def del: example_cluster_ok)
  moreover have "kc_view plain_kube = (\<lambda>k. k)" "cl_apps example_cluster (''default'', ''pay'') = Some example_app"
    by (simp_all add: plain_kube_def example_cluster_def)
  ultimately show ?thesis
    using reconcile_idempotent [OF plain_kube_laws _ _ 1 2] 1 2 by simp
qed

text \<open>
  C30: A service reaches its own application and no other: the selector of the service of one
  application matches the pods of a deployment exactly when that deployment is the one of the
  application of the same name, whatever else the two ask for; and its target port is a port
  that the pods declare.
\<close>

theorem service_selects_own_pods:
  assumes "desiredDeployment q app = Some dep"
  shows "(selects (ks_Selector (desiredService svc)) (pt_Labels (dp_Template dep)) \<longleftrightarrow>
      om_Name (ap_meta svc) = om_Name (ap_meta app)) \<and>
    (\<forall>p \<in> set (ks_Ports (desiredService app)). \<forall>c \<in> set (pt_Containers (dp_Template dep)). sv_TargetPort p \<in> set (ct_Ports c))"
proof -
  have "pt_Labels (dp_Template dep) = managedLabels app"
    "\<exists>res. pt_Containers (dp_Template dep) = [desired_container res app]"
    using assms by (auto simp: desiredDeployment_def split: option.splits)
  then show ?thesis
    using selects_name [of "om_Name (ap_meta svc)" app] by (auto simp: desiredService_def desired_container_def)
qed

theorem service_selects_own_pods_witness:
  "\<exists>dep. desiredDeployment Some example_app = Some dep \<and>
    \<not> selects (ks_Selector (desiredService (example_app\<lparr>ap_meta := (ap_meta example_app)\<lparr>om_Name := ''cart''\<rparr>\<rparr>)))
        (pt_Labels (dp_Template dep))"
proof -
  obtain dep where dep: "desiredDeployment Some example_app = Some dep"
    by (auto simp: desiredDeployment_def resourceRequirements_def Let_def split: option.split)
  have "om_Name (ap_meta example_app) = ''pay''" by (simp add: example_app_def new_meta_def)
  with dep service_selects_own_pods [OF dep, of "example_app\<lparr>ap_meta := (ap_meta example_app)\<lparr>om_Name := ''cart''\<rparr>\<rparr>"]
  show ?thesis by auto
qed

text \<open>
  C32: Turning exposure off does not take a service away: reconciling an application that is not
  exposed leaves every service as it is, the one of an earlier reconcile with exposure on
  included.
\<close>

theorem unexposed_service_kept:
  assumes "kube_laws K" and "apps_keyed (kc_view K k)" and "cl_apps (kc_view K k) req = Some app"
    and "\<not> sp_Expose (ap_Spec app)" and "Reconcile K req k = (res, k')"
  shows "cl_services (kc_view K k') = cl_services (kc_view K k)"
proof -
  let ?P = "\<lambda>v. apps_keyed v \<and> cl_services v = cl_services (kc_view K k) \<and>
    (\<exists>a. cl_apps v req = Some a \<and> \<not> sp_Expose (ap_Spec a))"
  have "?P (kc_view K k')"
  proof (rule Reconcile_effect [OF assms(1,5), where P = ?P])
    show "?P (with_status a st rv v)" if "?P v" "cl_apps v req = Some a" for a st rv v
      using that apps_keyedD [of v req a] by auto
  qed (use assms(2-4) in \<open>auto simp: with_deployment_def with_configmap_def apps_keyed_def\<close>)
  then show ?thesis by simp
qed

theorem unexposed_service_kept_witness:
  "let k = with_service (desiredService example_app) example_cluster
   in cl_services (snd (Reconcile plain_kube (''default'', ''pay'') k)) (''default'', ''pay'') = Some (desiredService example_app)"
proof -
  let ?k = "with_service (desiredService example_app) example_cluster"
  obtain res k' where r: "Reconcile plain_kube (''default'', ''pay'') ?k = (res, k')" by fastforce
  have "apps_keyed example_cluster" using example_cluster_ok by (simp add: cluster_ok_def del: example_cluster_ok)
  then have "cl_services k' = cl_services ?k"
    using unexposed_service_kept [OF plain_kube_laws _ _ _ r, of example_app]
    by (simp add: plain_kube_def example_cluster_def) (simp add: example_app_def)
  then show ?thesis
    using r by (simp add: with_service_def key_of_def desiredService_def new_meta_def) (simp add: example_app_def new_meta_def)
qed

end
