(* ===== verification/Application_Copy.thy ===== *)
theory Application_Copy
  imports Go_Memory Application_Controller
begin

text \<open>
  \<^verbatim>\<open>api/v1alpha1/zz_generated.deepcopy.go\<close>: the deep copies of the Application types, which the
  client's cache relies on when it hands an object to the reconciler. The types are here as they are
  in memory, with pointers and slices; the values they denote are the records of
  \<open>Application_Controller\<close>.

  The copies of \<^verbatim>\<open>ObjectMeta\<close>, \<^verbatim>\<open>ListMeta\<close> and \<^verbatim>\<open>Condition\<close> are methods of the Kubernetes library, a
  parameter: they copy the receiver deeply (\<open>meta_laws\<close>). The argument \<^verbatim>\<open>out\<close> of a \<^verbatim>\<open>DeepCopyInto\<close> is
  storage of its own at every call, so a method is a function from the struct to its copy.
\<close>

section \<open>The types in memory\<close>

record type_meta =
  tm_Kind :: string
  tm_APIVersion :: string

record go_security =
  gs_ReadOnlyRootFilesystem :: "pointer option"

record go_spec =
  gp_Image :: string
  gp_Port :: int
  gp_Replicas :: int
  gp_Tier :: int
  gp_Env :: "slice option"
  gp_Resources :: resource_requests
  gp_Expose :: bool
  gp_Security :: go_security

record go_status =
  gt_Phase :: string
  gt_ObservedGeneration :: int
  gt_Replicas :: int
  gt_ReadyReplicas :: int
  gt_Conditions :: "slice option"

record 'm go_application =
  ga_TypeMeta :: type_meta
  ga_ObjectMeta :: 'm
  ga_Spec :: go_spec
  ga_Status :: go_status

record 'l go_application_list =
  gl_TypeMeta :: type_meta
  gl_ListMeta :: 'l
  gl_Items :: "slice option"

datatype ('m, 'l, 'x) cell =
    BoolCells "bool list"
  | EnvCells "env_var list"
  | ConditionCells "condition list"
  | SecurityCells "go_security list"
  | SpecCells "go_spec list"
  | StatusCells "go_status list"
  | ApplicationCells "'m go_application list"
  | ApplicationListCells "'l go_application_list list"
  | LibraryCells "'x list"

definition bools :: "('m, 'l, 'x) cell \<Rightarrow> bool list option" where
  "bools c = (case c of BoolCells xs \<Rightarrow> Some xs | _ \<Rightarrow> None)"

definition envs :: "('m, 'l, 'x) cell \<Rightarrow> env_var list option" where
  "envs c = (case c of EnvCells xs \<Rightarrow> Some xs | _ \<Rightarrow> None)"

definition conditions :: "('m, 'l, 'x) cell \<Rightarrow> condition list option" where
  "conditions c = (case c of ConditionCells xs \<Rightarrow> Some xs | _ \<Rightarrow> None)"

definition securities :: "('m, 'l, 'x) cell \<Rightarrow> go_security list option" where
  "securities c = (case c of SecurityCells xs \<Rightarrow> Some xs | _ \<Rightarrow> None)"

definition specs :: "('m, 'l, 'x) cell \<Rightarrow> go_spec list option" where
  "specs c = (case c of SpecCells xs \<Rightarrow> Some xs | _ \<Rightarrow> None)"

definition statuses :: "('m, 'l, 'x) cell \<Rightarrow> go_status list option" where
  "statuses c = (case c of StatusCells xs \<Rightarrow> Some xs | _ \<Rightarrow> None)"

definition applications :: "('m, 'l, 'x) cell \<Rightarrow> 'm go_application list option" where
  "applications c = (case c of ApplicationCells xs \<Rightarrow> Some xs | _ \<Rightarrow> None)"

definition application_lists :: "('m, 'l, 'x) cell \<Rightarrow> 'l go_application_list list option" where
  "application_lists c = (case c of ApplicationListCells xs \<Rightarrow> Some xs | _ \<Rightarrow> None)"

definition library :: "('m, 'l, 'x) cell \<Rightarrow> 'x list option" where
  "library c = (case c of LibraryCells xs \<Rightarrow> Some xs | _ \<Rightarrow> None)"

lemmas cells_of = bools_def envs_def conditions_def securities_def specs_def statuses_def applications_def
  application_lists_def library_def

text \<open>The methods and zero values of the library's types.\<close>

record ('m, 'l, 'x, 'v) meta_lib =
  ml_ObjectMeta_zero :: 'm
  ml_ObjectMeta_DeepCopyInto :: "'m \<Rightarrow> ('m, 'l, 'x) cell memory \<Rightarrow> 'm \<times> ('m, 'l, 'x) cell memory"
  ml_ObjectMeta_value :: "('m, 'l, 'x) cell memory \<Rightarrow> 'm \<Rightarrow> object_meta option"
  ml_ObjectMeta_cells :: "('m, 'l, 'x) cell memory \<Rightarrow> 'm \<Rightarrow> addr set"
  ml_ListMeta_zero :: 'l
  ml_ListMeta_DeepCopyInto :: "'l \<Rightarrow> ('m, 'l, 'x) cell memory \<Rightarrow> 'l \<times> ('m, 'l, 'x) cell memory"
  ml_ListMeta_value :: "('m, 'l, 'x) cell memory \<Rightarrow> 'l \<Rightarrow> 'v option"
  ml_ListMeta_cells :: "('m, 'l, 'x) cell memory \<Rightarrow> 'l \<Rightarrow> addr set"
  ml_Condition_DeepCopyInto :: "condition \<Rightarrow> condition"

definition meta_laws :: "('m, 'l, 'x, 'v) meta_lib \<Rightarrow> bool" where
  "meta_laws M \<longleftrightarrow>
     deep_copy (ml_ObjectMeta_DeepCopyInto M) (ml_ObjectMeta_value M) (ml_ObjectMeta_cells M) \<and>
     deep_copy (ml_ListMeta_DeepCopyInto M) (ml_ListMeta_value M) (ml_ListMeta_cells M) \<and>
     (\<forall>c. ml_Condition_DeepCopyInto M c = c)"

section \<open>Zero values\<close>

text \<open>The zero time is the first of January of the year 1.\<close>

definition zero_env :: env_var where
  "zero_env = \<lparr>ev_Name = [], ev_Value = []\<rparr>"

definition zero_condition :: condition where
  "zero_condition = \<lparr>cn_Type = [], cn_Status = [], cn_ObservedGeneration = 0, cn_LastTransitionTime = - 62135596800 * 1000000000,
     cn_Reason = [], cn_Message = []\<rparr>"

definition zero_security :: go_security where
  "zero_security = \<lparr>gs_ReadOnlyRootFilesystem = None\<rparr>"

definition zero_spec :: go_spec where
  "zero_spec = \<lparr>gp_Image = [], gp_Port = 0, gp_Replicas = 0, gp_Tier = 0, gp_Env = None,
     gp_Resources = \<lparr>rr_CPU = [], rr_Memory = []\<rparr>, gp_Expose = False, gp_Security = zero_security\<rparr>"

definition zero_status :: go_status where
  "zero_status = \<lparr>gt_Phase = [], gt_ObservedGeneration = 0, gt_Replicas = 0, gt_ReadyReplicas = 0, gt_Conditions = None\<rparr>"

definition zero_type_meta :: type_meta where
  "zero_type_meta = \<lparr>tm_Kind = [], tm_APIVersion = []\<rparr>"

definition zero_application :: "('m, 'l, 'x, 'v) meta_lib \<Rightarrow> 'm go_application" where
  "zero_application M = \<lparr>ga_TypeMeta = zero_type_meta, ga_ObjectMeta = ml_ObjectMeta_zero M,
     ga_Spec = zero_spec, ga_Status = zero_status\<rparr>"

definition zero_application_list :: "('m, 'l, 'x, 'v) meta_lib \<Rightarrow> 'l go_application_list" where
  "zero_application_list M = \<lparr>gl_TypeMeta = zero_type_meta, gl_ListMeta = ml_ListMeta_zero M, gl_Items = None\<rparr>"

section \<open>The copies\<close>

definition SecuritySettings_DeepCopyInto ::
    "go_security \<Rightarrow> ('m, 'l, 'x) cell memory \<Rightarrow> go_security \<times> ('m, 'l, 'x) cell memory" where
  "SecuritySettings_DeepCopyInto inp m =
     (case copy_pointer BoolCells bools False (\<lambda>b m. (b, m)) (gs_ReadOnlyRootFilesystem inp) m of
        (p, m1) \<Rightarrow> (inp\<lparr>gs_ReadOnlyRootFilesystem := p\<rparr>, m1))"

definition ApplicationSpec_DeepCopyInto ::
    "go_spec \<Rightarrow> ('m, 'l, 'x) cell memory \<Rightarrow> go_spec \<times> ('m, 'l, 'x) cell memory" where
  "ApplicationSpec_DeepCopyInto inp m =
     (case copy_slice EnvCells envs zero_env (\<lambda>e m. (e, m)) (gp_Env inp) m of (env, m1) \<Rightarrow>
     (case SecuritySettings_DeepCopyInto (gp_Security inp) m1 of (sec, m2) \<Rightarrow>
        (inp\<lparr>gp_Env := env, gp_Resources := gp_Resources inp, gp_Security := sec\<rparr>, m2)))"

definition ApplicationStatus_DeepCopyInto ::
    "('m, 'l, 'x, 'v) meta_lib \<Rightarrow> go_status \<Rightarrow> ('m, 'l, 'x) cell memory \<Rightarrow> go_status \<times> ('m, 'l, 'x) cell memory" where
  "ApplicationStatus_DeepCopyInto M inp m =
     (case copy_slice ConditionCells conditions zero_condition (\<lambda>c m. (ml_Condition_DeepCopyInto M c, m))
             (gt_Conditions inp) m of
        (conds, m1) \<Rightarrow> (inp\<lparr>gt_Conditions := conds\<rparr>, m1))"

definition Application_DeepCopyInto ::
    "('m, 'l, 'x, 'v) meta_lib \<Rightarrow> 'm go_application \<Rightarrow> ('m, 'l, 'x) cell memory \<Rightarrow>
     'm go_application \<times> ('m, 'l, 'x) cell memory" where
  "Application_DeepCopyInto M inp m =
     (case ml_ObjectMeta_DeepCopyInto M (ga_ObjectMeta inp) m of (om, m1) \<Rightarrow>
     (case ApplicationSpec_DeepCopyInto (ga_Spec inp) m1 of (sp, m2) \<Rightarrow>
     (case ApplicationStatus_DeepCopyInto M (ga_Status inp) m2 of (st, m3) \<Rightarrow>
        (inp\<lparr>ga_TypeMeta := ga_TypeMeta inp, ga_ObjectMeta := om, ga_Spec := sp, ga_Status := st\<rparr>, m3))))"

definition ApplicationList_DeepCopyInto ::
    "('m, 'l, 'x, 'v) meta_lib \<Rightarrow> 'l go_application_list \<Rightarrow> ('m, 'l, 'x) cell memory \<Rightarrow>
     'l go_application_list \<times> ('m, 'l, 'x) cell memory" where
  "ApplicationList_DeepCopyInto M inp m =
     (case ml_ListMeta_DeepCopyInto M (gl_ListMeta inp) m of (lm, m1) \<Rightarrow>
     (case copy_slice ApplicationCells applications (zero_application M) (Application_DeepCopyInto M) (gl_Items inp) m1 of
        (items, m2) \<Rightarrow> (inp\<lparr>gl_TypeMeta := gl_TypeMeta inp, gl_ListMeta := lm, gl_Items := items\<rparr>, m2)))"

definition SecuritySettings_DeepCopy ::
    "pointer option \<Rightarrow> ('m, 'l, 'x) cell memory \<Rightarrow> pointer option \<times> ('m, 'l, 'x) cell memory" where
  "SecuritySettings_DeepCopy = copy_pointer SecurityCells securities zero_security SecuritySettings_DeepCopyInto"

definition ApplicationSpec_DeepCopy ::
    "pointer option \<Rightarrow> ('m, 'l, 'x) cell memory \<Rightarrow> pointer option \<times> ('m, 'l, 'x) cell memory" where
  "ApplicationSpec_DeepCopy = copy_pointer SpecCells specs zero_spec ApplicationSpec_DeepCopyInto"

definition ApplicationStatus_DeepCopy ::
    "('m, 'l, 'x, 'v) meta_lib \<Rightarrow> pointer option \<Rightarrow> ('m, 'l, 'x) cell memory \<Rightarrow>
     pointer option \<times> ('m, 'l, 'x) cell memory" where
  "ApplicationStatus_DeepCopy M = copy_pointer StatusCells statuses zero_status (ApplicationStatus_DeepCopyInto M)"

definition Application_DeepCopy ::
    "('m, 'l, 'x, 'v) meta_lib \<Rightarrow> pointer option \<Rightarrow> ('m, 'l, 'x) cell memory \<Rightarrow>
     pointer option \<times> ('m, 'l, 'x) cell memory" where
  "Application_DeepCopy M = copy_pointer ApplicationCells applications (zero_application M) (Application_DeepCopyInto M)"

definition ApplicationList_DeepCopy ::
    "('m, 'l, 'x, 'v) meta_lib \<Rightarrow> pointer option \<Rightarrow> ('m, 'l, 'x) cell memory \<Rightarrow>
     pointer option \<times> ('m, 'l, 'x) cell memory" where
  "ApplicationList_DeepCopy M =
     copy_pointer ApplicationListCells application_lists (zero_application_list M) (ApplicationList_DeepCopyInto M)"

text \<open>The interface \<^verbatim>\<open>runtime.Object\<close>: a nil pointer becomes the nil interface.\<close>

datatype runtime_object = ApplicationObject pointer | ApplicationListObject pointer

definition Application_DeepCopyObject ::
    "('m, 'l, 'x, 'v) meta_lib \<Rightarrow> pointer option \<Rightarrow> ('m, 'l, 'x) cell memory \<Rightarrow>
     runtime_object option \<times> ('m, 'l, 'x) cell memory" where
  "Application_DeepCopyObject M p m =
     (case Application_DeepCopy M p m of
        (Some c, m') \<Rightarrow> (Some (ApplicationObject c), m')
      | (None, m') \<Rightarrow> (None, m'))"

definition ApplicationList_DeepCopyObject ::
    "('m, 'l, 'x, 'v) meta_lib \<Rightarrow> pointer option \<Rightarrow> ('m, 'l, 'x) cell memory \<Rightarrow>
     runtime_object option \<times> ('m, 'l, 'x) cell memory" where
  "ApplicationList_DeepCopyObject M p m =
     (case ApplicationList_DeepCopy M p m of
        (Some c, m') \<Rightarrow> (Some (ApplicationListObject c), m')
      | (None, m') \<Rightarrow> (None, m'))"

definition DeepCopyObject ::
    "('m, 'l, 'x, 'v) meta_lib \<Rightarrow> runtime_object \<Rightarrow> ('m, 'l, 'x) cell memory \<Rightarrow>
     runtime_object option \<times> ('m, 'l, 'x) cell memory" where
  "DeepCopyObject M obj m =
     (case obj of
        ApplicationObject p \<Rightarrow> Application_DeepCopyObject M (Some p) m
      | ApplicationListObject p \<Rightarrow> ApplicationList_DeepCopyObject M (Some p) m)"

section \<open>What the types denote\<close>

definition security_value :: "('m, 'l, 'x) cell memory \<Rightarrow> go_security \<Rightarrow> security_settings option" where
  "security_value m s =
     map_option security_settings.make (pointer_value bools (\<lambda>m b. Some b) m (gs_ReadOnlyRootFilesystem s))"

definition spec_value :: "('m, 'l, 'x) cell memory \<Rightarrow> go_spec \<Rightarrow> application_spec option" where
  "spec_value m s =
     map_option (\<lambda>v. application_spec.make (gp_Image s) (gp_Port s) (gp_Replicas s) (gp_Tier s) (fst v)
         (gp_Resources s) (gp_Expose s) (snd v))
       (both (slice_value envs (\<lambda>m e. Some e) m (gp_Env s)) (security_value m (gp_Security s)))"

definition status_value :: "('m, 'l, 'x) cell memory \<Rightarrow> go_status \<Rightarrow> application_status option" where
  "status_value m s =
     map_option (application_status.make (gt_Phase s) (gt_ObservedGeneration s) (gt_Replicas s) (gt_ReadyReplicas s))
       (slice_value conditions (\<lambda>m c. Some c) m (gt_Conditions s))"

definition application_value ::
    "('m, 'l, 'x, 'v) meta_lib \<Rightarrow> ('m, 'l, 'x) cell memory \<Rightarrow> 'm go_application \<Rightarrow> (type_meta \<times> application) option" where
  "application_value M m a =
     map_option (\<lambda>v. (ga_TypeMeta a, application.make (fst v) (fst (snd v)) (snd (snd v))))
       (both (ml_ObjectMeta_value M m (ga_ObjectMeta a)) (both (spec_value m (ga_Spec a)) (status_value m (ga_Status a))))"

definition application_list_value ::
    "('m, 'l, 'x, 'v) meta_lib \<Rightarrow> ('m, 'l, 'x) cell memory \<Rightarrow> 'l go_application_list \<Rightarrow>
     (type_meta \<times> 'v \<times> (type_meta \<times> application) list) option" where
  "application_list_value M m l =
     map_option (Pair (gl_TypeMeta l))
       (both (ml_ListMeta_value M m (gl_ListMeta l)) (slice_value applications (application_value M) m (gl_Items l)))"

definition security_cells :: "('m, 'l, 'x) cell memory \<Rightarrow> go_security \<Rightarrow> addr set" where
  "security_cells m s = pointer_cells bools (\<lambda>m b. {}) m (gs_ReadOnlyRootFilesystem s)"

definition spec_cells :: "('m, 'l, 'x) cell memory \<Rightarrow> go_spec \<Rightarrow> addr set" where
  "spec_cells m s = slice_cells envs (\<lambda>m e. {}) m (gp_Env s) \<union> security_cells m (gp_Security s)"

definition status_cells :: "('m, 'l, 'x) cell memory \<Rightarrow> go_status \<Rightarrow> addr set" where
  "status_cells m s = slice_cells conditions (\<lambda>m c. {}) m (gt_Conditions s)"

definition application_cells ::
    "('m, 'l, 'x, 'v) meta_lib \<Rightarrow> ('m, 'l, 'x) cell memory \<Rightarrow> 'm go_application \<Rightarrow> addr set" where
  "application_cells M m a =
     ml_ObjectMeta_cells M m (ga_ObjectMeta a) \<union> (spec_cells m (ga_Spec a) \<union> status_cells m (ga_Status a))"

definition application_list_cells ::
    "('m, 'l, 'x, 'v) meta_lib \<Rightarrow> ('m, 'l, 'x) cell memory \<Rightarrow> 'l go_application_list \<Rightarrow> addr set" where
  "application_list_cells M m l =
     ml_ListMeta_cells M m (gl_ListMeta l) \<union> slice_cells applications (application_cells M) m (gl_Items l)"

section \<open>The copies are deep\<close>

lemma deep_security: "deep_copy SecuritySettings_DeepCopyInto security_value security_cells"
  by (rule deep_field [where get = gs_ReadOnlyRootFilesystem and put = "\<lambda>x r. r\<lparr>gs_ReadOnlyRootFilesystem := x\<rparr>"
        and mk = "\<lambda>r. security_settings.make", OF deep_pointer [OF deep_value, where mk = BoolCells and un = bools and zero = False]])
    (simp_all add: SecuritySettings_DeepCopyInto_def security_value_def security_cells_def cells_of)

lemma deep_spec: "deep_copy ApplicationSpec_DeepCopyInto spec_value spec_cells"
  by (rule deep_field [where get = "\<lambda>r. (gp_Env r, gp_Security r)"
        and put = "\<lambda>x r. r\<lparr>gp_Env := fst x, gp_Security := snd x\<rparr>", OF deep_both [OF deep_slice [OF deep_value, where mk = EnvCells and un = envs and zero = zero_env] deep_security],
        where mk = "\<lambda>s v. application_spec.make (gp_Image s) (gp_Port s) (gp_Replicas s) (gp_Tier s) (fst v)
          (gp_Resources s) (gp_Expose s) (snd v)"])
    (simp_all add: ApplicationSpec_DeepCopyInto_def copy_both_def spec_value_def spec_cells_def cells_of split: prod.splits)

text \<open>The contract on the copies that need nothing of the library.\<close>

interpretation sec: deep_copy SecuritySettings_DeepCopyInto security_value security_cells
  by (rule deep_security)

interpretation sps: deep_copy ApplicationSpec_DeepCopyInto spec_value spec_cells
  by (rule deep_spec)

lemma deep_status:
  assumes "meta_laws M"
  shows "deep_copy (ApplicationStatus_DeepCopyInto M) status_value status_cells"
proof -
  have "deep_copy (copy_slice ConditionCells conditions zero_condition (\<lambda>c m. (ml_Condition_DeepCopyInto M c, m)))
      (slice_value conditions (\<lambda>m c. Some c)) (slice_cells conditions (\<lambda>m c. {}))"
    using deep_slice [OF deep_value, of conditions ConditionCells zero_condition] assms
    by (simp add: meta_laws_def cells_of)
  then show ?thesis
    by (rule deep_field [where get = gt_Conditions and put = "\<lambda>x r. r\<lparr>gt_Conditions := x\<rparr>"
          and mk = "\<lambda>s. application_status.make (gt_Phase s) (gt_ObservedGeneration s) (gt_Replicas s) (gt_ReadyReplicas s)"])
      (simp_all add: ApplicationStatus_DeepCopyInto_def status_value_def status_cells_def)
qed

lemma deep_application:
  assumes "meta_laws M"
  shows "deep_copy (Application_DeepCopyInto M) (application_value M) (application_cells M)"
  by (rule deep_field [where get = "\<lambda>r. (ga_ObjectMeta r, ga_Spec r, ga_Status r)"
        and put = "\<lambda>x r. r\<lparr>ga_ObjectMeta := fst x, ga_Spec := fst (snd x), ga_Status := snd (snd x)\<rparr>",
        OF deep_both [OF conjunct1 [OF assms [unfolded meta_laws_def]] deep_both [OF deep_spec deep_status [OF assms]]],
        where mk = "\<lambda>a v. (ga_TypeMeta a, application.make (fst v) (fst (snd v)) (snd (snd v)))"])
    (simp_all add: Application_DeepCopyInto_def copy_both_def application_value_def application_cells_def split: prod.splits)

lemma deep_application_list:
  assumes "meta_laws M"
  shows "deep_copy (ApplicationList_DeepCopyInto M) (application_list_value M) (application_list_cells M)"
proof -
  have "deep_copy (ml_ListMeta_DeepCopyInto M) (ml_ListMeta_value M) (ml_ListMeta_cells M)"
    using assms by (simp add: meta_laws_def)
  from deep_both [OF this deep_slice [OF deep_application [OF assms], where mk = ApplicationCells and un = applications and zero = "zero_application M"]]
  show ?thesis
    by (rule deep_field [where get = "\<lambda>r. (gl_ListMeta r, gl_Items r)" and put = "\<lambda>x r. r\<lparr>gl_ListMeta := fst x, gl_Items := snd x\<rparr>"
          and mk = "\<lambda>l. Pair (gl_TypeMeta l)"])
      (simp_all add: ApplicationList_DeepCopyInto_def copy_both_def application_list_value_def application_list_cells_def
        cells_of split: prod.splits)
qed

text \<open>An object of the interface, through its pointer.\<close>

definition object_value ::
    "('m, 'l, 'x, 'v) meta_lib \<Rightarrow> ('m, 'l, 'x) cell memory \<Rightarrow> runtime_object \<Rightarrow>
     ((type_meta \<times> application) + type_meta \<times> 'v \<times> (type_meta \<times> application) list) option" where
  "object_value M m obj =
     (case obj of
        ApplicationObject p \<Rightarrow> map_option (\<lambda>v. Inl (the v)) (pointer_value applications (application_value M) m (Some p))
      | ApplicationListObject p \<Rightarrow>
          map_option (\<lambda>v. Inr (the v)) (pointer_value application_lists (application_list_value M) m (Some p)))"

definition object_cells ::
    "('m, 'l, 'x, 'v) meta_lib \<Rightarrow> ('m, 'l, 'x) cell memory \<Rightarrow> runtime_object \<Rightarrow> addr set" where
  "object_cells M m obj =
     (case obj of
        ApplicationObject p \<Rightarrow> pointer_cells applications (application_cells M) m (Some p)
      | ApplicationListObject p \<Rightarrow> pointer_cells application_lists (application_list_cells M) m (Some p))"

section \<open>Examples\<close>

text \<open>
  A library in which an \<^verbatim>\<open>ObjectMeta\<close> holds its labels by reference, as the library does with its
  maps, and a memory with one application.
\<close>

definition example_meta :: "(object_meta \<times> pointer option, string, labels, string) meta_lib" where
  "example_meta =
     \<lparr>ml_ObjectMeta_zero = (new_meta [] [] Map.empty, None),
      ml_ObjectMeta_DeepCopyInto = (\<lambda>r m. case copy_pointer LibraryCells library Map.empty (\<lambda>x m. (x, m)) (snd r) m of
        (p, m') \<Rightarrow> ((fst r, p), m')),
      ml_ObjectMeta_value = (\<lambda>m r. map_option (\<lambda>l. fst r\<lparr>om_Labels := case l of None \<Rightarrow> Map.empty | Some l \<Rightarrow> l\<rparr>)
        (pointer_value library (\<lambda>m x. Some x) m (snd r))),
      ml_ObjectMeta_cells = (\<lambda>m r. pointer_cells library (\<lambda>m x. {}) m (snd r)),
      ml_ListMeta_zero = [],
      ml_ListMeta_DeepCopyInto = (\<lambda>x m. (x, m)), ml_ListMeta_value = (\<lambda>m x. Some x), ml_ListMeta_cells = (\<lambda>m x. {}),
      ml_Condition_DeepCopyInto = (\<lambda>c. c)\<rparr>"

lemma example_meta_laws [simp]: "meta_laws example_meta"
proof -
  have "deep_copy (ml_ObjectMeta_DeepCopyInto example_meta) (ml_ObjectMeta_value example_meta) (ml_ObjectMeta_cells example_meta)"
    by (rule deep_field [where get = snd and put = "\<lambda>p r. (fst r, p)"
          and mk = "\<lambda>r l. fst r\<lparr>om_Labels := case l of None \<Rightarrow> Map.empty | Some l \<Rightarrow> l\<rparr>",
          OF deep_pointer [OF deep_value, where mk = LibraryCells and un = library and zero = Map.empty]])
      (simp_all add: example_meta_def cells_of)
  then show ?thesis using deep_value by (simp add: meta_laws_def) (simp add: example_meta_def deep_value)
qed

definition example_memory :: "(object_meta \<times> pointer option, string, labels) cell memory" where
  "example_memory =
     \<lparr>mm_next = 4,
      mm_cells = [0 \<mapsto> LibraryCells [[''team'' \<mapsto> ''payments'']],
        1 \<mapsto> EnvCells [\<lparr>ev_Name = ''MODE'', ev_Value = ''live''\<rparr>],
        2 \<mapsto> BoolCells [False],
        3 \<mapsto> ApplicationCells
          [\<lparr>ga_TypeMeta = \<lparr>tm_Kind = ''Application'', tm_APIVersion = ''platform.forge.dev/v1alpha1''\<rparr>,
            ga_ObjectMeta = (new_meta ''checkout'' ''shop'' Map.empty, Some (0, 0)),
            ga_Spec = zero_spec\<lparr>gp_Image := ''checkout:1'', gp_Env := Some \<lparr>sl_array = 1, sl_off = 0, sl_len = 1\<rparr>,
              gp_Security := \<lparr>gs_ReadOnlyRootFilesystem = Some (2, 0)\<rparr>\<rparr>,
            ga_Status = zero_status\<rparr>]]\<rparr>"

section \<open>Properties\<close>

text \<open>
  C31: A copy of an application or of a list of applications denotes the same value, with the
  original unchanged, and shares no memory with it: whatever is later written through the copy (to
  the cells it reaches, or to new ones) the original denotes the same value, and whatever is written
  through the original the copy does.
\<close>

theorem deep_copies_isolated:
  assumes "meta_laws M" and "mem_ok m" and "object_value M m obj = Some v" and "DeepCopyObject M obj m = (res, m')"
  shows "\<exists>c. res = Some c \<and> object_value M m' c = Some v \<and> object_value M m' obj = Some v \<and>
    (\<forall>m''. agree (dom (mm_cells m') - object_cells M m' c) m' m'' \<longrightarrow> object_value M m'' obj = Some v) \<and>
    (\<forall>m''. agree (dom (mm_cells m') - object_cells M m' obj) m' m'' \<longrightarrow> object_value M m'' c = Some v)"
proof (cases obj)
  case (ApplicationObject p)
  obtain u where u: "pointer_value applications (application_value M) m (Some p) = Some u" "v = Inl (the u)"
    using assms(3) by (auto simp: object_value_def ApplicationObject)
  obtain q m1 where q: "Application_DeepCopy M (Some p) m = (q, m1)" by fastforce
  have "\<And>xs. applications (ApplicationCells xs) = Some xs" by (simp add: cells_of)
  from pointer_isolated [OF deep_application [OF assms(1)] this assms(2) u(1) q [unfolded Application_DeepCopy_def]]
  show ?thesis using assms(4) u(2) q
    by (auto simp: DeepCopyObject_def Application_DeepCopyObject_def ApplicationObject object_value_def object_cells_def)
next
  case (ApplicationListObject p)
  obtain u where u: "pointer_value application_lists (application_list_value M) m (Some p) = Some u" "v = Inr (the u)"
    using assms(3) by (auto simp: object_value_def ApplicationListObject)
  obtain q m1 where q: "ApplicationList_DeepCopy M (Some p) m = (q, m1)" by fastforce
  have "\<And>xs. application_lists (ApplicationListCells xs) = Some xs" by (simp add: cells_of)
  from pointer_isolated [OF deep_application_list [OF assms(1)] this assms(2) u(1) q [unfolded ApplicationList_DeepCopy_def]]
  show ?thesis using assms(4) u(2) q
    by (auto simp: DeepCopyObject_def ApplicationList_DeepCopyObject_def ApplicationListObject object_value_def object_cells_def)
qed

text \<open>The copy of the example denotes the example, and overwriting its environment leaves the original.\<close>

theorem deep_copies_isolated_witness:
  "\<exists>v c m'. object_value example_meta example_memory (ApplicationObject (3, 0)) = Some v \<and>
     sp_Env (ap_Spec (snd (projl v))) = [\<lparr>ev_Name = ''MODE'', ev_Value = ''live''\<rparr>] \<and>
     DeepCopyObject example_meta (ApplicationObject (3, 0)) example_memory = (Some c, m') \<and>
     object_value example_meta m' c = Some v"
proof -
  have ok: "mem_ok example_memory" by (simp add: mem_ok_def example_memory_def)
  obtain v where v: "object_value example_meta example_memory (ApplicationObject (3, 0)) = Some v"
    "sp_Env (ap_Spec (snd (projl v))) = [\<lparr>ev_Name = ''MODE'', ev_Value = ''live''\<rparr>]"
    by (simp add: object_value_def pointer_value_def slice_value_def pointed_def elements_def example_memory_def cells_of
        application_value_def spec_value_def status_value_def security_value_def example_meta_def zero_spec_def
        zero_status_def both_def application_spec.make_def application.make_def)
  obtain res m' where r: "DeepCopyObject example_meta (ApplicationObject (3, 0)) example_memory = (res, m')" by fastforce
  show ?thesis using deep_copies_isolated [OF example_meta_laws ok v(1) r] v r by auto
qed

end
