(* ===== verification/Catalog_Pages.thy ===== *)
theory Catalog_Pages
  imports Catalog_Listing
begin

text \<open>
  Listing the catalog page by page: the rows a call answers are a prefix of what follows its
  cursor in the ordering of the matching rows (through the locale \<open>keyset\<close>), so a client that
  follows the cursors reads everything once. Also the bounds of a page and the refusal of a
  cursor that belongs to another listing.
\<close>

section \<open>Pages of the ordered rows\<close>

interpretation created: keyset "by_created E desc" for E desc
proof -
  have k: "keyset (pair_before (<) :: time \<times> uuid \<Rightarrow> _)"
    by (rule keyset_pair) (unfold_locales; auto)
  show "keyset (by_created E desc)"
    using k keyset.flip [OF k] by (cases desc) (simp_all add: by_created_def [abs_def])
qed

lemma keyset_by_name: "pg_laws (env_pg E) \<Longrightarrow> keyset (by_name E desc)"
proof -
  assume "pg_laws (env_pg E)"
  then have k: "keyset (pair_before (pg_collate (env_pg E)) :: string \<times> uuid \<Rightarrow> _)"
    by (intro keyset_pair) (simp add: pg_laws_def)
  show "keyset (by_name E desc)"
    using k keyset.flip [OF k] by (cases desc) (simp_all add: by_name_def [abs_def])
qed

text \<open>The matching rows in the requested order.\<close>

definition ordered_rows :: "env \<Rightarrow> list_filter \<Rightarrow> db \<Rightarrow> catalog_service_row list" where
  "ordered_rows E f d =
     (let desc = (lf_Order f = OrderDesc); rows = filter (row_matches f) (catalog_services d)
      in if lf_Sort f = SortName
         then sort_by (\<lambda>a b. by_name E desc (cs_name a, cs_id a) (cs_name b, cs_id b)) rows
         else sort_by (\<lambda>a b. by_created E desc (cs_created_at a, cs_id a) (cs_created_at b, cs_id b)) rows)"

lemma set_ordered_rows [simp]: "set (ordered_rows E f d) = {r \<in> set (catalog_services d). row_matches f r}"
  by (auto simp: ordered_rows_def Let_def)

lemma length_ordered_rows: "length (ordered_rows E f d) \<le> length (catalog_services d)"
  by (simp add: ordered_rows_def Let_def)

definition cursor_at :: "uuid_lib \<Rightarrow> list_filter \<Rightarrow> catalog_service_row \<Rightarrow> cursor" where
  "cursor_at U f r =
     \<lparr>cu_Sort = lf_Sort f, cu_Order = lf_Order f,
      cu_Value = (if lf_Sort f = SortName then cs_name r else RFC3339Nano (cs_created_at r)),
      cu_ID = uuid_String U (cs_id r)\<rparr>"

lemma keys_distinct:
  assumes "distinct (map cs_id rows)"
  shows "distinct (map (\<lambda>r. (g r, cs_id r)) rows)"
  using assms by (auto simp: distinct_map inj_on_def)

lemma select_first:
  assumes "0 \<le> lf_Limit f" and "lf_Limit f \<le> 200"
  shows "select_services E f None d = (Inr (take (nat (lf_Limit f + 1)) (ordered_rows E f d)), d)"
proof -
  have "int64 (lf_Limit f + 1) = lf_Limit f + 1" using assms by (intro int64_id) (simp add: in_int64_def)
  then show ?thesis
    using assms(1) by (simp add: select_services_def Let_def ordered_rows_def select_page_def)
qed

lemma select_after:
  assumes ok: "catalog_ok d" and U: "uuid_laws (env_uuid E)" and G: "pg_laws (env_pg E)"
    and lim: "0 \<le> lf_Limit f" "lf_Limit f \<le> 200" and o: "ordered_rows E f d = pre @ x # suf"
    and y: "year_ok (cs_created_at x)"
  shows "select_services E f (Some (cursor_at (env_uuid E) f x)) d =
    (Inr (take (nat (lf_Limit f + 1)) suf), d)"
proof -
  let ?desc = "lf_Order f = OrderDesc" and ?n = "nat (lf_Limit f + 1)"
  have "x \<in> set (ordered_rows E f d)" using o by simp
  then have x: "service_row_ok x" using catalog_okD(3) [OF ok] by simp
  have n: "int64 (lf_Limit f + 1) = lf_Limit f + 1" using lim by (intro int64_id) (simp add: in_int64_def)
  have name: "name_ok (ServiceName (cs_name x))" using x by (simp add: service_row_ok_def)
  have texts: "pg_text (cu_Value (cursor_at (env_uuid E) f x))" "pg_text (cu_ID (cursor_at (env_uuid E) f x))"
    using ascii_name [OF name] U by (auto simp: cursor_at_def intro: pg_text_ascii)
  have t: "pg_timestamptz_in (env_pg E) (RFC3339Nano (cs_created_at x)) = Some (cs_created_at x)"
    using G x y by (simp add: pg_laws_def service_row_ok_def)
  have byname: "select_page (by_name E ?desc) (\<lambda>r. (cs_name r, cs_id r)) (row_matches f)
      (Some (cs_name x, cs_id x)) ?n (catalog_services d) = take ?n suf" if "lf_Sort f = SortName"
    using keyset.select_page_after [OF keyset_by_name [OF G] keys_distinct [OF catalog_okD(1) [OF ok]],
        where p = "row_matches f" and pre = pre and x = x and suf = suf] o that
    by (simp add: ordered_rows_def)
  have bycreated: "select_page (by_created E ?desc) (\<lambda>r. (cs_created_at r, cs_id r)) (row_matches f)
      (Some (cs_created_at x, cs_id x)) ?n (catalog_services d) = take ?n suf" if "lf_Sort f \<noteq> SortName"
    using created.select_page_after [OF keys_distinct [OF catalog_okD(1) [OF ok]],
        where p = "row_matches f" and pre = pre and x = x and suf = suf] o that
    by (simp add: ordered_rows_def)
  show ?thesis
    using n lim(1) texts t U byname bycreated
    by (simp add: select_services_def Let_def cursor_at_def del: sort_names)
qed

lemma scanService_times:
  "scanService U (Some r) = Inr s \<Longrightarrow> svc_createdAt s = cs_created_at r \<and> svc_updatedAt s = cs_updated_at r"
  by (auto simp: scanService_def Reconstitute_def split: sum.splits)

lemma scan_rows_ok:
  assumes "uuid_laws U" and "\<forall>r \<in> set rows. service_row_ok r"
  obtains ss where "scan_rows U rows = Inr ss" and "map row_of ss = rows" 
    and "\<forall>s \<in> set ss. service_ok s \<and> timestamptz (svc_createdAt s) = svc_createdAt s"
  using assms(2)
proof (induction rows arbitrary: thesis)
  case Nil
  then show ?case by simp
next
  case (Cons r rows)
  from Cons.IH Cons.prems(2) obtain ss where ss: "scan_rows U rows = Inr ss" "map row_of ss = rows"
      "\<forall>s \<in> set ss. service_ok s \<and> timestamptz (svc_createdAt s) = svc_createdAt s" by auto
  have r: "service_row_ok r" using Cons.prems(2) by simp
  obtain s where s: "scanService U (Some r) = Inr s" "service_ok s" "row_of s = r"
    using scanService_ok [OF assms(1) r] by metis
  with scanService_times [OF s(1)] r have "timestamptz (svc_createdAt s) = svc_createdAt s"
    by (simp add: service_row_ok_def)
  with s ss show ?case by (intro Cons.prems(1) [of "s # ss"]) auto
qed

lemma encodeCursor_at:
  assumes "timestamptz (svc_createdAt s) = svc_createdAt s"
  shows "encodeCursor U f s = EncodeToString (Marshal (cursor_json (cursor_at U f (row_of s))))"
  using assms by (simp add: encodeCursor_def cursor_at_def row_of_def Let_def ServiceID_String_def)

section \<open>Reading all pages\<close>

definition cursor_text :: "uuid_lib \<Rightarrow> list_filter \<Rightarrow> catalog_service_row \<Rightarrow> string" where
  "cursor_text U f r = EncodeToString (Marshal (cursor_json (cursor_at U f r)))"

lemma cursor_text_nonempty [simp]: "cursor_text U f r \<noteq> []"
  by (simp add: cursor_text_def cursor_json_def EncodeToString_nonempty)

lemma cursor_text_decodes:
  assumes "uuid_laws U" and "service_row_ok r" and "ascii (lf_Sort f)" and "ascii (lf_Order f)"
  shows "decodeCursor (cursor_text U f r) (lf_Sort f) (lf_Order f) = Inr (cursor_at U f r)"
proof -
  have "ascii (cs_name r)" using assms(2) ascii_name [of "ServiceName (cs_name r)"]
    by (simp add: service_row_ok_def)
  then show ?thesis
    using assms unfolding cursor_text_def
    by (subst decodeCursor_encoded) (simp_all add: cursor_at_def)
qed

lemma with_cursor [simp]:
  "ordered_rows E (f\<lparr>lf_Cursor := c\<rparr>) d = ordered_rows E f d"
  "cursor_text U (f\<lparr>lf_Cursor := c\<rparr>) r = cursor_text U f r"
  by (simp_all add: ordered_rows_def row_matches_def [abs_def] cursor_text_def cursor_at_def)

text \<open>A call whose cursor points before \<open>suf\<close>.\<close>

definition starts_at :: "env \<Rightarrow> list_filter \<Rightarrow> db \<Rightarrow> catalog_service_row list \<Rightarrow> bool" where
  "starts_at E f d suf \<longleftrightarrow>
     points_at (cursor_text (env_uuid E) f) (ordered_rows E f d) (lf_Cursor f) suf"

definition list_ready :: "env \<Rightarrow> list_filter \<Rightarrow> db \<Rightarrow> bool" where
  "list_ready E f d \<longleftrightarrow>
     catalog_ok d \<and> uuid_laws (env_uuid E) \<and> pg_laws (env_pg E) \<and> env_fault E = (\<lambda>n. None) \<and>
     1 \<le> lf_Limit f \<and> lf_Limit f \<le> 200 \<and> ascii (lf_Sort f) \<and> ascii (lf_Order f) \<and>
     (\<forall>r \<in> set (catalog_services d). year_ok (cs_created_at r))"

lemma select_from:
  assumes "list_ready E f d" and "starts_at E f d suf"
  shows "\<exists>cur. (if lf_Cursor f = [] then Inr None
      else map_sum id Some (decodeCursor (lf_Cursor f) (lf_Sort f) (lf_Order f))) = Inr cur \<and>
    select_services E f cur d = (Inr (take (nat (lf_Limit f + 1)) suf), d)"
  using assms(2) unfolding starts_at_def points_at_def
proof
  assume "lf_Cursor f = [] \<and> ordered_rows E f d = suf"
  then show ?thesis using assms(1) select_first [of f E d] by (simp add: list_ready_def)
next
  assume "\<exists>pre x. ordered_rows E f d = pre @ x # suf \<and> lf_Cursor f = cursor_text (env_uuid E) f x"
  then obtain pre x where o: "ordered_rows E f d = pre @ x # suf"
    and c: "lf_Cursor f = cursor_text (env_uuid E) f x" by blast
  have "x \<in> set (ordered_rows E f d)" using o by simp
  then have "x \<in> set (catalog_services d)" by simp
  moreover from this have "service_row_ok x"
    using assms(1) catalog_okD(3) by (auto simp: list_ready_def)
  ultimately show ?thesis
    using assms(1) c cursor_text_decodes [of "env_uuid E" x f] select_after [OF _ _ _ _ _ o]
    by (simp add: list_ready_def)
qed

lemma list_page:
  assumes r: "list_ready E f (w_db w)" and "starts_at E f (w_db w) suf"
  obtains ss w' where "Repository_List E f w =
      (Inr (ss, if length suf \<le> nat (lf_Limit f) then []
                else cursor_text (env_uuid E) f (suf ! (nat (lf_Limit f) - 1))), w')"
    and "w_db w' = w_db w" and "map row_of ss = take (nat (lf_Limit f)) suf"
proof -
  let ?L = "nat (lf_Limit f)" and ?U = "env_uuid E"
  obtain cur where cur: "(if lf_Cursor f = [] then Inr None
      else map_sum id Some (decodeCursor (lf_Cursor f) (lf_Sort f) (lf_Order f))) = Inr cur"
    and sel: "select_services E f cur (w_db w) = (Inr (take (nat (lf_Limit f + 1)) suf), w_db w)"
    using select_from [OF assms] by blast
  have L: "nat (lf_Limit f + 1) = Suc ?L" "1 \<le> ?L" using r by (auto simp: list_ready_def)
  have "\<forall>x \<in> set (take (Suc ?L) suf). service_row_ok x"
    using assms catalog_okD(3) by (auto simp: list_ready_def starts_at_def points_at_def dest!: in_set_takeD)
      (metis (no_types, lifting) in_set_conv_decomp mem_Collect_eq set_ordered_rows append_Cons append_assoc)+
  then obtain ss where ss: "scan_rows ?U (take (Suc ?L) suf) = Inr ss" "map row_of ss = take (Suc ?L) suf"
      "\<forall>s \<in> set ss. service_ok s \<and> timestamptz (svc_createdAt s) = svc_createdAt s"
    using scan_rows_ok [of ?U] r by (metis list_ready_def)
  have len: "length ss = min (Suc ?L) (length suf)" using arg_cong [OF ss(2), of length] by simp
  let ?w' = "w\<lparr>w_stmts := Suc (Suc (w_stmts w)), w_db := w_db w\<rparr>"
  show thesis
  proof (cases "length suf \<le> ?L")
    case True
    with len have "length ss = length suf" by simp
    moreover from this True L(2) have "\<not> lf_Limit f < int (length ss)" by linarith
    ultimately have "Repository_List E f w = (Inr (ss, []), ?w')"
      using True r cur sel ss(1) L(1) by (simp add: Repository_List_def sql_no_fault list_ready_def)
    with True ss(2) show thesis by (intro that [of ss ?w']) simp_all
  next
    case False
    with len have ls: "length ss = Suc ?L" by simp
    then have more: "lf_Limit f < int (length ss)" using L(2) by linarith
    have "encodeCursor ?U f (ss ! (?L - 1)) = cursor_text ?U f (row_of (ss ! (?L - 1)))"
      using ss(3) ls L by (simp add: encodeCursor_at cursor_text_def)
    also have "row_of (ss ! (?L - 1)) = suf ! (?L - 1)"
      using ss(2) ls L by (metis Suc_diff_1 diff_Suc_less less_Suc_eq less_le_trans nth_map nth_take zero_less_one)
    finally have "Repository_List E f w = (Inr (take ?L ss, cursor_text ?U f (suf ! (?L - 1))), ?w')"
      using False r cur sel ss(1) L(1) more
      by (simp add: Repository_List_def sql_no_fault list_ready_def nat_diff_distrib)
    moreover have "map row_of (take ?L ss) = take ?L suf"
      using ss(2) by (simp add: take_map [symmetric])
    ultimately show thesis using False by (intro that [of "take ?L ss" ?w']) simp_all
  qed
qed

text \<open>A client that follows \<^verbatim>\<open>nextCursor\<close> until it is absent.\<close>

definition list_pages :: "nat \<Rightarrow> env \<Rightarrow> list_filter \<Rightarrow> world \<Rightarrow> service list list option" where
  "list_pages n E f w = read_pages n (\<lambda>c. ListServices E (f\<lparr>lf_Cursor := c\<rparr>)) (lf_Cursor f) w"

lemma list_defaults_id: "1 \<le> lf_Limit f \<Longrightarrow> lf_Limit f \<le> 200 \<Longrightarrow> lf_Sort f \<noteq> [] \<Longrightarrow> lf_Order f \<noteq> [] \<Longrightarrow> list_defaults f = f"
  by (simp add: list_defaults_def)

lemma list_defaults_props [simp]:
  "list_defaults (f\<lparr>lf_Cursor := c\<rparr>) = (list_defaults f)\<lparr>lf_Cursor := c\<rparr>"
  "row_matches (list_defaults f) = row_matches f"
  by (auto simp: list_defaults_def Let_def row_matches_def)

lemma list_defaults_range:
  "1 \<le> lf_Limit (list_defaults f)" "lf_Limit (list_defaults f) \<le> 200"
  by (auto simp: list_defaults_def Let_def)

lemma list_ready_cursor [simp]: "list_ready E (f\<lparr>lf_Cursor := c\<rparr>) d = list_ready E f d"
  by (simp add: list_ready_def)

interpretation cp: paged_listing "\<lambda>c. ListServices E (f\<lparr>lf_Cursor := c\<rparr>)" row_of
  "cursor_text (env_uuid E) (list_defaults f)" "\<lambda>w. ordered_rows E (list_defaults f) (w_db w)"
  "\<lambda>w. list_ready E (list_defaults f) (w_db w)" "nat (lf_Limit (list_defaults f))" for E f
proof (unfold_locales, goal_cases)
  case 1
  then show ?case using list_defaults_range(1) [of f] by simp
next
  case (2 w c suf)
  let ?f = "(list_defaults f)\<lparr>lf_Cursor := c\<rparr>"
  from 2 have "list_ready E ?f (w_db w)" "starts_at E ?f (w_db w) suf"
    by (simp_all add: starts_at_def points_at_def)
  then obtain ss w' where "Repository_List E ?f w =
      (Inr (ss, if length suf \<le> nat (lf_Limit ?f) then []
                else cursor_text (env_uuid E) ?f (suf ! (nat (lf_Limit ?f) - 1))), w')"
    and "w_db w' = w_db w" and "map row_of ss = take (nat (lf_Limit ?f)) suf"
    by (rule list_page)
  with 2(1) show ?case
    by (intro exI [of _ ss] exI [of _ w']) (simp add: ListServices_def)
qed simp

lemma select_services_db: "select_services E f cur d = (r, d') \<Longrightarrow> d' = d"
  by (auto simp: select_services_def Let_def split: if_splits option.splits)

definition example_filter :: list_filter where
  "example_filter = \<lparr>lf_TenantID = None, lf_Lifecycle = None, lf_Tier = None, lf_Sort = SortName,
     lf_Order = OrderAsc, lf_Limit = 1, lf_Cursor = []\<rparr>"

lemma example_year_ok: "\<forall>r \<in> set (catalog_services (w_db example_world)). year_ok (cs_created_at r)"
proof -
  have "year_ok 1000" by code_simp
  then show ?thesis by (simp add: example_row_def)
qed

lemma example_list_ready: "list_ready plain_env example_filter (w_db example_world)"
  using example_year_ok by (simp add: list_ready_def example_filter_def)

section \<open>Properties\<close>

text \<open>
  C7: Reading page after page through the returned cursors ends after at most one page per
  row, returns every service that matches the filter exactly once and in the requested
  order, and no page holds more than 200 services. It holds for both sort fields, both
  orders, any limit (values outside 1 to 200 become 50) and any collation of the database.
\<close>

theorem list_pages_complete:
  assumes "catalog_ok (w_db w)" and "uuid_laws (env_uuid E)" and "pg_laws (env_pg E)"
    and "env_fault E = (\<lambda>n. None)" and "\<forall>r \<in> set (catalog_services (w_db w)). year_ok (cs_created_at r)"
    and "lf_Cursor f = []" and "lf_Sort f \<in> {SortCreatedAt, SortName}" and "lf_Order f \<in> {OrderAsc, OrderDesc}"
  shows "\<exists>pages. list_pages (Suc (length (catalog_services (w_db w)))) E f w = Some pages \<and>
    map row_of (concat pages) = ordered_rows E f (w_db w) \<and>
    distinct (map row_of (concat pages)) \<and>
    set (map row_of (concat pages)) = {r \<in> set (catalog_services (w_db w)). row_matches f r} \<and>
    (\<forall>p \<in> set pages. length p \<le> 200)"
proof -
  let ?f = "list_defaults f" and ?n = "Suc (length (catalog_services (w_db w)))"
  have o: "ordered_rows E ?f (w_db w) = ordered_rows E f (w_db w)"
  proof -
    have "lf_Sort ?f = lf_Sort f" "lf_Order ?f = lf_Order f"
      using assms(7,8) by (auto simp: list_defaults_def Let_def)
    then show ?thesis by (simp add: ordered_rows_def)
  qed
  have "list_ready E ?f (w_db w)"
    using assms list_defaults_range [of f] by (auto simp: list_ready_def list_defaults_def Let_def)
  moreover have "length (ordered_rows E f (w_db w)) < ?n"
    using length_ordered_rows [of E f "w_db w"] by simp
  ultimately obtain pages where p: "list_pages ?n E f w = Some pages"
      "map row_of (concat pages) = ordered_rows E f (w_db w)" "\<forall>q \<in> set pages. length q \<le> nat (lf_Limit ?f)"
    using cp.read_all_pages [of E f w ?n] o assms(6) by (metis list_pages_def)
  have "distinct (filter (row_matches f) (catalog_services (w_db w)))"
    using catalog_okD(1) [OF assms(1)] by (auto simp: distinct_map intro: distinct_filter)
  then have "distinct (ordered_rows E f (w_db w))"
    by (simp add: ordered_rows_def Let_def)
  with p list_defaults_range(2) [of f] show ?thesis by (intro exI [of _ pages]) force
qed

theorem list_pages_complete_witness:
  "\<exists>pages. list_pages 2 plain_env example_filter example_world = Some pages \<and>
     map row_of (concat pages) = [example_row]"
  using list_pages_complete [of example_world plain_env example_filter] example_year_ok
  by (auto simp: example_filter_def numeral_2_eq_2 ordered_rows_def row_matches_def sort_by_def)

text \<open>
  Whatever the filter and whatever fails, a page of \<open>ListServices\<close> has at most 200
  services, and at most as many as a limit in range asks for; listing never writes.
\<close>

lemma list_page_bounded:
  assumes "ListServices E f w = (Inr (ss, nxt), w')"
  shows "length ss \<le> 200 \<and> (1 \<le> lf_Limit f \<and> lf_Limit f \<le> 200 \<longrightarrow> int (length ss) \<le> lf_Limit f) \<and>
    w_db w' = w_db w"
proof -
  let ?f = "list_defaults f"
  from assms have "length ss \<le> nat (lf_Limit ?f) \<and> w_db w' = w_db w"
    using list_defaults_range(1) [of f]
    by (auto simp: ListServices_def Repository_List_def Let_def not_less
        dest!: sql_Inr(1) select_services_db split: sum.splits prod.splits if_splits)
  moreover have "1 \<le> lf_Limit f \<and> lf_Limit f \<le> 200 \<longrightarrow> lf_Limit ?f = lf_Limit f"
    by (simp add: list_defaults_def Let_def)
  ultimately show ?thesis using list_defaults_range(1,2) [of f] by auto
qed

lemma list_page_bounded_witness:
  "\<exists>ss nxt w'. ListServices plain_env example_filter example_world = (Inr (ss, nxt), w') \<and>
     int (length ss) \<le> 1 \<and> w_db w' = w_db example_world"
proof -
  have "starts_at plain_env example_filter (w_db example_world)
      (ordered_rows plain_env example_filter (w_db example_world))"
    by (simp add: starts_at_def points_at_def example_filter_def)
  then obtain ss nxt w' where "Repository_List plain_env example_filter example_world = (Inr (ss, nxt), w')"
    by (rule list_page [OF example_list_ready])
  then have "ListServices plain_env example_filter example_world = (Inr (ss, nxt), w')"
    by (simp add: ListServices_def list_defaults_id example_filter_def)
  with list_page_bounded [OF this] show ?thesis by (auto simp: example_filter_def)
qed

text \<open>
  A cursor only continues the listing it came from: handed in with another sort field or
  another order it is refused as invalid before any query runs.
\<close>

lemma cursor_of_other_listing_refused:
  assumes "uuid_laws (env_uuid E)" and "service_row_ok r" and "ascii (lf_Sort f)" and "ascii (lf_Order f)"
    and "(lf_Sort g, lf_Order g) \<noteq> (lf_Sort f, lf_Order f)"
  shows "Repository_List E (g\<lparr>lf_Cursor := cursor_text (env_uuid E) f r\<rparr>) w = (Inl mismatched_cursor, w)"
proof -
  have "ascii (cs_name r)" using assms(2) ascii_name [of "ServiceName (cs_name r)"]
    by (simp add: service_row_ok_def)
  then have "decodeCursor (cursor_text (env_uuid E) f r) (lf_Sort g) (lf_Order g) = Inl mismatched_cursor"
    using assms unfolding cursor_text_def
    by (subst decodeCursor_encoded) (auto simp: cursor_at_def)
  then show ?thesis by (simp add: Repository_List_def)
qed

lemma cursor_of_other_listing_refused_witness:
  "Repository_List plain_env (example_filter\<lparr>lf_Order := OrderDesc,
       lf_Cursor := cursor_text (env_uuid plain_env) example_filter example_row\<rparr>) example_world =
     (Inl mismatched_cursor, example_world)"
  using cursor_of_other_listing_refused [of plain_env example_row example_filter
      "example_filter\<lparr>lf_Order := OrderDesc\<rparr>" example_world] example_row_ok
  by (simp add: example_filter_def)

end
