(* ===== verification/Httpx.thy ===== *)
theory Httpx
  imports Forge_Db
begin

text \<open>
  \<^verbatim>\<open>internal/platform/httpx\<close> without authentication: responses (\<open>response.go\<close>), the request
  context (\<open>context.go\<close>), the middleware (\<open>middleware.go\<close>), the per-identity rate limiter
  (\<open>ratelimit.go\<close>) and the health endpoints (\<open>server.go\<close>).

  A handler maps a request and the server's state to an outcome and the new state. Setting a
  response header is an update of \<open>rs_headers\<close>; headers are set before the status is written
  everywhere in the sources. The context values of a request are fields of it, and \<open>rq_now\<close> is
  the clock while the request is served. Logging has no effect on the model, and \<^verbatim>\<open>Timeout\<close> is a
  deadline of the context, which handlers meet as statements that fail.
  The token bucket of \<^verbatim>\<open>golang.org/x/time/rate\<close> is a parameter (\<open>rate_lib\<close>).
\<close>

section \<open>Requests and responses\<close>

record principal =
  pr_Subject :: string
  pr_Email :: string
  pr_Groups :: "string list"

record request =
  rq_id :: string
  rq_header :: "string \<Rightarrow> string"
  rq_query :: "string \<Rightarrow> string"
  rq_body :: string
  rq_remote :: string
  rq_now :: time
  rq_correlation :: "string option"
  rq_principal :: "principal option"

record response =
  rs_status :: nat
  rs_headers :: "string \<rightharpoonup> string"
  rs_body :: string

text \<open>A handler that panics leaves the response headers set so far.\<close>

datatype outcome = Responded response | Panicked "string \<rightharpoonup> string"

type_synonym 's handler = "request \<Rightarrow> 's \<Rightarrow> outcome \<times> 's"

definition CorrelationID :: "request \<Rightarrow> string" where
  "CorrelationID r = (case rq_correlation r of Some v \<Rightarrow> v | None \<Rightarrow> '''')"

definition PrincipalFrom :: "request \<Rightarrow> principal option" where
  "PrincipalFrom r = rq_principal r"

definition content_json :: "string \<rightharpoonup> string" where
  "content_json = [''Content-Type'' \<mapsto> ''application/json; charset=utf-8'']"

text \<open>
  \<^verbatim>\<open>JSON\<close>: the headers set so far, the status and the encoded body with the newline that
  \<^verbatim>\<open>Encoder.Encode\<close> appends. A body that cannot be encoded (\<open>None\<close>) writes nothing.
\<close>

definition JSON :: "(string \<rightharpoonup> string) \<Rightarrow> nat \<Rightarrow> json option \<Rightarrow> response" where
  "JSON hs status body =
     \<lparr>rs_status = status, rs_headers = hs ++ content_json,
      rs_body = (case body of None \<Rightarrow> [] | Some v \<Rightarrow> Marshal v @ [CHR 0x0A])\<rparr>"

definition error_body :: "request \<Rightarrow> go_error \<Rightarrow> json" where
  "error_body r err =
     (let (code, message, details) =
            (case As err of
               Some (AppError k c m d u) \<Rightarrow> (c, m, d)
             | _ \<Rightarrow> (''INTERNAL'', ''an unexpected error occurred'', []))
      in JObj ([(''code'', JStr code), (''message'', JStr message)] @
               (if details = [] then [] else [(''details'', JArr (map JStr details))]) @
               [(''correlationId'', JStr (CorrelationID r))]))"

definition httpx_Error :: "(string \<rightharpoonup> string) \<Rightarrow> request \<Rightarrow> go_error \<Rightarrow> response" where
  "httpx_Error hs r err = JSON hs (HTTPStatus err) (Some (error_body r err))"

text \<open>A string field with \<^verbatim>\<open>omitempty\<close>.\<close>

definition omitempty :: "string \<Rightarrow> string \<Rightarrow> (string \<times> json) list" where
  "omitempty k s = (if s = [] then [] else [(k, JStr s)])"

definition page_json :: "json list \<Rightarrow> string \<Rightarrow> json" where
  "page_json items next =
     JObj ([(''items'', JArr items)] @ (if next = [] then [] else [(''nextCursor'', JStr next)]))"

section \<open>Request bodies\<close>

text \<open>
  \<^verbatim>\<open>http.MaxBytesReader\<close> with the limit both readers use. Reading everything fails beyond it;
  the streaming decoder only fails when its first value is not complete within it (a bare
  \<^verbatim>\<open>null\<close> needs one more byte to be complete).
\<close>

definition max_body :: nat where
  "max_body = 2 ^ 20"

definition ReadAll :: "request \<Rightarrow> string option" where
  "ReadAll r = (if length (rq_body r) > max_body then None else Some (rq_body r))"

definition first_value :: "request \<Rightarrow> json option" where
  "first_value r =
     (let t = take max_body (rq_body r)
      in case parse_value (2 * length t + 1) 0 t of
           None \<Rightarrow> None
         | Some (v, rest) \<Rightarrow>
             (if length (rq_body r) > max_body \<and> rest = [] \<and> v = JNull then None else Some v))"

text \<open>
  \<^verbatim>\<open>Decode\<close>: the first JSON value of the body, without unknown fields. \<open>json_error\<close> is the text of
  the decoder's error.
\<close>

definition httpx_Decode ::
    "(string \<Rightarrow> string) \<Rightarrow> (string \<times> (json \<Rightarrow> 'a \<Rightarrow> 'a option)) list \<Rightarrow> 'a \<Rightarrow> request \<Rightarrow> response + 'a" where
  "httpx_Decode json_error fs zero r =
     (case Option.bind (first_value r) (\<lambda>v. decode_struct True fs v zero) of
        None \<Rightarrow> Inl (httpx_Error Map.empty r
                  (Validation ''INVALID_BODY'' (''request body is not valid JSON: '' @ json_error (rq_body r))))
      | Some dst \<Rightarrow> Inr dst)"

section \<open>Middleware\<close>

definition set_header :: "string \<Rightarrow> string \<Rightarrow> outcome \<Rightarrow> outcome" where
  "set_header k v out =
     (case out of
        Panicked hs \<Rightarrow> Panicked ([k \<mapsto> v] ++ hs)
      | Responded rs \<Rightarrow> Responded (rs\<lparr>rs_headers := [k \<mapsto> v] ++ rs_headers rs\<rparr>))"

definition Recoverer :: "'s handler \<Rightarrow> 's handler" where
  "Recoverer next r s =
     (case next r s of
        (Panicked hs, s') \<Rightarrow>
          (Responded (httpx_Error hs r (Internal ''PANIC'' ''an unexpected error occurred'')), s')
      | (Responded rs, s') \<Rightarrow> (Responded rs, s'))"

definition correlationHeader :: string where
  "correlationHeader = ''X-Correlation-Id''"

text \<open>\<open>fresh\<close> is \<^verbatim>\<open>uuid.NewString()\<close>.\<close>

definition Correlate :: "(request \<Rightarrow> string) \<Rightarrow> 's handler \<Rightarrow> 's handler" where
  "Correlate fresh next r s =
     (let cid0 = rq_header r correlationHeader;
          cid = (if cid0 = '''' then fresh r else cid0);
          (out, s') = next (r\<lparr>rq_correlation := Some cid\<rparr>) s
      in (set_header correlationHeader cid out, s'))"

text \<open>\<^verbatim>\<open>http.StatusText\<close>.\<close>

definition status_texts :: "(nat \<times> string) list" where
  "status_texts =
     [(100, ''Continue''), (101, ''Switching Protocols''), (102, ''Processing''),
      (103, ''Early Hints''), (200, ''OK''), (201, ''Created''), (202, ''Accepted''),
      (203, ''Non-Authoritative Information''), (204, ''No Content''), (205, ''Reset Content''),
      (206, ''Partial Content''), (207, ''Multi-Status''), (208, ''Already Reported''),
      (226, ''IM Used''), (300, ''Multiple Choices''), (301, ''Moved Permanently''), (302, ''Found''),
      (303, ''See Other''), (304, ''Not Modified''), (305, ''Use Proxy''),
      (307, ''Temporary Redirect''), (308, ''Permanent Redirect''), (400, ''Bad Request''),
      (401, ''Unauthorized''), (402, ''Payment Required''), (403, ''Forbidden''), (404, ''Not Found''),
      (405, ''Method Not Allowed''), (406, ''Not Acceptable''),
      (407, ''Proxy Authentication Required''), (408, ''Request Timeout''), (409, ''Conflict''),
      (410, ''Gone''), (411, ''Length Required''), (412, ''Precondition Failed''),
      (413, ''Request Entity Too Large''), (414, ''Request URI Too Long''),
      (415, ''Unsupported Media Type''), (416, ''Requested Range Not Satisfiable''),
      (417, ''Expectation Failed''), (418, ''I'm a teapot''), (421, ''Misdirected Request''),
      (422, ''Unprocessable Entity''), (423, ''Locked''), (424, ''Failed Dependency''),
      (425, ''Too Early''), (426, ''Upgrade Required''), (428, ''Precondition Required''),
      (429, ''Too Many Requests''), (431, ''Request Header Fields Too Large''),
      (451, ''Unavailable For Legal Reasons''), (500, ''Internal Server Error''),
      (501, ''Not Implemented''), (502, ''Bad Gateway''), (503, ''Service Unavailable''),
      (504, ''Gateway Timeout''), (505, ''HTTP Version Not Supported''),
      (506, ''Variant Also Negotiates''), (507, ''Insufficient Storage''), (508, ''Loop Detected''),
      (510, ''Not Extended''), (511, ''Network Authentication Required'')]"

definition StatusText :: "nat \<Rightarrow> string" where
  "StatusText code = (case map_of status_texts code of Some t \<Rightarrow> t | None \<Rightarrow> '''')"

text \<open>
  \<^verbatim>\<open>Observe\<close>: the counter of \<^verbatim>\<open>forge_http_requests_total\<close> and the observations of
  \<^verbatim>\<open>forge_http_request_duration_seconds\<close>, by their labels. \<open>route\<close> is the pattern the router
  found for the request and \<open>elapsed\<close> the time it took; a handler that panics is not recorded.
\<close>

record metrics =
  mt_HTTPRequests :: "string \<times> string \<times> string \<Rightarrow> nat"
  mt_HTTPDuration :: "string \<times> string \<Rightarrow> time list"

definition NewMetrics :: metrics where
  "NewMetrics = \<lparr>mt_HTTPRequests = (\<lambda>l. 0), mt_HTTPDuration = (\<lambda>l. [])\<rparr>"

definition Observe ::
    "string \<Rightarrow> string \<Rightarrow> (request \<Rightarrow> time) \<Rightarrow> 's handler \<Rightarrow> request \<Rightarrow> 's \<times> metrics \<Rightarrow> outcome \<times> 's \<times> metrics" where
  "Observe pattern verb elapsed next r s =
     (case next r (fst s) of
        (Panicked hs, s') \<Rightarrow> (Panicked hs, s', snd s)
      | (Responded rs, s') \<Rightarrow>
          (let route = (if pattern = '''' then ''unmatched'' else pattern);
               d = (route, verb);
               c = (route, verb, StatusText (rs_status rs));
               m = snd s
           in (Responded rs, s',
               \<lparr>mt_HTTPRequests = (mt_HTTPRequests m)(c := Suc (mt_HTTPRequests m c)),
                mt_HTTPDuration = (mt_HTTPDuration m)(d := elapsed r # mt_HTTPDuration m d)\<rparr>)))"

section \<open>Rate limiting\<close>

record 'l rate_lib =
  rl_NewLimiter :: 'l
  rl_Allow :: "'l \<Rightarrow> time \<Rightarrow> bool \<times> 'l"

record 'l entry =
  en_limiter :: 'l
  en_seen :: time

record 'l keyedLimiter =
  kl_buckets :: "string \<rightharpoonup> 'l entry"
  kl_ttl :: time

definition newKeyedLimiter :: "'l keyedLimiter" where
  "newKeyedLimiter = \<lparr>kl_buckets = Map.empty, kl_ttl = 10 * 60 * 1000000000\<rparr>"

definition allow :: "'l rate_lib \<Rightarrow> string \<Rightarrow> time \<Rightarrow> 'l keyedLimiter \<Rightarrow> bool \<times> 'l keyedLimiter" where
  "allow R key now kl =
     (let e = (case kl_buckets kl key of
                 None \<Rightarrow> \<lparr>en_limiter = rl_NewLimiter R, en_seen = now\<rparr>
               | Some e \<Rightarrow> e);
          e1 = e\<lparr>en_seen := now\<rparr>;
          (ok, l) = rl_Allow R (en_limiter e1) now
      in (ok, kl\<lparr>kl_buckets := (kl_buckets kl)(key \<mapsto> e1\<lparr>en_limiter := l\<rparr>)\<rparr>))"

text \<open>One tick of \<^verbatim>\<open>reap\<close>.\<close>

definition reap :: "time \<Rightarrow> 'l keyedLimiter \<Rightarrow> 'l keyedLimiter" where
  "reap now kl =
     kl\<lparr>kl_buckets := (\<lambda>k. case kl_buckets kl k of
            None \<Rightarrow> None
          | Some e \<Rightarrow> (if now - en_seen e > kl_ttl kl then None else Some e))\<rparr>"

definition limit_key :: "request \<Rightarrow> string" where
  "limit_key r =
     (case PrincipalFrom r of
        Some p \<Rightarrow> (if pr_Subject p \<noteq> '''' then pr_Subject p else rq_remote r)
      | None \<Rightarrow> rq_remote r)"

definition RateLimit ::
    "'l rate_lib \<Rightarrow> 's handler \<Rightarrow> request \<Rightarrow> 's \<times> 'l keyedLimiter \<Rightarrow> outcome \<times> 's \<times> 'l keyedLimiter" where
  "RateLimit R next r s =
     (case allow R (limit_key r) (rq_now r) (snd s) of
        (False, kl) \<Rightarrow>
          (Responded (httpx_Error [''Retry-After'' \<mapsto> ''1''] r
             (TooManyRequests ''RATE_LIMITED'' ''rate limit exceeded'')), fst s, kl)
      | (True, kl) \<Rightarrow> (case next r (fst s) of (out, s') \<Rightarrow> (out, s', kl)))"

section \<open>Health\<close>

definition Liveness :: "'s handler" where
  "Liveness r s = (Responded (JSON Map.empty 200 (Some (JObj [(''status'', JStr ''ok'')]))), s)"

text \<open>The keys of a Go map are encoded in sorted order.\<close>

definition Readiness :: "('s \<Rightarrow> go_error option) \<Rightarrow> 's handler" where
  "Readiness ready r s =
     (case ready s of
        Some err \<Rightarrow> (Responded (JSON Map.empty 503
            (Some (JObj [(''reason'', JStr (error_text err)), (''status'', JStr ''unready'')]))), s)
      | None \<Rightarrow> (Responded (JSON Map.empty 200 (Some (JObj [(''status'', JStr ''ready'')]))), s))"

section \<open>Properties\<close>

text \<open>Over any sequence of calls and reaper ticks, what one key is told depends on its own calls only.\<close>

datatype limiter_step = Call string time | Tick time

fun limiter_run :: "'l rate_lib \<Rightarrow> limiter_step list \<Rightarrow> 'l keyedLimiter \<Rightarrow> 'l keyedLimiter" where
  "limiter_run R [] kl = kl"
| "limiter_run R (Call key now # xs) kl = limiter_run R xs (snd (allow R key now kl))"
| "limiter_run R (Tick now # xs) kl = limiter_run R xs (reap now kl)"

definition calls_of :: "string \<Rightarrow> limiter_step list \<Rightarrow> limiter_step list" where
  "calls_of key xs = filter (\<lambda>x. case x of Call k now \<Rightarrow> k = key | Tick now \<Rightarrow> True) xs"

lemma limiter_run_local:
  assumes "kl_buckets kl key = kl_buckets kl' key" and "kl_ttl kl = kl_ttl kl'"
  shows "kl_buckets (limiter_run R xs kl) key = kl_buckets (limiter_run R (calls_of key xs) kl') key"
  using assms
proof (induction xs arbitrary: kl kl')
  case (Cons x xs)
  show ?case
  proof (cases x)
    case (Call k now)
    then show ?thesis
      using Cons.prems
      by (cases "k = key")
        (auto simp: calls_of_def allow_def Let_def split: prod.split intro!: Cons.IH [unfolded calls_of_def])
  next
    case (Tick now)
    then show ?thesis
      using Cons.prems
      by (auto simp: calls_of_def reap_def split: option.split intro!: Cons.IH [unfolded calls_of_def])
  qed
qed (simp add: calls_of_def)

text \<open>
  C21: Rate limiting isolates identities: after any sequence of calls by any identities and of
  reaper ticks, whether an identity is let through is what it would be had only its own calls
  happened.
\<close>

theorem rate_limit_isolated:
  "fst (allow R key now (limiter_run R xs newKeyedLimiter)) =
   fst (allow R key now (limiter_run R (calls_of key xs) newKeyedLimiter))"
proof -
  have "kl_buckets (limiter_run R xs newKeyedLimiter) key =
      kl_buckets (limiter_run R (calls_of key xs) newKeyedLimiter) key"
    by (rule limiter_run_local) simp_all
  then show ?thesis by (simp add: allow_def Let_def split: prod.split)
qed


definition example_request :: request where
  "example_request = \<lparr>rq_id = [], rq_header = (\<lambda>k. []), rq_query = (\<lambda>k. []), rq_body = [], rq_remote = ''10.0.0.1:1'',
     rq_now = 5000, rq_correlation = Some ''c-1'', rq_principal = None\<rparr>"


end
