(* ===== verification/Idempotency.thy ===== *)
theory Idempotency
  imports Httpx
begin

text \<open>
  \<^verbatim>\<open>internal/platform/idempotency\<close>: stored responses by idempotency key. The response body is a
  \<^verbatim>\<open>jsonb\<close> column, so what comes back is PostgreSQL's own text of the stored value: it is a
  parameter (\<open>hl_jsonb_out\<close>) of which only the value it denotes is known (\<open>jsonb_laws\<close>), up to the
  order of object members. The hash of the request body is another one (\<open>hl_sha256_hex\<close>).
\<close>

record http_lib =
  hl_json_error :: "string \<Rightarrow> string"
  hl_sha256_hex :: "string \<Rightarrow> string"
  hl_jsonb_out :: "json \<Rightarrow> string"

text \<open>Two values that differ at most in the order of the members of objects.\<close>

fun sort_members :: "json \<Rightarrow> json" where
  "sort_members (JArr vs) = JArr (map sort_members vs)"
| "sort_members (JObj ms) =
     JObj (sort_by (\<lambda>a b. bytes_before (fst a) (fst b)) (map (\<lambda>(k, v). (k, sort_members v)) ms))"
| "sort_members v = v"

definition same_json :: "json \<Rightarrow> json \<Rightarrow> bool" where
  "same_json a b \<longleftrightarrow> sort_members a = sort_members b"

definition jsonb_laws :: "http_lib \<Rightarrow> bool" where
  "jsonb_laws H \<longleftrightarrow>
     (\<forall>v. json_ok v \<and> json_depth v \<le> maxNestingDepth \<longrightarrow>
        (\<exists>v'. Unmarshal (hl_jsonb_out H v) = Some v' \<and> same_json v' v))"

definition plain_http_lib :: http_lib where
  "plain_http_lib = \<lparr>hl_json_error = (\<lambda>s. ''unexpected end of JSON input''), hl_sha256_hex = (\<lambda>s. ''''),
     hl_jsonb_out = Marshal\<rparr>"

lemma plain_jsonb_laws [simp]: "jsonb_laws plain_http_lib"
  by (auto simp: jsonb_laws_def plain_http_lib_def same_json_def Unmarshal_Marshal)

section \<open>The store\<close>

definition select_idempotency_key :: "string \<Rightarrow> db \<Rightarrow> (go_error + (nat \<times> json) option) \<times> db" where
  "select_idempotency_key key d =
     (if \<not> pg_text key then (Inl pg_encoding_error, d)
      else (Inr (map_option (\<lambda>r. (ik_response_status r, ik_response_body r))
              (find (\<lambda>r. ik_idem_key r = key) (idempotency_keys d))), d))"

definition Idempotency_Lookup :: "env \<Rightarrow> string \<Rightarrow> (nat \<times> json) option tx" where
  "Idempotency_Lookup E key w =
     (case sql E (select_idempotency_key key) w of
        (Inl err, w1) \<Rightarrow>
          (if Is err ErrNoRows then (Inr None, w1)
           else (Inl (Errorf ''lookup idempotency key'' err), w1))
      | (Inr rec, w1) \<Rightarrow> (Inr rec, w1))"

definition insert_idempotency_key :: "idempotency_row \<Rightarrow> db \<Rightarrow> (go_error + unit) \<times> db" where
  "insert_idempotency_key r d =
     (if \<not> pg_text (ik_idem_key r) then (Inl pg_encoding_error, d)
      else if ik_idem_key r \<in> set (map ik_idem_key (idempotency_keys d)) then (Inr (), d)
      else if ik_id r \<in> set (map ik_id (idempotency_keys d)) then (Inl pg_unique_error, d)
      else (Inr (), d\<lparr>idempotency_keys := idempotency_keys d @ [r]\<rparr>))"

definition Idempotency_Save :: "env \<Rightarrow> string \<Rightarrow> string \<Rightarrow> nat \<Rightarrow> json \<Rightarrow> unit tx" where
  "Idempotency_Save E key requestHash status body w =
     (case id_New E w of (i, w1) \<Rightarrow>
        (case sql E (insert_idempotency_key
                \<lparr>ik_id = i, ik_idem_key = key, ik_request_hash = requestHash,
                 ik_response_status = status, ik_response_body = body\<rparr>) w1 of
           (Inl err, w2) \<Rightarrow> (Inl (Errorf ''save idempotency key'' err), w2)
         | (Inr _, w2) \<Rightarrow> (Inr (), w2)))"

section \<open>The first writer wins\<close>

definition keys_ok :: "db \<Rightarrow> bool" where
  "keys_ok d \<longleftrightarrow> distinct (map ik_idem_key (idempotency_keys d))"

lemma Idempotency_Save_db:
  assumes "Idempotency_Save E key hash status body w = (r, w')"
  shows "w_db w' = w_db w \<or>
    key \<notin> set (map ik_idem_key (idempotency_keys (w_db w))) \<and>
    (\<exists>i. w_db w' = (w_db w)\<lparr>idempotency_keys := idempotency_keys (w_db w) @
       [\<lparr>ik_id = i, ik_idem_key = key, ik_request_hash = hash, ik_response_status = status,
         ik_response_body = body\<rparr>]\<rparr>)"
  using assms
  by (auto simp: Idempotency_Save_def id_New_def insert_idempotency_key_def sql_def Let_def
      split: prod.splits sum.splits option.splits if_splits)

lemma Idempotency_Lookup_db: "Idempotency_Lookup E key w = (r, w') \<Longrightarrow> w_db w' = w_db w"
  by (auto simp: Idempotency_Lookup_def sql_def Let_def select_idempotency_key_def
      split: prod.splits sum.splits option.splits if_splits)

lemma Idempotency_Save_keeps:
  assumes "Idempotency_Save E key hash status body w = (r, w')" and "row \<in> set (idempotency_keys (w_db w))"
  shows "row \<in> set (idempotency_keys (w_db w'))"
  using Idempotency_Save_db [OF assms(1)] assms(2) by auto

lemma Idempotency_Save_ok [forge_inv]:
  assumes "Idempotency_Save E key hash status body w = (r, w')" and "keys_ok (w_db w)"
  shows "keys_ok (w_db w')"
  using Idempotency_Save_db [OF assms(1)] assms(2) by (auto simp: keys_ok_def)

text \<open>A stored key is found, unless the statement fails.\<close>

lemma Idempotency_Lookup_stored:
  assumes "keys_ok (w_db w)" and "row \<in> set (idempotency_keys (w_db w))" and "pg_text (ik_idem_key row)"
    and "env_fault E (w_stmts w) = None"
  shows "\<exists>w'. Idempotency_Lookup E (ik_idem_key row) w =
    (Inr (Some (ik_response_status row, ik_response_body row)), w') \<and> w_db w' = w_db w"
proof -
  have "find (\<lambda>r. ik_idem_key r = ik_idem_key row) (idempotency_keys (w_db w)) = Some row"
    using assms(1,2) unfolding keys_ok_def by (rule find_by_key)
  then show ?thesis
    using assms(3,4) by (simp add: Idempotency_Lookup_def sql_no_fault select_idempotency_key_def)
qed

end
