(* ===== verification/Catalog_Api.thy ===== *)
theory Catalog_Api
  imports Catalog_Pages Idempotency
begin

text \<open>
  \<^verbatim>\<open>internal/modules/catalog/api\<close>: the request and response types (\<open>dto.go\<close>) and the handlers
  (\<open>handlers.go\<close>). A handler runs on the database world; \<open>idem\<close> says whether an idempotency store
  is configured. Times are in UTC.
\<close>

section \<open>Request and response types\<close>

definition register_fields ::
    "(string \<times> (json \<Rightarrow> register_service_input \<Rightarrow> register_service_input option)) list" where
  "register_fields =
     [(''tenantId'', string_field (\<lambda>x r. r\<lparr>rs_TenantID := x\<rparr>)), (''name'', string_field (\<lambda>x r. r\<lparr>rs_Name := x\<rparr>)),
      (''description'', string_field (\<lambda>x r. r\<lparr>rs_Description := x\<rparr>)), (''tier'', int_field (\<lambda>x r. r\<lparr>rs_Tier := x\<rparr>)),
      (''repository'', string_field (\<lambda>x r. r\<lparr>rs_Repository := x\<rparr>)),
      (''owningTeam'', string_field (\<lambda>x r. r\<lparr>rs_OwningTeam := x\<rparr>)),
      (''onCallRef'', string_field (\<lambda>x r. r\<lparr>rs_OnCallRef := x\<rparr>))]"

definition empty_register :: register_service_input where
  "empty_register = \<lparr>rs_TenantID = [], rs_Name = [], rs_Description = [], rs_Tier = 0, rs_Repository = [],
     rs_OwningTeam = [], rs_OnCallRef = []\<rparr>"

record change_ownership_request =
  cor_OwningTeam :: string
  cor_OnCallRef :: string

definition ownership_fields ::
    "(string \<times> (json \<Rightarrow> change_ownership_request \<Rightarrow> change_ownership_request option)) list" where
  "ownership_fields =
     [(''owningTeam'', string_field (\<lambda>x r. r\<lparr>cor_OwningTeam := x\<rparr>)),
      (''onCallRef'', string_field (\<lambda>x r. r\<lparr>cor_OnCallRef := x\<rparr>))]"

definition lifecycle_fields :: "(string \<times> (json \<Rightarrow> string \<Rightarrow> string option)) list" where
  "lifecycle_fields = [(''lifecycle'', string_field (\<lambda>x r. x))]"

record service_response =
  sr_ID :: string
  sr_TenantID :: string
  sr_Name :: string
  sr_Description :: string
  sr_Tier :: int
  sr_Lifecycle :: string
  sr_Repository :: string
  sr_OwningTeam :: string
  sr_OnCallRef :: string
  sr_Version :: int
  sr_CreatedAt :: time
  sr_UpdatedAt :: time

definition toResponse :: "uuid_lib \<Rightarrow> service \<Rightarrow> service_response" where
  "toResponse U s =
     \<lparr>sr_ID = ServiceID_String U (svc_id s), sr_TenantID = TenantID_String U (svc_tenantID s),
      sr_Name = ServiceName_String (svc_name s), sr_Description = svc_description s,
      sr_Tier = Tier_Int (svc_tier s), sr_Lifecycle = Lifecycle_string (svc_lifecycle s),
      sr_Repository = svc_repository s, sr_OwningTeam = OwningTeam (svc_ownership s),
      sr_OnCallRef = OnCallRef (svc_ownership s), sr_Version = svc_version s,
      sr_CreatedAt = svc_createdAt s, sr_UpdatedAt = svc_updatedAt s\<rparr>"

text \<open>The encoding of a response; a year outside 0 to 9999 cannot be encoded.\<close>

definition service_json :: "service_response \<Rightarrow> json" where
  "service_json s =
     JObj ([(''id'', JStr (sr_ID s)), (''tenantId'', JStr (sr_TenantID s)), (''name'', JStr (sr_Name s))] @
       omitempty ''description'' (sr_Description s) @
       [(''tier'', JInt (sr_Tier s)), (''lifecycle'', JStr (sr_Lifecycle s))] @
       omitempty ''repository'' (sr_Repository s) @
       [(''ownership'', JObj ([(''owningTeam'', JStr (sr_OwningTeam s))] @ omitempty ''onCallRef'' (sr_OnCallRef s))),
        (''version'', JInt (sr_Version s)), (''createdAt'', JStr (RFC3339Nano (sr_CreatedAt s))),
        (''updatedAt'', JStr (RFC3339Nano (sr_UpdatedAt s)))])"

definition encode_service :: "service_response \<Rightarrow> json option" where
  "encode_service s =
     (if year_ok (sr_CreatedAt s) \<and> year_ok (sr_UpdatedAt s) then Some (service_json s) else None)"

section \<open>Versions in headers\<close>

definition ifMatch :: "request \<Rightarrow> int" where
  "ifMatch r =
     (let raw = Trim (rq_header r ''If-Match'') (CHR 0x22)
      in if raw = [] then 0 else case ParseInt raw of None \<Rightarrow> 0 | Some v \<Rightarrow> v)"

definition setETag :: "int \<Rightarrow> (string \<rightharpoonup> string) \<Rightarrow> (string \<rightharpoonup> string)" where
  "setETag version hs = hs(''ETag'' \<mapsto> FormatInt version)"

section \<open>Handlers\<close>

definition service_answer :: "env \<Rightarrow> request \<Rightarrow> (go_error + service) \<times> world \<Rightarrow> outcome \<times> world" where
  "service_answer E r res =
     (case res of
        (Inl err, w) \<Rightarrow> (Responded (httpx_Error Map.empty r err), w)
      | (Inr svc, w) \<Rightarrow>
          (Responded (JSON (setETag (svc_version svc) Map.empty) 200
             (encode_service (toResponse (env_uuid E) svc))), w))"

definition replay_answer :: "http_lib \<Rightarrow> nat \<Rightarrow> json \<Rightarrow> response" where
  "replay_answer H status body =
     \<lparr>rs_status = status, rs_headers = [''Idempotency-Replayed'' \<mapsto> ''true''] ++ content_json,
      rs_body = hl_jsonb_out H body\<rparr>"

definition created_answer :: "env \<Rightarrow> service \<Rightarrow> response" where
  "created_answer E svc =
     JSON (setETag (svc_version svc) [''Location'' \<mapsto> ''/api/v1/services/'' @ ServiceID_String (env_uuid E) (svc_id svc)])
       201 (encode_service (toResponse (env_uuid E) svc))"

definition pg_json_error :: go_error where
  "pg_json_error = PgError ''22P02'' ''invalid input syntax for type json''"

text \<open>
  \<^verbatim>\<open>Register\<close>. When the response cannot be encoded the stored body is empty text, which the
  \<^verbatim>\<open>jsonb\<close> cast refuses: nothing is saved, and the error is dropped like every error of \<^verbatim>\<open>Save\<close>.
\<close>

definition Register_handler :: "env \<Rightarrow> http_lib \<Rightarrow> bool \<Rightarrow> world handler" where
  "Register_handler E H idem r w =
     (case ReadAll r of
        None \<Rightarrow> (Responded (httpx_Error Map.empty r
                  (Validation ''INVALID_BODY'' ''request body could not be read'')), w)
      | Some body \<Rightarrow>
     (case Option.bind (Unmarshal body) (\<lambda>v. decode_struct False register_fields v empty_register) of
        None \<Rightarrow> (Responded (httpx_Error Map.empty r
                  (Validation ''INVALID_BODY'' ''request body is not valid JSON'')), w)
      | Some inp \<Rightarrow>
     (let idemKey = rq_header r ''Idempotency-Key'';
          keyed = (idemKey \<noteq> [] \<and> idem)
      in case (if keyed then Idempotency_Lookup E idemKey w else (Inr None, w)) of
        (Inl err, w1) \<Rightarrow> (Responded (httpx_Error Map.empty r err), w1)
      | (Inr (Some (status, stored)), w1) \<Rightarrow> (Responded (replay_answer H status stored), w1)
      | (Inr None, w1) \<Rightarrow>
          (case RegisterService E (rq_now r) inp w1 of
             (Inl err, w2) \<Rightarrow> (Responded (httpx_Error Map.empty r err), w2)
           | (Inr svc, w2) \<Rightarrow>
               (let w3 = (if keyed
                          then (case encode_service (toResponse (env_uuid E) svc) of
                                  Some stored \<Rightarrow>
                                    snd (Idempotency_Save E idemKey (hl_sha256_hex H body) 201 stored w2)
                                | None \<Rightarrow>
                                    snd (sql E (\<lambda>d. (Inl pg_json_error :: go_error + unit, d)) (snd (id_New E w2))))
                          else w2)
                in (Responded (created_answer E svc), w3))))))"

definition Get_handler :: "env \<Rightarrow> world handler" where
  "Get_handler E r w = service_answer E r (GetService E (rq_id r) w)"

definition invalid_limit :: go_error where
  "invalid_limit = Validation ''INVALID_LIMIT'' ''limit must be a positive integer''"

text \<open>\<^verbatim>\<open>parseListFilter\<close>, query parameter by query parameter; \<^verbatim>\<open>strconv.Atoi\<close> is \<open>ParseInt\<close> on 64 bits.\<close>

definition parse_limit :: "string \<Rightarrow> list_filter \<Rightarrow> go_error + list_filter" where
  "parse_limit v f =
     (if v = [] then Inr f
      else case ParseInt v of
             None \<Rightarrow> Inl invalid_limit
           | Some n \<Rightarrow> (if n < 1 then Inl invalid_limit else Inr (f\<lparr>lf_Limit := n\<rparr>)))"

definition parse_tenant :: "uuid_lib \<Rightarrow> string \<Rightarrow> list_filter \<Rightarrow> go_error + list_filter" where
  "parse_tenant U v f =
     (if v = [] then Inr f
      else case TenantIDFromString U v of Inl err \<Rightarrow> Inl err | Inr tid \<Rightarrow> Inr (f\<lparr>lf_TenantID := Some tid\<rparr>))"

definition parse_lifecycle :: "string \<Rightarrow> list_filter \<Rightarrow> go_error + list_filter" where
  "parse_lifecycle v f =
     (if v = [] then Inr f
      else case ParseLifecycle v of Inl err \<Rightarrow> Inl err | Inr lc \<Rightarrow> Inr (f\<lparr>lf_Lifecycle := Some lc\<rparr>))"

definition parse_tier :: "string \<Rightarrow> list_filter \<Rightarrow> go_error + list_filter" where
  "parse_tier v f =
     (if v = [] then Inr f
      else case ParseInt v of
             None \<Rightarrow> Inl (Validation ''INVALID_TIER'' ''tier must be an integer from 1 to 4'')
           | Some n \<Rightarrow> (case NewTier n of Inl err \<Rightarrow> Inl err | Inr t \<Rightarrow> Inr (f\<lparr>lf_Tier := Some t\<rparr>)))"

definition parse_sort :: "string \<Rightarrow> list_filter \<Rightarrow> go_error + list_filter" where
  "parse_sort v f =
     (if v = [] \<or> v = ''created_at'' then Inr (f\<lparr>lf_Sort := SortCreatedAt\<rparr>)
      else if v = ''name'' then Inr (f\<lparr>lf_Sort := SortName\<rparr>)
      else Inl (Validation ''INVALID_SORT'' ''sort must be created_at or name''))"

definition parse_order :: "string \<Rightarrow> list_filter \<Rightarrow> go_error + list_filter" where
  "parse_order v f =
     (if v = [] \<or> v = ''desc'' then Inr (f\<lparr>lf_Order := OrderDesc\<rparr>)
      else if v = ''asc'' then Inr (f\<lparr>lf_Order := OrderAsc\<rparr>)
      else Inl (Validation ''INVALID_ORDER'' ''order must be asc or desc''))"

definition parseListFilter :: "uuid_lib \<Rightarrow> request \<Rightarrow> go_error + list_filter" where
  "parseListFilter U r =
     (let q = rq_query r;
          f = \<lparr>lf_TenantID = None, lf_Lifecycle = None, lf_Tier = None, lf_Sort = SortCreatedAt,
               lf_Order = OrderDesc, lf_Limit = 50, lf_Cursor = q ''cursor''\<rparr>
      in case parse_limit (q ''limit'') f of Inl err \<Rightarrow> Inl err | Inr f1 \<Rightarrow>
         (case parse_tenant U (q ''tenantId'') f1 of Inl err \<Rightarrow> Inl err | Inr f2 \<Rightarrow>
         (case parse_lifecycle (q ''lifecycle'') f2 of Inl err \<Rightarrow> Inl err | Inr f3 \<Rightarrow>
         (case parse_tier (q ''tier'') f3 of Inl err \<Rightarrow> Inl err | Inr f4 \<Rightarrow>
         (case parse_sort (q ''sort'') f4 of Inl err \<Rightarrow> Inl err | Inr f5 \<Rightarrow>
            parse_order (q ''order'') f5)))))"

text \<open>One item that cannot be encoded makes the whole page unencodable.\<close>

definition encode_page :: "json option list \<Rightarrow> string \<Rightarrow> json option" where
  "encode_page items next =
     (if None \<in> set items then None else Some (page_json (map the items) next))"

definition List_handler :: "env \<Rightarrow> world handler" where
  "List_handler E r w =
     (case parseListFilter (env_uuid E) r of
        Inl err \<Rightarrow> (Responded (httpx_Error Map.empty r err), w)
      | Inr f \<Rightarrow>
     (case ListServices E f w of
        (Inl err, w1) \<Rightarrow> (Responded (httpx_Error Map.empty r err), w1)
      | (Inr (services, next), w1) \<Rightarrow>
          (Responded (JSON Map.empty 200
             (encode_page (map (\<lambda>s. encode_service (toResponse (env_uuid E) s)) services) next)), w1)))"

definition ChangeOwnership_handler :: "env \<Rightarrow> http_lib \<Rightarrow> world handler" where
  "ChangeOwnership_handler E H r w =
     (case httpx_Decode (hl_json_error H) ownership_fields \<lparr>cor_OwningTeam = [], cor_OnCallRef = []\<rparr> r of
        Inl rs \<Rightarrow> (Responded rs, w)
      | Inr req \<Rightarrow>
          service_answer E r (ChangeOwnership E (rq_now r)
            \<lparr>co_ServiceID = rq_id r, co_OwningTeam = cor_OwningTeam req, co_OnCallRef = cor_OnCallRef req,
             co_ExpectedVersion = ifMatch r\<rparr> w))"

definition ChangeLifecycle_handler :: "env \<Rightarrow> http_lib \<Rightarrow> world handler" where
  "ChangeLifecycle_handler E H r w =
     (case httpx_Decode (hl_json_error H) lifecycle_fields [] r of
        Inl rs \<Rightarrow> (Responded rs, w)
      | Inr lc \<Rightarrow>
          service_answer E r (ChangeLifecycle E (rq_now r)
            \<lparr>cl_ServiceID = rq_id r, cl_Lifecycle = lc, cl_ExpectedVersion = ifMatch r\<rparr> w))"

definition Retire_handler :: "env \<Rightarrow> world handler" where
  "Retire_handler E r w =
     service_answer E r (RetireService E (rq_now r)
       \<lparr>re_ServiceID = rq_id r, re_ExpectedVersion = ifMatch r\<rparr> w)"

section \<open>Versions survive the round trip through headers\<close>

lemma no_quote_FormatInt: "CHR 0x22 \<notin> set (FormatInt v)"
  using format_nat_digits [of "nat v"] format_nat_digits [of "nat (- v)"] by (auto simp: FormatInt_def is_digit_def)

lemma FormatInt_nonempty: "FormatInt v \<noteq> []"
  using format_nat_head [of "nat v"] by (auto simp: FormatInt_def)

lemma dropWhile_other: "c \<notin> set s \<Longrightarrow> dropWhile (\<lambda>x. x = c) s = s"
  by (cases s) auto

lemma Trim_inside: "c \<notin> set s \<Longrightarrow> Trim s c = s"
  by (simp add: Trim_def dropWhile_other)

lemma Trim_quoted: "c \<notin> set s \<Longrightarrow> Trim (c # s @ [c]) c = s"
  by (cases s) (auto simp: Trim_def dropWhile_append1 dropWhile_other dropWhile_append3)

definition quoted :: "string \<Rightarrow> string" where
  "quoted s = CHR 0x22 # s @ [CHR 0x22]"

lemma ifMatch_version:
  assumes "in_int64 v" and "rq_header r ''If-Match'' \<in> {FormatInt v, quoted (FormatInt v)}"
  shows "ifMatch r = v"
proof -
  have "Trim (rq_header r ''If-Match'') (CHR 0x22) = FormatInt v"
    using assms(2) Trim_inside [OF no_quote_FormatInt] Trim_quoted [OF no_quote_FormatInt]
    by (auto simp: quoted_def)
  then show ?thesis using assms(1) by (simp add: ifMatch_def FormatInt_nonempty)
qed

lemma httpx_Error_header: "httpx_Error hs (r\<lparr>rq_header := h\<rparr>) err = httpx_Error hs r err"
  by (simp add: httpx_Error_def error_body_def CorrelationID_def)

section \<open>Filters\<close>

lemma parse_limit_Inr:
  "parse_limit v f = Inr g \<Longrightarrow> (1 \<le> lf_Limit f \<longrightarrow> 1 \<le> lf_Limit g) \<and> lf_Tier g = lf_Tier f \<and> lf_Cursor g = lf_Cursor f"
  by (auto simp: parse_limit_def split: if_splits option.splits)

lemma parse_tenant_Inr:
  "parse_tenant U v f = Inr g \<Longrightarrow> lf_Limit g = lf_Limit f \<and> lf_Tier g = lf_Tier f \<and> lf_Cursor g = lf_Cursor f"
  by (auto simp: parse_tenant_def split: if_splits sum.splits)

lemma parse_lifecycle_Inr:
  "parse_lifecycle v f = Inr g \<Longrightarrow> lf_Limit g = lf_Limit f \<and> lf_Tier g = lf_Tier f \<and> lf_Cursor g = lf_Cursor f"
  by (auto simp: parse_lifecycle_def split: if_splits sum.splits)

lemma parse_tier_Inr:
  "parse_tier v f = Inr g \<Longrightarrow> lf_Limit g = lf_Limit f \<and> lf_Cursor g = lf_Cursor f \<and>
     (lf_Tier f = None \<longrightarrow> (\<forall>t. lf_Tier g = Some t \<longrightarrow> tier_ok t))"
  by (auto simp: parse_tier_def NewTier_ok split: if_splits sum.splits option.splits)

lemma parse_sort_Inr:
  "parse_sort v f = Inr g \<Longrightarrow> lf_Limit g = lf_Limit f \<and> lf_Cursor g = lf_Cursor f \<and> lf_Tier g = lf_Tier f \<and>
     lf_Sort g \<in> {SortCreatedAt, SortName}"
  by (auto simp: parse_sort_def split: if_splits)

lemma parse_order_Inr:
  "parse_order v f = Inr g \<Longrightarrow> lf_Limit g = lf_Limit f \<and> lf_Cursor g = lf_Cursor f \<and> lf_Tier g = lf_Tier f \<and>
     lf_Sort g = lf_Sort f \<and> lf_Order g \<in> {OrderAsc, OrderDesc}"
  by (auto simp: parse_order_def split: if_splits)

section \<open>Properties\<close>

text \<open>
  The entity tag of a response, sent back as \<^verbatim>\<open>If-Match\<close> (bare or in quotes), is the version
  it was made from, for every version.
\<close>

lemma etag_roundtrip:
  assumes "in_int64 v" and "setETag v hs ''ETag'' = Some tag"
    and "rq_header r ''If-Match'' \<in> {tag, quoted tag}"
  shows "ifMatch r = v"
  using assms by (intro ifMatch_version) (auto simp: setETag_def)

lemma etag_roundtrip_witness:
  "ifMatch (example_request\<lparr>rq_header := (\<lambda>k. quoted ''7'')\<rparr>) = 7"
proof -
  have "setETag 7 Map.empty ''ETag'' = Some ''7''" by code_simp
  with etag_roundtrip [of 7 Map.empty "''7''" "example_request\<lparr>rq_header := (\<lambda>k. quoted ''7'')\<rparr>"] show ?thesis
    by (simp add: in_int64_def)
qed

text \<open>
  C18: A client that holds an outdated entity tag cannot retire a service: the request is
  answered with 409 and the database is unchanged, even though retirement itself is always
  allowed.
\<close>

theorem stale_etag_refused:
  assumes "catalog_ok (w_db w)" and "uuid_laws (env_uuid E)" and "env_fault E = (\<lambda>n. None)"
    and "row \<in> set (catalog_services (w_db w))" and "service_columns_ok row"
    and "rq_id r = uuid_String (env_uuid E) (cs_id row)" and "0 < v" and "in_int64 v" and "v \<noteq> cs_version row"
    and "rq_header r ''If-Match'' \<in> {FormatInt v, quoted (FormatInt v)}"
  shows "\<exists>rs w'. Retire_handler E r w = (Responded rs, w') \<and> rs_status rs = 409 \<and> w_db w' = w_db w"
proof -
  let ?x = "OpRetire (rq_now r)"
  obtain s where s: "scanService (env_uuid E) (Some row) = Inr s" "row_of s = row"
    using scanService_ok [OF assms(2) catalog_okD(3) [OF assms(1,4)]] by metis
  obtain svc where x: "service_step (env_uuid E) s ?x = Inr svc"
    by (cases "svc_lifecycle s = Retired") (auto simp: forge_defs)
  from x s(2) assms(5) have cols: "service_columns_ok (row_of svc)"
    by (auto simp: forge_defs service_columns_ok_def row_of_def split: if_splits)
  obtain a w' where m: "mutate E (ServiceID (cs_id row)) v (\<lambda>s. service_step (env_uuid E) s ?x) w = (a, w')"
    by fastforce
  have "a = Inl ErrVersionConflict" "w_db w' = w_db w"
    using stale_version_unchanged [OF assms(1,2,4,7,9) m]
      stale_version_conflict [OF assms(1,2,4,7,9,3) s(1) x cols] m by auto
  moreover have "RetireService E (rq_now r) \<lparr>re_ServiceID = rq_id r, re_ExpectedVersion = ifMatch r\<rparr> w = (a, w')"
    using m assms(2,6) ifMatch_version [OF assms(8,10)]
    by (simp add: RetireService_def ServiceIDFromString_def)
  ultimately show ?thesis
    by (simp add: Retire_handler_def service_answer_def httpx_Error_def JSON_def) (simp add: forge_defs)
qed

definition example_retire :: request where
  "example_retire = example_request\<lparr>rq_id := canonical_String 1, rq_header := (\<lambda>k. ''2'')\<rparr>"

theorem stale_etag_refused_witness:
  "\<exists>rs w'. Retire_handler plain_env example_retire example_world = (Responded rs, w') \<and> rs_status rs = 409 \<and>
     w_db w' = w_db example_world"
proof (rule stale_etag_refused [where row = example_row and v = 2])
  show "service_columns_ok example_row"
    by (simp add: service_columns_ok_def example_row_def pg_text_ascii)
  show "rq_header example_retire ''If-Match'' \<in> {FormatInt 2, quoted (FormatInt 2)}"
  proof -
    have "FormatInt 2 = ''2''" by code_simp
    then show ?thesis by (simp add: example_retire_def)
  qed
qed (simp_all add: example_retire_def plain_env_def canonical_uuid_lib_def example_row_def in_int64_def canonical_uuid_laws [unfolded canonical_uuid_lib_def])

text \<open>
  An \<^verbatim>\<open>If-Match\<close> that is not a decimal number (a weak tag \<^verbatim>\<open>W/"3"\<close>, a list of tags, \<^verbatim>\<open>*\<close>) is
  silently treated as absent: the request runs without any check of the version.
\<close>

lemma malformed_if_match_ignored:
  assumes "ParseInt (Trim (rq_header r ''If-Match'') (CHR 0x22)) = None"
  shows "Retire_handler E r w = Retire_handler E (r\<lparr>rq_header := (rq_header r)(''If-Match'' := [])\<rparr>) w"
proof -
  have "ifMatch r = 0" "ifMatch (r\<lparr>rq_header := (rq_header r)(''If-Match'' := [])\<rparr>) = 0"
    using assms by (simp_all add: ifMatch_def Let_def Trim_def)
  then show ?thesis
    by (simp add: Retire_handler_def service_answer_def httpx_Error_header split: prod.split sum.split)
qed

lemma malformed_if_match_ignored_witness:
  "Retire_handler plain_env (example_retire\<lparr>rq_header := (\<lambda>k. if k = ''If-Match'' then ''W/2'' else [])\<rparr>) example_world =
   Retire_handler plain_env (example_retire\<lparr>rq_header := (\<lambda>k. [])\<rparr>) example_world"
proof -
  have "ParseInt (Trim ''W/2'' (CHR 0x22)) = None" by code_simp
  moreover have "(\<lambda>k. if k = ''If-Match'' then ''W/2'' else [])(''If-Match'' := []) = (\<lambda>k. [])" by auto
  ultimately show ?thesis
    using malformed_if_match_ignored [of "example_retire\<lparr>rq_header := (\<lambda>k. if k = ''If-Match'' then ''W/2'' else [])\<rparr>"
        plain_env example_world] by simp
qed

text \<open>
  Every filter that \<^verbatim>\<open>parseListFilter\<close> accepts is well formed: a known sort field and order, a
  positive limit, a tier from 1 to 4, and the cursor as it was sent.
\<close>

lemma parse_list_filter_ok:
  assumes "parseListFilter U r = Inr f"
  shows "lf_Sort f \<in> {SortCreatedAt, SortName} \<and> lf_Order f \<in> {OrderAsc, OrderDesc} \<and> 1 \<le> lf_Limit f \<and>
    (\<forall>t. lf_Tier f = Some t \<longrightarrow> tier_ok t) \<and> lf_Cursor f = rq_query r ''cursor''"
proof -
  let ?q = "rq_query r"
  define f0 where "f0 = \<lparr>lf_TenantID = None, lf_Lifecycle = None, lf_Tier = None, lf_Sort = SortCreatedAt,
    lf_Order = OrderDesc, lf_Limit = 50, lf_Cursor = ?q ''cursor''\<rparr>"
  from assms obtain f1 f2 f3 f4 f5 where "parse_limit (?q ''limit'') f0 = Inr f1"
      "parse_tenant U (?q ''tenantId'') f1 = Inr f2" "parse_lifecycle (?q ''lifecycle'') f2 = Inr f3"
      "parse_tier (?q ''tier'') f3 = Inr f4" "parse_sort (?q ''sort'') f4 = Inr f5"
      "parse_order (?q ''order'') f5 = Inr f"
    unfolding parseListFilter_def Let_def case_sum_Inr_iff f0_def by blast
  note steps = parse_limit_Inr [OF this(1)] parse_tenant_Inr [OF this(2)] parse_lifecycle_Inr [OF this(3)]
    parse_tier_Inr [OF this(4)] parse_sort_Inr [OF this(5)] parse_order_Inr [OF this(6)]
  have "1 \<le> lf_Limit f0" "lf_Tier f0 = None" "lf_Cursor f0 = ?q ''cursor''" by (simp_all add: f0_def)
  with steps show ?thesis by simp
qed

lemma parse_list_filter_ok_witness:
  "\<exists>f. parseListFilter canonical_uuid_lib example_request = Inr f \<and> lf_Sort f \<in> {SortCreatedAt, SortName}"
proof -
  have "\<exists>f. parseListFilter canonical_uuid_lib example_request = Inr f"
    by (simp add: parseListFilter_def example_request_def Let_def parse_limit_def parse_tenant_def parse_lifecycle_def
        parse_tier_def parse_sort_def parse_order_def)
  with parse_list_filter_ok show ?thesis by blast
qed

section \<open>Idempotent registration\<close>

lemma RegisterService_keys:
  assumes "RegisterService E now inp w = (r, w')"
  shows "idempotency_keys (w_db w') = idempotency_keys (w_db w)"
  using assms
proof (cases rule: RegisterService_cases)
  case (registered tenantID name t own svc w1 w2)
  then show ?thesis using register_work_Inr(1) [OF registered(7)] by simp
qed simp

lemma RegisterService_times:
  assumes "RegisterService E now inp w = (Inr svc, w')"
  shows "svc_createdAt svc = now" and "svc_updatedAt svc = now"
  using assms
  by (cases rule: RegisterService_cases; auto simp: Register_def Service_record_def)+

definition decodes_as :: "request \<Rightarrow> register_service_input \<Rightarrow> bool" where
  "decodes_as r inp \<longleftrightarrow> (\<exists>body. ReadAll r = Some body \<and>
     Option.bind (Unmarshal body) (\<lambda>v. decode_struct False register_fields v empty_register) = Some inp)"

text \<open>A first request with a key, answered 201, has stored the answer under the key.\<close>

lemma Register_handler_stores:
  assumes h: "Register_handler E H True q w = (Responded rs, w')" and k: "rq_header q ''Idempotency-Key'' = key"
    and key: "key \<noteq> []" "pg_text key" "key \<notin> set (map ik_idem_key (idempotency_keys (w_db w)))"
    and E: "env_fault E = (\<lambda>n. None)" and ids: "\<And>n. env_id E n \<notin> set (map ik_id (idempotency_keys (w_db w)))"
    and st: "rs_status rs = 201" and y: "year_ok (rq_now q)"
  obtains v i h' where "rs_body rs = Marshal v @ [CHR 0x0A]"
    and "idempotency_keys (w_db w') = idempotency_keys (w_db w) @
      [\<lparr>ik_id = i, ik_idem_key = key, ik_request_hash = h', ik_response_status = 201, ik_response_body = v\<rparr>]"
proof -
  have err: "rs_status (httpx_Error hs q e) \<noteq> 201" for hs e
    using HTTPStatus_range [of e] by (auto simp: httpx_Error_def JSON_def simp del: HTTPStatus.simps)
  have f: "find (\<lambda>r. ik_idem_key r = key) (idempotency_keys (w_db w)) = None"
    using key(3) by (auto simp: find_map_None)
  let ?w1 = "w\<lparr>w_stmts := Suc (w_stmts w), w_db := w_db w\<rparr>"
  have look: "Idempotency_Lookup E key w = (Inr None, ?w1)"
    using E key(2) f by (simp add: Idempotency_Lookup_def sql_no_fault select_idempotency_key_def)
  obtain inp body svc w2 where reg: "RegisterService E (rq_now q) inp ?w1 = (Inr svc, w2)"
    and fin: "w' = (case encode_service (toResponse (env_uuid E) svc) of
        Some stored \<Rightarrow> snd (Idempotency_Save E key (hl_sha256_hex H body) 201 stored w2)
      | None \<Rightarrow> snd (sql E (\<lambda>d. (Inl pg_json_error :: go_error + unit, d)) (snd (id_New E w2))))"
    and rs: "rs = created_answer E svc"
    using h st key(1) look err unfolding Register_handler_def k
    by (auto simp: Let_def split: option.splits sum.splits prod.splits)
  let ?v = "service_json (toResponse (env_uuid E) svc)"
  have enc: "encode_service (toResponse (env_uuid E) svc) = Some ?v"
    using RegisterService_times [OF reg] y by (simp add: encode_service_def toResponse_def)
  have keys2: "idempotency_keys (w_db w2) = idempotency_keys (w_db w)"
    using RegisterService_keys [OF reg] by simp
  have "idempotency_keys (w_db w') = idempotency_keys (w_db w) @
      [\<lparr>ik_id = env_id E (w_ids w2), ik_idem_key = key, ik_request_hash = hl_sha256_hex H body,
        ik_response_status = 201, ik_response_body = ?v\<rparr>]"
    using fin enc E key(2,3) ids keys2
    by (simp add: Idempotency_Save_def id_New_def sql_no_fault insert_idempotency_key_def)
  moreover have "rs_body rs = Marshal ?v @ [CHR 0x0A]"
    using rs enc by (simp add: created_answer_def JSON_def)
  ultimately show thesis by (rule that [rotated])
qed

text \<open>
  C17: A registration is executed at most once per idempotency key: after a request with a fresh
  key was answered 201 with a JSON value, every later request with that key (whatever its body,
  as long as it decodes) is answered 201 with the stored copy of that value, marked as a replay,
  and changes nothing in the database. Where the value is printed by PostgreSQL, it reads back
  as the same JSON value up to the order of members.
\<close>

theorem idempotent_replay:
  assumes "Register_handler E H True q w = (Responded rs, w')" and "rq_header q ''Idempotency-Key'' = key"
    and "key \<noteq> []" and "pg_text key" and "key \<notin> set (map ik_idem_key (idempotency_keys (w_db w)))"
    and "env_fault E = (\<lambda>n. None)" and "\<And>n. env_id E n \<notin> set (map ik_id (idempotency_keys (w_db w)))"
    and "rs_status rs = 201" and "year_ok (rq_now q)" and "jsonb_laws H"
    and "keys_ok (w_db w2)" and "set (idempotency_keys (w_db w')) \<subseteq> set (idempotency_keys (w_db w2))"
    and "rq_header q2 ''Idempotency-Key'' = key" and "decodes_as q2 inp" and "env_fault F = (\<lambda>n. None)"
  shows "\<exists>v w3. rs_body rs = Marshal v @ [CHR 0x0A] \<and>
    Register_handler F H True q2 w2 = (Responded (replay_answer H 201 v), w3) \<and> w_db w3 = w_db w2 \<and>
    (json_ok v \<and> json_depth v \<le> maxNestingDepth \<longrightarrow>
       (\<exists>v'. Unmarshal (rs_body (replay_answer H 201 v)) = Some v' \<and> same_json v' v))"
proof -
  obtain v i h' where v: "rs_body rs = Marshal v @ [CHR 0x0A]"
    and "idempotency_keys (w_db w') = idempotency_keys (w_db w) @
      [\<lparr>ik_id = i, ik_idem_key = key, ik_request_hash = h', ik_response_status = 201, ik_response_body = v\<rparr>]"
    using Register_handler_stores [OF assms(1-9)] by blast
  then have row: "\<lparr>ik_id = i, ik_idem_key = key, ik_request_hash = h', ik_response_status = 201,
      ik_response_body = v\<rparr> \<in> set (idempotency_keys (w_db w2))" using assms(12) by auto
  obtain w3 where "Idempotency_Lookup F key w2 = (Inr (Some (201, v)), w3)" "w_db w3 = w_db w2"
    using Idempotency_Lookup_stored [OF assms(11) row, of F] assms(4,15) by auto
  then have "Register_handler F H True q2 w2 = (Responded (replay_answer H 201 v), w3)" "w_db w3 = w_db w2"
    using assms(3,13,14) by (auto simp: Register_handler_def decodes_as_def Let_def)
  with v assms(10) show ?thesis by (auto simp: jsonb_laws_def replay_answer_def)
qed

text \<open>Witness: the example registration, sent twice with the key \<^verbatim>\<open>k1\<close>.\<close>

definition example_register_json :: json where
  "example_register_json = JObj [(''tenantId'', JStr (canonical_String 9)), (''name'', JStr ''pay''),
     (''tier'', JInt 1), (''owningTeam'', JStr ''core''), (''onCallRef'', JStr ''pd'')]"

definition example_register :: request where
  "example_register = example_request\<lparr>rq_body := Marshal example_register_json,
     rq_header := (\<lambda>k. if k = ''Idempotency-Key'' then ''k1'' else [])\<rparr>"

lemma example_register_decodes: "decodes_as example_register example_input"
proof -
  have "length (Marshal example_register_json) = 110" by code_simp
  then have r: "ReadAll example_register = Some (Marshal example_register_json)"
    by (simp add: ReadAll_def example_register_def max_body_def)
  have "ascii (canonical_String 9)"
    using uuid_laws_ascii [OF canonical_uuid_laws] by (simp add: canonical_uuid_lib_def)
  then have u: "Unmarshal (Marshal example_register_json) = Some example_register_json"
    by (intro Unmarshal_Marshal) (auto simp: example_register_json_def JInt_def maxNestingDepth_def)
  have p: "ParseInt (FormatInt 1) = Some 1" by (simp add: in_int64_def)
  have "decode_struct False register_fields example_register_json empty_register = Some example_input"
    by (simp add: decode_struct_def example_register_json_def register_fields_def field_for_def
        string_field_def int_field_def JInt_def p empty_register_def example_input_def)
  with r u show ?thesis by (auto simp: decodes_as_def)
qed

lemma example_register_created:
  obtains rs w' where "Register_handler plain_env plain_http_lib True example_register empty_world = (Responded rs, w')"
    and "rs_status rs = 201" and "keys_ok (w_db w')"
proof -
  let ?w1 = "empty_world\<lparr>w_stmts := 1\<rparr>"
  have "\<not> isl (fst (RegisterService plain_env 5000 example_input ?w1))" by code_simp
  then obtain svc w2 where reg: "RegisterService plain_env 5000 example_input ?w1 = (Inr svc, w2)"
    by (metis sum.collapse(2) prod.collapse)
  have "pg_text ''k1''" by (rule pg_text_ascii) simp
  then have look: "Idempotency_Lookup plain_env ''k1'' empty_world = (Inr None, ?w1)"
    by (simp add: Idempotency_Lookup_def sql_no_fault select_idempotency_key_def empty_world_def empty_db_def)
  obtain body where b: "ReadAll example_register = Some body"
    "Option.bind (Unmarshal body) (\<lambda>v. decode_struct False register_fields v empty_register) = Some example_input"
    using example_register_decodes by (auto simp: decodes_as_def)
  have k: "rq_header example_register ''Idempotency-Key'' = ''k1''" "rq_now example_register = 5000"
    by (simp_all add: example_register_def example_request_def)
  obtain w3 where h: "Register_handler plain_env plain_http_lib True example_register empty_world =
      (Responded (created_answer plain_env svc), w3)"
    using b look reg k by (simp add: Register_handler_def)
  have "rs_status (created_answer plain_env svc) = 201" by (simp add: created_answer_def JSON_def)
  moreover have "keys_ok (w_db w3)"
  proof -
    have "year_ok 5000" by code_simp
    then have y: "year_ok (rq_now example_register)" by (simp add: k(2))
    obtain v i h' where "idempotency_keys (w_db w3) = idempotency_keys (w_db empty_world) @
      [\<lparr>ik_id = i, ik_idem_key = ''k1'', ik_request_hash = h', ik_response_status = 201, ik_response_body = v\<rparr>]"
      by (rule Register_handler_stores [OF h k(1) _ \<open>pg_text ''k1''\<close> _ plain_env_fault _ calculation y])
        (simp_all add: empty_db_def)
    then show ?thesis by (simp add: keys_ok_def empty_db_def)
  qed
  ultimately show thesis using that h by blast
qed

theorem idempotent_replay_witness:
  "\<exists>rs w' v w3. Register_handler plain_env plain_http_lib True example_register empty_world = (Responded rs, w') \<and>
     rs_body rs = Marshal v @ [CHR 0x0A] \<and>
     Register_handler plain_env plain_http_lib True example_register w' =
       (Responded (replay_answer plain_http_lib 201 v), w3) \<and> w_db w3 = w_db w'"
proof -
  obtain rs w' where h: "Register_handler plain_env plain_http_lib True example_register empty_world = (Responded rs, w')"
    and rs: "rs_status rs = 201" "keys_ok (w_db w')" by (rule example_register_created)
  have k: "rq_header example_register ''Idempotency-Key'' = ''k1''" "rq_now example_register = 5000"
    by (simp_all add: example_register_def example_request_def)
  have "year_ok 5000" by code_simp
  moreover have "pg_text ''k1''" by (rule pg_text_ascii) simp
  ultimately show ?thesis
    using idempotent_replay [OF h k(1) _ _ _ _ _ rs(1) _ _ rs(2) _ k(1) example_register_decodes plain_env_fault] h k(2)
    by (auto simp: empty_db_def)
qed

end
