(* ===== verification/Tenant_Domain.thy ===== *)
theory Tenant_Domain
  imports Aggregate Go_Regexp Forge_Ids
begin

text \<open>
  \<^verbatim>\<open>internal/modules/tenant/domain\<close>: errors, value objects, events and the \<open>Tenant\<close>
  aggregate, in the same shape as the catalog's domain and under the same contracts
  (\<open>text_enum\<close>, \<open>status_machine\<close>, \<open>event_recorder\<close>). Names that the catalog also has carry
  the prefix \<open>Tenant_\<close>.
\<close>

section \<open>Errors\<close>

definition Tenant_ErrInvalidTenantID :: go_error where
  "Tenant_ErrInvalidTenantID = Validation ''INVALID_TENANT_ID'' ''tenant id is not a valid identifier''"
definition ErrInvalidTenantName :: go_error where
  "ErrInvalidTenantName = Validation ''INVALID_TENANT_NAME'' ''tenant name must be 1 to 100 characters''"
definition ErrInvalidSlug :: go_error where
  "ErrInvalidSlug = Validation ''INVALID_SLUG'' ''slug must be a DNS-1123 label of 1 to 63 characters''"
definition ErrInvalidPlan :: go_error where
  "ErrInvalidPlan = Validation ''INVALID_PLAN'' ''plan must be one of free, standard, enterprise''"
definition ErrInvalidStatus :: go_error where
  "ErrInvalidStatus = Validation ''INVALID_STATUS'' ''status must be one of active, suspended, archived''"
definition ErrInvalidQuota :: go_error where
  "ErrInvalidQuota = Validation ''INVALID_QUOTA'' ''max services must not be negative''"
definition Tenant_ErrIllegalTransition :: go_error where
  "Tenant_ErrIllegalTransition =
     Precondition ''ILLEGAL_STATUS_TRANSITION'' ''the requested status transition is not permitted''"
definition ErrArchived :: go_error where
  "ErrArchived = Precondition ''TENANT_ARCHIVED'' ''an archived tenant cannot be modified''"
definition ErrTenantNotFound :: go_error where
  "ErrTenantNotFound = NotFound ''TENANT_NOT_FOUND'' ''tenant not found''"
definition ErrSlugConflict :: go_error where
  "ErrSlugConflict = Conflict ''SLUG_CONFLICT'' ''a tenant with this slug already exists''"
definition Tenant_ErrVersionConflict :: go_error where
  "Tenant_ErrVersionConflict =
     Conflict ''VERSION_CONFLICT'' ''the tenant was modified concurrently; retry with the current version''"

lemmas tenant_errors [forge_defs] =
  Tenant_ErrInvalidTenantID_def ErrInvalidTenantName_def ErrInvalidSlug_def ErrInvalidPlan_def
  ErrInvalidStatus_def ErrInvalidQuota_def Tenant_ErrIllegalTransition_def ErrArchived_def
  ErrTenantNotFound_def ErrSlugConflict_def Tenant_ErrVersionConflict_def

section \<open>Identifiers and value objects\<close>

text \<open>The tenant context's own \<^verbatim>\<open>TenantID\<close>, with the fields of the catalog's.\<close>

definition Tenant_IDFromString :: "uuid_lib \<Rightarrow> string \<Rightarrow> go_error + tenant_id" where
  "Tenant_IDFromString U s =
     (case uuid_Parse U s of None \<Rightarrow> Inl Tenant_ErrInvalidTenantID | Some u \<Rightarrow> Inr (TenantID u))"

definition Tenant_IDString :: "uuid_lib \<Rightarrow> tenant_id \<Rightarrow> string" where
  "Tenant_IDString U t = uuid_String U (TenantID_UUID t)"

definition slugPattern :: regexp where
  "slugPattern = Seq (Class alnum) (Opt (Seq (Star (Class dash_alnum)) (Class alnum)))"

datatype tenant_name = TenantName (TenantName_String: string)

definition NewTenantName :: "string \<Rightarrow> go_error + tenant_name" where
  "NewTenantName s0 =
     (let s = TrimSpace s0
      in if length s < 1 \<or> length s > 100 then Inl ErrInvalidTenantName else Inr (TenantName s))"

datatype slug = Slug (Slug_String: string)

definition NewSlug :: "string \<Rightarrow> go_error + slug" where
  "NewSlug s0 =
     (let s = TrimSpace s0
      in if length s < 1 \<or> length s > 63 \<or> \<not> MatchString slugPattern s
         then Inl ErrInvalidSlug else Inr (Slug s))"

datatype plan = PlanFree | PlanStandard | PlanEnterprise

primrec Plan_string :: "plan \<Rightarrow> string" where
  "Plan_string PlanFree = ''free''"
| "Plan_string PlanStandard = ''standard''"
| "Plan_string PlanEnterprise = ''enterprise''"

definition ParsePlan :: "string \<Rightarrow> go_error + plan" where
  "ParsePlan s =
     (case find (\<lambda>p. Plan_string p = s) [PlanFree, PlanStandard, PlanEnterprise] of
        None \<Rightarrow> Inl ErrInvalidPlan
      | Some p \<Rightarrow> Inr p)"

datatype status = StatusActive | StatusSuspended | StatusArchived

primrec Status_string :: "status \<Rightarrow> string" where
  "Status_string StatusActive = ''active''"
| "Status_string StatusSuspended = ''suspended''"
| "Status_string StatusArchived = ''archived''"

fun statusTransitions :: "status \<Rightarrow> status list" where
  "statusTransitions StatusActive = [StatusSuspended, StatusArchived]"
| "statusTransitions StatusSuspended = [StatusActive, StatusArchived]"
| "statusTransitions StatusArchived = []"

definition ParseStatus :: "string \<Rightarrow> go_error + status" where
  "ParseStatus s =
     (case find (\<lambda>t. Status_string t = s) [StatusActive, StatusSuspended, StatusArchived] of
        None \<Rightarrow> Inl ErrInvalidStatus
      | Some t \<Rightarrow> Inr t)"

definition Status_canTransitionTo :: "status \<Rightarrow> status \<Rightarrow> bool" where
  "Status_canTransitionTo s target \<longleftrightarrow> target \<in> set (statusTransitions s)"

datatype quota = Quota (MaxServices: int)

definition NewQuota :: "int \<Rightarrow> go_error + quota" where
  "NewQuota maxServices =
     (if maxServices < 0 then Inl ErrInvalidQuota else Inr (Quota maxServices))"

section \<open>Events\<close>

record tenant_ev_base =
  tev_id :: string
  tev_at :: time

datatype tenant_event =
    TenantCreated tenant_ev_base string string string
  | TenantStatusChanged tenant_ev_base string string
  | TenantQuotaUpdated tenant_ev_base int

primrec Tenant_EventType :: "tenant_event \<Rightarrow> string" where
  "Tenant_EventType (TenantCreated b name slg pln) = ''tenant.created''"
| "Tenant_EventType (TenantStatusChanged b from to) = ''tenant.status_changed''"
| "Tenant_EventType (TenantQuotaUpdated b n) = ''tenant.quota_updated''"

primrec tenant_event_base :: "tenant_event \<Rightarrow> tenant_ev_base" where
  "tenant_event_base (TenantCreated b name slg pln) = b"
| "tenant_event_base (TenantStatusChanged b from to) = b"
| "tenant_event_base (TenantQuotaUpdated b n) = b"

definition Tenant_AggregateID :: "tenant_event \<Rightarrow> string" where
  "Tenant_AggregateID e = tev_id (tenant_event_base e)"

definition Tenant_OccurredAt :: "tenant_event \<Rightarrow> time" where
  "Tenant_OccurredAt e = tev_at (tenant_event_base e)"

section \<open>The Tenant aggregate\<close>

record tenant =
  ten_id :: tenant_id
  ten_name :: tenant_name
  ten_slug :: slug
  ten_plan :: plan
  ten_status :: status
  ten_quota :: quota
  ten_version :: int
  ten_createdAt :: time
  ten_updatedAt :: time
  ten_events :: "tenant_event list"

definition Tenant_touch :: "time \<Rightarrow> tenant \<Rightarrow> tenant" where
  "Tenant_touch now t = t\<lparr>ten_version := int64 (ten_version t + 1), ten_updatedAt := now\<rparr>"

definition Tenant_record :: "tenant_event \<Rightarrow> tenant \<Rightarrow> tenant" where
  "Tenant_record e t = t\<lparr>ten_events := ten_events t @ [e]\<rparr>"

definition Tenant_Create ::
    "uuid_lib \<Rightarrow> tenant_id \<Rightarrow> tenant_name \<Rightarrow> slug \<Rightarrow> plan \<Rightarrow> quota \<Rightarrow> time \<Rightarrow> tenant" where
  "Tenant_Create U i name slg pln q now =
     Tenant_record
       (TenantCreated \<lparr>tev_id = Tenant_IDString U i, tev_at = now\<rparr>
          (TenantName_String name) (Slug_String slg) (Plan_string pln))
       \<lparr>ten_id = i, ten_name = name, ten_slug = slg, ten_plan = pln, ten_status = StatusActive,
        ten_quota = q, ten_version = 1, ten_createdAt = now, ten_updatedAt = now, ten_events = []\<rparr>"

definition Tenant_Reconstitute ::
    "tenant_id \<Rightarrow> tenant_name \<Rightarrow> slug \<Rightarrow> plan \<Rightarrow> status \<Rightarrow> quota \<Rightarrow> int \<Rightarrow> time \<Rightarrow> time \<Rightarrow> tenant" where
  "Tenant_Reconstitute i name slg pln st q version createdAt updatedAt =
     \<lparr>ten_id = i, ten_name = name, ten_slug = slg, ten_plan = pln, ten_status = st, ten_quota = q,
      ten_version = version, ten_createdAt = createdAt, ten_updatedAt = updatedAt, ten_events = []\<rparr>"

definition Tenant_ChangeStatus :: "uuid_lib \<Rightarrow> status \<Rightarrow> time \<Rightarrow> tenant \<Rightarrow> go_error + tenant" where
  "Tenant_ChangeStatus U target now t =
     (if ten_status t = target then Inr t
      else if \<not> Status_canTransitionTo (ten_status t) target then Inl Tenant_ErrIllegalTransition
      else let from = ten_status t
           in Inr (Tenant_record
                (TenantStatusChanged \<lparr>tev_id = Tenant_IDString U (ten_id t), tev_at = now\<rparr>
                   (Status_string from) (Status_string target))
                (Tenant_touch now (t\<lparr>ten_status := target\<rparr>))))"

definition Tenant_UpdateQuota :: "uuid_lib \<Rightarrow> quota \<Rightarrow> time \<Rightarrow> tenant \<Rightarrow> go_error + tenant" where
  "Tenant_UpdateQuota U q now t =
     (if ten_status t = StatusArchived then Inl ErrArchived
      else Inr (Tenant_record
             (TenantQuotaUpdated \<lparr>tev_id = Tenant_IDString U (ten_id t), tev_at = now\<rparr> (MaxServices q))
             (Tenant_touch now (t\<lparr>ten_quota := q\<rparr>))))"

definition Tenant_PullEvents :: "tenant \<Rightarrow> tenant_event list \<times> tenant" where
  "Tenant_PullEvents t = (ten_events t, t\<lparr>ten_events := []\<rparr>)"

lemmas tenant_op_defs [forge_defs] =
  Tenant_ChangeStatus_def Tenant_UpdateQuota_def Tenant_record_def Tenant_touch_def

text \<open>The mutations a client can request, as data.\<close>

datatype tenant_op = OpChangeStatus status time | OpUpdateQuota quota time

primrec tenant_step :: "uuid_lib \<Rightarrow> tenant \<Rightarrow> tenant_op \<Rightarrow> go_error + tenant" where
  "tenant_step U t (OpChangeStatus st now) = Tenant_ChangeStatus U st now t"
| "tenant_step U t (OpUpdateQuota q now) = Tenant_UpdateQuota U q now t"

section \<open>What the constructors accept\<close>

definition tenant_name_ok :: "tenant_name \<Rightarrow> bool" where
  "tenant_name_ok n \<longleftrightarrow> TenantName_String n \<noteq> [] \<and> length (TenantName_String n) \<le> 100 \<and>
     TrimSpace (TenantName_String n) = TenantName_String n"

definition slug_ok :: "slug \<Rightarrow> bool" where
  "slug_ok s \<longleftrightarrow> dns1123 (Slug_String s) \<and> length (Slug_String s) \<le> 63"

definition quota_ok :: "quota \<Rightarrow> bool" where
  "quota_ok q \<longleftrightarrow> 0 \<le> MaxServices q"

lemma NewTenantName_ok: "NewTenantName s = Inr n \<Longrightarrow> tenant_name_ok n"
  by (auto simp: NewTenantName_def tenant_name_ok_def Let_def split: if_splits)

lemma NewTenantName_again [simp]:
  "tenant_name_ok n \<Longrightarrow> NewTenantName (TenantName_String n) = Inr n"
  by (cases n) (auto simp: NewTenantName_def tenant_name_ok_def Let_def Suc_le_eq)

lemma slugPattern_iff: "MatchString slugPattern s \<longleftrightarrow> dns1123 s"
  using dns1123_regexp_iff [of s] by (simp add: slugPattern_def dns1123_regexp_def)

lemma NewSlug_eq:
  "NewSlug s =
     (if dns1123 (TrimSpace s) \<and> length (TrimSpace s) \<le> 63 then Inr (Slug (TrimSpace s)) else Inl ErrInvalidSlug)"
  by (auto simp: NewSlug_def Let_def slugPattern_iff dns1123_def Suc_le_eq)

lemma NewSlug_ok: "NewSlug s = Inr g \<Longrightarrow> slug_ok g"
  by (auto simp: NewSlug_eq slug_ok_def split: if_splits)

lemma NewSlug_again [simp]: "slug_ok g \<Longrightarrow> NewSlug (Slug_String g) = Inr g"
  by (simp add: NewSlug_eq slug_ok_def dns1123_TrimSpace)

lemma NewQuota_ok: "NewQuota n = Inr q \<longleftrightarrow> q = Quota n \<and> quota_ok q"
  by (auto simp: NewQuota_def quota_ok_def)

lemma NewQuota_again [simp]: "quota_ok q \<Longrightarrow> NewQuota (MaxServices q) = Inr q"
  by (simp add: NewQuota_ok)

lemma Tenant_ID_roundtrip [simp]: "uuid_laws U \<Longrightarrow> Tenant_IDFromString U (Tenant_IDString U i) = Inr i"
  by (simp add: Tenant_IDFromString_def Tenant_IDString_def)

interpretation pl: text_enum ParsePlan Plan_string
proof
  show "ParsePlan (Plan_string x) = Inr x" for x
    by (cases x) (simp_all add: ParsePlan_def)
  show "ParsePlan s = Inr x \<Longrightarrow> Plan_string x = s" for s x
    by (auto simp: ParsePlan_def split: if_splits)
qed

interpretation st: text_enum ParseStatus Status_string
proof
  show "ParseStatus (Status_string x) = Inr x" for x
    by (cases x) (simp_all add: ParseStatus_def)
  show "ParseStatus s = Inr x \<Longrightarrow> Status_string x = s" for s x
    by (auto simp: ParseStatus_def split: if_splits)
qed

interpretation sm: status_machine Status_canTransitionTo StatusArchived
proof
  show "s \<noteq> StatusArchived \<Longrightarrow> Status_canTransitionTo s StatusArchived" for s
    by (cases s) (simp_all add: Status_canTransitionTo_def)
  show "\<not> Status_canTransitionTo s s" for s
    by (cases s) (simp_all add: Status_canTransitionTo_def)
qed (simp add: Status_canTransitionTo_def)

declare pl.parse_text [simp] st.parse_text [simp]

section \<open>Operations\<close>

interpretation tv: event_recorder "tenant_step U" ten_version ten_events for U
proof
  show "tenant_step U t x = Inr t' \<Longrightarrow>
      t' = t \<or> (ten_version t' = int64 (ten_version t + 1) \<and> (\<exists>e. ten_events t' = ten_events t @ [e]))"
    for t x t'
    by (cases x) (auto simp: forge_defs Let_def split: if_splits)
qed

definition tenant_ok :: "tenant \<Rightarrow> bool" where
  "tenant_ok t \<longleftrightarrow> tenant_name_ok (ten_name t) \<and> slug_ok (ten_slug t) \<and> quota_ok (ten_quota t) \<and>
     in_int64 (ten_version t)"

fun tenant_op_ok :: "tenant_op \<Rightarrow> bool" where
  "tenant_op_ok (OpUpdateQuota q now) = quota_ok q"
| "tenant_op_ok _ = True"

lemma tenant_step_ok [forge_inv]:
  "tenant_ok t \<Longrightarrow> tenant_op_ok x \<Longrightarrow> tenant_step U t x = Inr t' \<Longrightarrow> tenant_ok t'"
  by (cases x) (auto simp: forge_defs tenant_ok_def Let_def split: if_splits)

lemma Tenant_Create_ok [forge_inv]:
  "tenant_name_ok name \<Longrightarrow> slug_ok slg \<Longrightarrow> quota_ok q \<Longrightarrow> tenant_ok (Tenant_Create U i name slg pln q now)"
  by (simp add: Tenant_Create_def Tenant_record_def tenant_ok_def in_int64_def)

lemma tenant_step_archived:
  "ten_status t = StatusArchived \<Longrightarrow> tenant_step U t x = Inr t' \<Longrightarrow> t' = t"
  by (cases x) (auto simp: forge_defs sm.terminal_stuck Let_def split: if_splits)

lemma tenant_step_frame:
  assumes "tenant_step U t x = Inr t'"
  shows "ten_id t' = ten_id t" and "ten_slug t' = ten_slug t" and "ten_name t' = ten_name t"
    and "ten_createdAt t' = ten_createdAt t"
  using assms by (cases x; auto simp: forge_defs Let_def split: if_splits)+

section \<open>The event log as a specification\<close>

text \<open>
  What the events tell: the plan and status. The quota a tenant is created with is not in its
  \<open>TenantCreated\<close> event; a quota event carries the new one.
\<close>

fun tenant_replay_event :: "tenant_event \<Rightarrow> (string \<times> int) option \<Rightarrow> int \<Rightarrow> (string \<times> int) option" where
  "tenant_replay_event (TenantCreated b name slg pln) v q0 =
     (if v = None then Some (Status_string StatusActive, q0) else None)"
| "tenant_replay_event (TenantStatusChanged b from to) v q0 =
     (case v of Some (s, q) \<Rightarrow> if from = s then Some (to, q) else None | None \<Rightarrow> None)"
| "tenant_replay_event (TenantQuotaUpdated b n) v q0 =
     (case v of Some (s, q) \<Rightarrow> Some (s, n) | None \<Rightarrow> None)"

definition tenant_replay :: "int \<Rightarrow> tenant_event list \<Rightarrow> (string \<times> int) option" where
  "tenant_replay q0 es = foldl (\<lambda>v e. tenant_replay_event e v q0) None es"

definition tenant_view :: "tenant \<Rightarrow> string \<times> int" where
  "tenant_view t = (Status_string (ten_status t), MaxServices (ten_quota t))"

lemma tenant_step_replay:
  assumes "tenant_replay q0 (ten_events t) = Some (tenant_view t)" and "tenant_step U t x = Inr t'"
  shows "tenant_replay q0 (ten_events t') = Some (tenant_view t')"
  using assms
  by (cases x) (auto simp: forge_defs tenant_view_def tenant_replay_def Let_def split: if_splits)

lemma Tenant_Create_replay:
  "tenant_replay (MaxServices q) (ten_events (Tenant_Create U i name slg pln q now)) =
     Some (tenant_view (Tenant_Create U i name slg pln q now))"
  by (simp add: Tenant_Create_def Tenant_record_def tenant_view_def tenant_replay_def)

text \<open>
  Whatever status and quota changes are requested of a tenant (refused ones included), its
  version counts the recorded events, replaying them from the quota it was created with gives
  its current status and quota, and once archived it never changes again.
\<close>

lemma tenant_event_log_complete:
  "let t = attempt (tenant_step U) (Tenant_Create U i name slg pln q now) xs
   in ten_version t = int64 (int (length (ten_events t))) \<and>
      tenant_replay (MaxServices q) (ten_events t) = Some (tenant_view t) \<and>
      (ten_status t = StatusArchived \<longrightarrow> attempt (tenant_step U) t ys = t)"
proof -
  let ?t0 = "Tenant_Create U i name slg pln q now"
  define t where "t = attempt (tenant_step U) ?t0 xs"
  have v0: "ten_version ?t0 = 1" and e0: "length (ten_events ?t0) = 1"
    by (simp_all add: Tenant_Create_def Tenant_record_def)
  obtain new where "ten_events t = ten_events ?t0 @ new"
    "ten_version t = int64 (ten_version ?t0 + int (length new))"
    using tv.version_counts_events [of ?t0 U xs] v0 by (auto simp: in_int64_def t_def)
  then have "ten_version t = int64 (int (length (ten_events t)))" using v0 e0 by simp
  moreover have "tenant_replay (MaxServices q) (ten_events t) = Some (tenant_view t)"
    unfolding t_def
    by (rule attempt_invariant [where P = "\<lambda>t. tenant_replay (MaxServices q) (ten_events t) = Some (tenant_view t)"])
      (auto intro: tenant_step_replay Tenant_Create_replay)
  moreover have "attempt (tenant_step U) t ys = t" if "ten_status t = StatusArchived"
    by (rule attempt_invariant [where P = "\<lambda>u. u = t"]) (use that in \<open>auto dest: tenant_step_archived\<close>)
  ultimately show ?thesis by (simp add: t_def Let_def)
qed

text \<open>Witness: a tenant suspended, then archived; a later quota change is void.\<close>

lemma tenant_event_log_complete_witness:
  "let t = attempt (tenant_step canonical_uuid_lib)
       (Tenant_Create canonical_uuid_lib (TenantID 1) (TenantName ''Acme'') (Slug ''acme'') PlanFree (Quota 5) 7)
       [OpChangeStatus StatusSuspended 8, OpChangeStatus StatusArchived 9]
   in attempt (tenant_step canonical_uuid_lib) t [OpUpdateQuota (Quota 9) 10] = t"
  using tenant_event_log_complete [of canonical_uuid_lib "TenantID 1" "TenantName ''Acme''" "Slug ''acme''"
      PlanFree "Quota 5" 7 "[OpChangeStatus StatusSuspended 8, OpChangeStatus StatusArchived 9]"
      "[OpUpdateQuota (Quota 9) 10]"]
  by (simp add: Let_def Tenant_Create_def forge_defs Status_canTransitionTo_def)

end
