(* ===== verification/Tenant_Repository.thy ===== *)
theory Tenant_Repository
  imports Tenant_Domain Forge_Db Go_Base64
begin

text \<open>
  \<^verbatim>\<open>internal/modules/tenant/adapters/postgres\<close>: the repository over the table \<^verbatim>\<open>tenants\<close>
  (insert, optimistic update, lookups, the row scanner, the listing with its query text and
  cursors) and the tenant outbox. \<^verbatim>\<open>max_services\<close> is a 4-byte column: the driver refuses to
  encode a Go \<^verbatim>\<open>int\<close> outside its range.
\<close>

section \<open>SQL statements\<close>

definition pg_int4_error :: go_error where
  "pg_int4_error = OtherError ''failed to encode args: value is greater than maximum value for int4''"

definition tenant_check :: "tenant_row \<Rightarrow> bool" where
  "tenant_check r \<longleftrightarrow> tn_plan r \<in> {''free'', ''standard'', ''enterprise''} \<and>
     tn_status r \<in> {''active'', ''suspended'', ''archived''} \<and> 0 \<le> tn_max_services r"

definition insert_tenant :: "tenant_row \<Rightarrow> db \<Rightarrow> (go_error + unit) \<times> db" where
  "insert_tenant r d =
     (if \<not> in_int32 (tn_max_services r) then (Inl pg_int4_error, d)
      else if \<not> (pg_text (tn_name r) \<and> pg_text (tn_slug r)) then (Inl pg_encoding_error, d)
      else if \<not> tenant_check r then (Inl pg_check_error, d)
      else if list_ex (\<lambda>q. tn_id q = tn_id r \<or> tn_slug q = tn_slug r) (tenants d)
      then (Inl pg_unique_error, d)
      else (Inr (), d\<lparr>tenants := tenants d @ [r]\<rparr>))"

definition set_tenant_columns :: "tenant_row \<Rightarrow> tenant_row \<Rightarrow> tenant_row" where
  "set_tenant_columns r q =
     q\<lparr>tn_name := tn_name r, tn_plan := tn_plan r, tn_status := tn_status r,
       tn_max_services := tn_max_services r, tn_version := tn_version r, tn_updated_at := tn_updated_at r\<rparr>"

definition update_tenant :: "tenant_row \<Rightarrow> int \<Rightarrow> db \<Rightarrow> (go_error + nat) \<times> db" where
  "update_tenant r expected d =
     (let hit = (\<lambda>q. tn_id q = tn_id r \<and> tn_version q = expected);
          n = length (filter hit (tenants d))
      in if \<not> in_int32 (tn_max_services r) then (Inl pg_int4_error, d)
         else if \<not> pg_text (tn_name r) then (Inl pg_encoding_error, d)
         else if 0 < n \<and> \<not> tenant_check r then (Inl pg_check_error, d)
         else (Inr n, d\<lparr>tenants := map (\<lambda>q. if hit q then set_tenant_columns r q else q) (tenants d)\<rparr>))"

section \<open>Rows and aggregates\<close>

definition tenant_row_of :: "tenant \<Rightarrow> tenant_row" where
  "tenant_row_of t =
     \<lparr>tn_id = TenantID_UUID (ten_id t), tn_name = TenantName_String (ten_name t),
      tn_slug = Slug_String (ten_slug t), tn_plan = Plan_string (ten_plan t),
      tn_status = Status_string (ten_status t), tn_max_services = MaxServices (ten_quota t),
      tn_version = ten_version t, tn_created_at = timestamptz (ten_createdAt t),
      tn_updated_at = timestamptz (ten_updatedAt t)\<rparr>"

definition Tenant_corrupt :: "go_error \<Rightarrow> go_error" where
  "Tenant_corrupt err = WithCause (Internal ''DATA_CORRUPTION'' ''stored tenant data is invalid'') err"

definition scanTenant :: "uuid_lib \<Rightarrow> tenant_row option \<Rightarrow> go_error + tenant" where
  "scanTenant U row =
     (case row of
        None \<Rightarrow> Inl ErrTenantNotFound
      | Some r \<Rightarrow>
         (case Tenant_IDFromString U (uuid_String U (tn_id r)) of
            Inl err \<Rightarrow> Inl (Tenant_corrupt err)
          | Inr tid \<Rightarrow>
         (case NewTenantName (tn_name r) of
            Inl err \<Rightarrow> Inl (Tenant_corrupt err)
          | Inr tname \<Rightarrow>
         (case NewSlug (tn_slug r) of
            Inl err \<Rightarrow> Inl (Tenant_corrupt err)
          | Inr tslug \<Rightarrow>
         (case ParsePlan (tn_plan r) of
            Inl err \<Rightarrow> Inl (Tenant_corrupt err)
          | Inr tplan \<Rightarrow>
         (case ParseStatus (tn_status r) of
            Inl err \<Rightarrow> Inl (Tenant_corrupt err)
          | Inr tstatus \<Rightarrow>
         (case NewQuota (tn_max_services r) of
            Inl err \<Rightarrow> Inl (Tenant_corrupt err)
          | Inr tquota \<Rightarrow>
              Inr (Tenant_Reconstitute tid tname tslug tplan tstatus tquota (tn_version r)
                (tn_created_at r) (tn_updated_at r)))))))))"

definition Tenant_scan_error :: "go_error \<Rightarrow> go_error" where
  "Tenant_scan_error err = (if Is err ErrNoRows then ErrTenantNotFound else Errorf ''scan tenant'' err)"

section \<open>Repository methods\<close>

definition Tenant_FindByID :: "env \<Rightarrow> tenant_id \<Rightarrow> tenant tx" where
  "Tenant_FindByID E i w =
     (case sql E (\<lambda>d. (Inr (find (\<lambda>r. tn_id r = TenantID_UUID i) (tenants d)), d)) w of
        (Inl err, w1) \<Rightarrow> (Inl (Tenant_scan_error err), w1)
      | (Inr row, w1) \<Rightarrow> (scanTenant (env_uuid E) row, w1))"

definition Tenant_FindBySlug :: "env \<Rightarrow> slug \<Rightarrow> tenant tx" where
  "Tenant_FindBySlug E slg w =
     (case sql E (\<lambda>d. (Inr (find (\<lambda>r. tn_slug r = Slug_String slg) (tenants d)), d)) w of
        (Inl err, w1) \<Rightarrow> (Inl (Tenant_scan_error err), w1)
      | (Inr row, w1) \<Rightarrow> (scanTenant (env_uuid E) row, w1))"

definition Tenant_Insert :: "env \<Rightarrow> tenant \<Rightarrow> unit tx" where
  "Tenant_Insert E t w =
     (case sql E (insert_tenant (tenant_row_of t)) w of
        (Inl err, w1) \<Rightarrow>
          (Inl (if isUniqueViolation err then ErrSlugConflict else Errorf ''insert tenant'' err), w1)
      | (Inr _, w1) \<Rightarrow> (Inr (), w1))"

definition Tenant_Update :: "env \<Rightarrow> tenant \<Rightarrow> int \<Rightarrow> unit tx" where
  "Tenant_Update E t expectedVersion w =
     (case sql E (update_tenant (tenant_row_of t) expectedVersion) w of
        (Inl err, w1) \<Rightarrow> (Inl (Errorf ''update tenant'' err), w1)
      | (Inr rowsAffected, w1) \<Rightarrow>
          (if rowsAffected = 0
           then (case Tenant_FindByID E (ten_id t) w1 of
                   (Inl err, w2) \<Rightarrow>
                     (Inl (if Is err ErrTenantNotFound then ErrTenantNotFound
                           else Tenant_ErrVersionConflict), w2)
                 | (Inr _, w2) \<Rightarrow> (Inl Tenant_ErrVersionConflict, w2))
           else (Inr (), w1)))"

section \<open>Outbox\<close>

fun tenant_event_data :: "tenant_event \<Rightarrow> json" where
  "tenant_event_data (TenantCreated b name slg pln) =
     JObj [(''name'', JStr name), (''slug'', JStr slg), (''plan'', JStr pln)]"
| "tenant_event_data (TenantStatusChanged b from to) = JObj [(''from'', JStr from), (''to'', JStr to)]"
| "tenant_event_data (TenantQuotaUpdated b n) = JObj [(''maxServices'', JInt n)]"

definition tenant_envelope :: "tenant_event \<Rightarrow> json" where
  "tenant_envelope e =
     JObj [(''eventType'', JStr (Tenant_EventType e)), (''aggregateId'', JStr (Tenant_AggregateID e)),
           (''data'', tenant_event_data e)]"

fun Tenant_Outbox_Append :: "env \<Rightarrow> tenant_event list \<Rightarrow> unit tx" where
  "Tenant_Outbox_Append E [] w = (Inr (), w)"
| "Tenant_Outbox_Append E (e # es) w =
     (case id_New E w of (i, w1) \<Rightarrow>
        (case sql E (insert_outbox_event i (uuid_Parse (env_uuid E) (Tenant_AggregateID e)) (Tenant_EventType e)
                (tenant_envelope e) (Tenant_OccurredAt e) (w_txnow w1)) w1 of
           (Inl err, w2) \<Rightarrow> (Inl (Errorf ''append outbox event'' err), w2)
         | (Inr _, w2) \<Rightarrow> Tenant_Outbox_Append E es w2))"

section \<open>Listing\<close>

record tenant_filter =
  tf_Status :: "status option"
  tf_Plan :: "plan option"
  tf_Order :: string
  tf_Limit :: int
  tf_Cursor :: string

definition Tenant_OrderAsc :: string where
  "Tenant_OrderAsc = ''asc''"
definition Tenant_OrderDesc :: string where
  "Tenant_OrderDesc = ''desc''"

lemmas tenant_orders [simp] = Tenant_OrderAsc_def Tenant_OrderDesc_def

record tenant_cursor =
  tc_CreatedAt :: string
  tc_ID :: string
  tc_Order :: string

definition tenant_cursor_json :: "tenant_cursor \<Rightarrow> json" where
  "tenant_cursor_json c =
     JObj [(''c'', JStr (tc_CreatedAt c)), (''id'', JStr (tc_ID c)), (''o'', JStr (tc_Order c))]"

definition tenant_cursor_fields :: "(string \<times> (json \<Rightarrow> tenant_cursor \<Rightarrow> tenant_cursor option)) list" where
  "tenant_cursor_fields =
     [(''c'', string_field (\<lambda>x c. c\<lparr>tc_CreatedAt := x\<rparr>)), (''id'', string_field (\<lambda>x c. c\<lparr>tc_ID := x\<rparr>)),
      (''o'', string_field (\<lambda>x c. c\<lparr>tc_Order := x\<rparr>))]"

text \<open>\<^verbatim>\<open>encodeCursor\<close> leaves the order field empty and \<^verbatim>\<open>decodeCursor\<close> ignores the order it is given.\<close>

definition Tenant_encodeCursor :: "uuid_lib \<Rightarrow> tenant \<Rightarrow> string" where
  "Tenant_encodeCursor U t =
     EncodeToString (Marshal (tenant_cursor_json
       \<lparr>tc_CreatedAt = RFC3339Nano (ten_createdAt t), tc_ID = Tenant_IDString U (ten_id t), tc_Order = []\<rparr>))"

definition Tenant_malformed_cursor :: go_error where
  "Tenant_malformed_cursor = Validation ''INVALID_CURSOR'' ''cursor is malformed''"

definition Tenant_decodeCursor :: "string \<Rightarrow> string \<Rightarrow> go_error + tenant_cursor" where
  "Tenant_decodeCursor encoded order =
     (case DecodeString encoded of
        None \<Rightarrow> Inl Tenant_malformed_cursor
      | Some raw \<Rightarrow>
     (case Option.bind (Unmarshal raw) (\<lambda>v. decode_struct False tenant_cursor_fields v
             \<lparr>tc_CreatedAt = [], tc_ID = [], tc_Order = []\<rparr>) of
        None \<Rightarrow> Inl Tenant_malformed_cursor
      | Some c \<Rightarrow> Inr c))"

definition tenantColumns :: string where
  "tenantColumns = ''id::text, name, slug, plan, status, max_services, version, created_at, updated_at''"

text \<open>\<^verbatim>\<open>join\<close>, the loop that puts a separator before every part but the first.\<close>

definition Tenant_join :: "string list \<Rightarrow> string \<Rightarrow> string" where
  "Tenant_join parts sep =
     foldl (\<lambda>out (i, p). (if i > 0 then out @ sep else out) @ p) [] (enumerate 0 parts)"

text \<open>The query text and its arguments, condition by condition.\<close>

definition tenant_list_query ::
    "tenant_filter \<Rightarrow> tenant_cursor option \<Rightarrow> string \<times> string list" where
  "tenant_list_query f cur =
     (let add = (\<lambda>clause v (conds, args). (conds @ [clause @ format_nat (length args + 1)], args @ [v]));
          (conds, args) = (case tf_Status f of None \<Rightarrow> ([], [])
                           | Some s \<Rightarrow> add ''status = $'' (Status_string s) ([], []));
          (conds, args) = (case tf_Plan f of None \<Rightarrow> (conds, args)
                           | Some p \<Rightarrow> add ''plan = $'' (Plan_string p) (conds, args));
          (cmp, dir) = (if tf_Order f = Tenant_OrderDesc then (''<'', ''DESC'') else (''>'', ''ASC''));
          (conds, args) = (case cur of None \<Rightarrow> (conds, args)
                           | Some c \<Rightarrow> (let args = args @ [tc_CreatedAt c, tc_ID c]
                               in (conds @ [''(created_at, id) '' @ cmp @ '' ($'' @ format_nat (length args - 1) @
                                     ''::timestamptz, $'' @ format_nat (length args) @ ''::uuid)''], args)));
          query = ''SELECT '' @ tenantColumns @ '' FROM tenants'';
          query = (if length conds > 0 then query @ '' WHERE '' @ Tenant_join conds '' AND '' else query)
      in (query @ '' ORDER BY created_at '' @ dir @ '', id '' @ dir @ '' LIMIT '' @
            FormatInt (int64 (tf_Limit f + 1)), args))"

text \<open>What the database answers to it.\<close>

definition tenants_by :: "bool \<Rightarrow> time \<times> uuid \<Rightarrow> time \<times> uuid \<Rightarrow> bool" where
  "tenants_by desc a b = (if desc then pair_before (<) b a else pair_before (<) a b)"

definition tenant_matches :: "tenant_filter \<Rightarrow> tenant_row \<Rightarrow> bool" where
  "tenant_matches f r \<longleftrightarrow>
     (case tf_Status f of None \<Rightarrow> True | Some s \<Rightarrow> tn_status r = Status_string s) \<and>
     (case tf_Plan f of None \<Rightarrow> True | Some p \<Rightarrow> tn_plan r = Plan_string p)"

definition select_tenants ::
    "env \<Rightarrow> tenant_filter \<Rightarrow> tenant_cursor option \<Rightarrow> db \<Rightarrow> (go_error + tenant_row list) \<times> db" where
  "select_tenants E f cur d =
     (let n = int64 (tf_Limit f + 1);
          page = (\<lambda>after. select_page (tenants_by (tf_Order f = Tenant_OrderDesc))
                    (\<lambda>r. (tn_created_at r, tn_id r)) (tenant_matches f) after (nat n) (tenants d))
      in if n < 0 then (Inl (PgError ''2201W'' ''LIMIT must not be negative''), d)
         else case cur of
           None \<Rightarrow> (Inr (page None), d)
         | Some c \<Rightarrow>
             (if \<not> (pg_text (tc_CreatedAt c) \<and> pg_text (tc_ID c)) then (Inl pg_encoding_error, d)
              else case pg_timestamptz_in (env_pg E) (tc_CreatedAt c) of
                None \<Rightarrow> (Inl (PgError ''22007'' ''invalid input syntax for type timestamp with time zone''), d)
              | Some t \<Rightarrow>
                  (case uuid_Parse (env_uuid E) (tc_ID c) of
                     None \<Rightarrow> (Inl pg_uuid_error, d)
                   | Some i \<Rightarrow> (Inr (page (Some (t, i))), d))))"

fun scan_tenants :: "uuid_lib \<Rightarrow> tenant_row list \<Rightarrow> go_error + tenant list" where
  "scan_tenants U [] = Inr []"
| "scan_tenants U (r # rs) =
     (case scanTenant U (Some r) of
        Inl err \<Rightarrow> Inl err
      | Inr t \<Rightarrow> (case scan_tenants U rs of Inl err \<Rightarrow> Inl err | Inr ts \<Rightarrow> Inr (t # ts)))"

text \<open>
  \<^verbatim>\<open>Repository.List\<close>; the fault of its second statement is \<^verbatim>\<open>rows.Err()\<close>. A limit below 1 makes
  the index of the last row negative, a run-time panic.
\<close>

definition Tenant_List :: "env \<Rightarrow> tenant_filter \<Rightarrow> (tenant list \<times> string) tx" where
  "Tenant_List E f w =
     (case (if tf_Cursor f = [] then Inr None
            else map_sum id Some (Tenant_decodeCursor (tf_Cursor f) (tf_Order f))) of
        Inl err \<Rightarrow> (Inl err, w)
      | Inr cur \<Rightarrow>
     (case sql E (select_tenants E f cur) w of
        (Inl err, w1) \<Rightarrow> (Inl (Errorf ''list tenants'' err), w1)
      | (Inr rows, w1) \<Rightarrow>
     (case scan_tenants (env_uuid E) rows of
        Inl err \<Rightarrow> (Inl err, w1)
      | Inr ts \<Rightarrow>
     (case sql E (\<lambda>d. (Inr (), d)) w1 of
        (Inl err, w2) \<Rightarrow> (Inl err, w2)
      | (Inr _, w2) \<Rightarrow>
          (if int (length ts) > tf_Limit f
           then if tf_Limit f < 1 then (Inl (OtherError ''runtime error: index out of range''), w2)
                else let last = ts ! nat (tf_Limit f - 1)
                     in (Inr (take (nat (tf_Limit f)) ts, Tenant_encodeCursor (env_uuid E) last), w2)
           else (Inr (ts, []), w2))))))"

end
