(* ===== verification/Tenant_Commands.thy ===== *)
theory Tenant_Commands
  imports Tenant_Repository
begin

text \<open>
  \<^verbatim>\<open>internal/modules/tenant/app\<close>: the commands (\<open>commands.go\<close>), each one transaction, and the
  queries (\<open>queries.go\<close>). \<open>now\<close> is what the command's clock returns.
\<close>

section \<open>Commands\<close>

record create_tenant_input =
  ct_Name :: string
  ct_Slug :: string
  ct_Plan :: string
  ct_MaxServices :: int

definition create_work :: "env \<Rightarrow> slug \<Rightarrow> tenant \<Rightarrow> tenant tx" where
  "create_work E slg t w =
     (case Tenant_FindBySlug E slg w of
        (Inr _, w1) \<Rightarrow> (Inl ErrSlugConflict, w1)
      | (Inl err, w1) \<Rightarrow>
          (if err \<noteq> ErrTenantNotFound then (Inl err, w1)
           else case Tenant_Insert E t w1 of
                  (Inl err, w2) \<Rightarrow> (Inl err, w2)
                | (Inr _, w2) \<Rightarrow>
                    (case Tenant_PullEvents t of (events, t') \<Rightarrow>
                       (case Tenant_Outbox_Append E events w2 of
                          (Inl err, w3) \<Rightarrow> (Inl err, w3)
                        | (Inr _, w3) \<Rightarrow> (Inr t', w3)))))"

definition CreateTenant :: "env \<Rightarrow> time \<Rightarrow> create_tenant_input \<Rightarrow> tenant tx" where
  "CreateTenant E now inp w =
     (case NewTenantName (ct_Name inp) of
        Inl err \<Rightarrow> (Inl err, w)
      | Inr name \<Rightarrow>
     (case NewSlug (ct_Slug inp) of
        Inl err \<Rightarrow> (Inl err, w)
      | Inr slg \<Rightarrow>
     (case ParsePlan (ct_Plan inp) of
        Inl err \<Rightarrow> (Inl err, w)
      | Inr pln \<Rightarrow>
     (case NewQuota (ct_MaxServices inp) of
        Inl err \<Rightarrow> (Inl err, w)
      | Inr q \<Rightarrow>
     (case id_New E w of (i, w1) \<Rightarrow>
        (let t = Tenant_Create (env_uuid E) (TenantID i) name slg pln q now
         in Execute E (create_work E slg t) w1))))))"

definition Tenant_expectedVersionOr :: "int \<Rightarrow> int \<Rightarrow> int" where
  "Tenant_expectedVersionOr provided current = (if provided > 0 then provided else current)"

definition tenant_mutate_work ::
    "env \<Rightarrow> tenant_id \<Rightarrow> int \<Rightarrow> (tenant \<Rightarrow> go_error + tenant) \<Rightarrow> tenant tx" where
  "tenant_mutate_work E i expectedVersion app w =
     (case Tenant_FindByID E i w of
        (Inl err, w1) \<Rightarrow> (Inl err, w1)
      | (Inr t, w1) \<Rightarrow>
          (let current = ten_version t
           in case app t of
                Inl err \<Rightarrow> (Inl err, w1)
              | Inr t \<Rightarrow>
                  (case Tenant_Update E t (Tenant_expectedVersionOr expectedVersion current) w1 of
                     (Inl err, w2) \<Rightarrow> (Inl err, w2)
                   | (Inr _, w2) \<Rightarrow>
                       (case Tenant_PullEvents t of (events, t') \<Rightarrow>
                          (case Tenant_Outbox_Append E events w2 of
                             (Inl err, w3) \<Rightarrow> (Inl err, w3)
                           | (Inr _, w3) \<Rightarrow> (Inr t', w3))))))"

definition Tenant_mutate ::
    "env \<Rightarrow> tenant_id \<Rightarrow> int \<Rightarrow> (tenant \<Rightarrow> go_error + tenant) \<Rightarrow> tenant tx" where
  "Tenant_mutate E i expectedVersion app w = Execute E (tenant_mutate_work E i expectedVersion app) w"

record change_status_input =
  ch_TenantID :: string
  ch_Status :: string
  ch_ExpectedVersion :: int

definition ChangeStatus :: "env \<Rightarrow> time \<Rightarrow> change_status_input \<Rightarrow> tenant tx" where
  "ChangeStatus E now inp w =
     (case Tenant_IDFromString (env_uuid E) (ch_TenantID inp) of
        Inl err \<Rightarrow> (Inl err, w)
      | Inr i \<Rightarrow>
     (case ParseStatus (ch_Status inp) of
        Inl err \<Rightarrow> (Inl err, w)
      | Inr s \<Rightarrow>
          Tenant_mutate E i (ch_ExpectedVersion inp) (Tenant_ChangeStatus (env_uuid E) s now) w))"

record update_quota_input =
  uq_TenantID :: string
  uq_MaxServices :: int
  uq_ExpectedVersion :: int

definition UpdateQuota :: "env \<Rightarrow> time \<Rightarrow> update_quota_input \<Rightarrow> tenant tx" where
  "UpdateQuota E now inp w =
     (case Tenant_IDFromString (env_uuid E) (uq_TenantID inp) of
        Inl err \<Rightarrow> (Inl err, w)
      | Inr i \<Rightarrow>
     (case NewQuota (uq_MaxServices inp) of
        Inl err \<Rightarrow> (Inl err, w)
      | Inr q \<Rightarrow>
          Tenant_mutate E i (uq_ExpectedVersion inp) (Tenant_UpdateQuota (env_uuid E) q now) w))"

section \<open>Queries\<close>

definition GetTenant :: "env \<Rightarrow> string \<Rightarrow> tenant tx" where
  "GetTenant E tenantID w =
     (case Tenant_IDFromString (env_uuid E) tenantID of
        Inl err \<Rightarrow> (Inl err, w)
      | Inr i \<Rightarrow> Tenant_FindByID E i w)"

definition tenant_list_defaults :: "tenant_filter \<Rightarrow> tenant_filter" where
  "tenant_list_defaults f =
     (let f1 = (if tf_Limit f \<le> 0 \<or> tf_Limit f > 200 then f\<lparr>tf_Limit := 50\<rparr> else f)
      in if tf_Order f1 = [] then f1\<lparr>tf_Order := Tenant_OrderDesc\<rparr> else f1)"

definition ListTenants :: "env \<Rightarrow> tenant_filter \<Rightarrow> (tenant list \<times> string) tx" where
  "ListTenants E f = Tenant_List E (tenant_list_defaults f)"

end
