(* ===== verification/Tenant_Store.thy ===== *)
theory Tenant_Store
  imports Tenant_Commands
begin

text \<open>
  What the tenant transactions do to the tables, and the invariant \<open>tenants_ok\<close> of the stored
  tenants: unique identifiers and slugs, and rows that the scanner accepts.
\<close>

section \<open>Rows and the invariant\<close>

definition tenant_row_ok :: "tenant_row \<Rightarrow> bool" where
  "tenant_row_ok r \<longleftrightarrow>
     tenant_name_ok (TenantName (tn_name r)) \<and> slug_ok (Slug (tn_slug r)) \<and>
     (\<exists>p. tn_plan r = Plan_string p) \<and> (\<exists>s. tn_status r = Status_string s) \<and>
     quota_ok (Quota (tn_max_services r)) \<and> in_int64 (tn_version r) \<and>
     timestamptz (tn_created_at r) = tn_created_at r \<and> timestamptz (tn_updated_at r) = tn_updated_at r"

lemma tenant_row_of_ok: "tenant_ok t \<Longrightarrow> tenant_row_ok (tenant_row_of t)"
  by (auto simp: tenant_ok_def tenant_row_ok_def tenant_row_of_def)

lemma scanTenant_ok:
  assumes "uuid_laws U" and "tenant_row_ok r"
  obtains t where "scanTenant U (Some r) = Inr t" and "tenant_ok t" and "tenant_row_of t = r"
    and "ten_events t = []" and "ten_createdAt t = tn_created_at r"
proof -
  from assms(2) obtain p s where ps: "tn_plan r = Plan_string p" "tn_status r = Status_string s"
    by (auto simp: tenant_row_ok_def)
  let ?t = "Tenant_Reconstitute (TenantID (tn_id r)) (TenantName (tn_name r)) (Slug (tn_slug r)) p s
    (Quota (tn_max_services r)) (tn_version r) (tn_created_at r) (tn_updated_at r)"
  have ok: "tenant_name_ok (TenantName (tn_name r))" "slug_ok (Slug (tn_slug r))"
    "quota_ok (Quota (tn_max_services r))"
    using assms(2) by (simp_all add: tenant_row_ok_def)
  have "scanTenant U (Some r) = Inr ?t"
    using assms(1) ps NewTenantName_again [OF ok(1)] NewSlug_again [OF ok(2)] NewQuota_again [OF ok(3)]
    by (simp add: scanTenant_def Tenant_IDFromString_def)
  moreover have "tenant_ok ?t"
    using assms(2) by (simp add: tenant_ok_def tenant_row_ok_def Tenant_Reconstitute_def)
  moreover have "tenant_row_of ?t = r"
    using assms(2) ps by (cases r) (simp add: tenant_row_of_def Tenant_Reconstitute_def tenant_row_ok_def)
  ultimately show ?thesis by (rule that) (simp_all add: Tenant_Reconstitute_def)
qed

definition tenants_ok :: "db \<Rightarrow> bool" where
  "tenants_ok d \<longleftrightarrow> distinct (map tn_id (tenants d)) \<and> distinct (map tn_slug (tenants d)) \<and>
     (\<forall>r \<in> set (tenants d). tenant_row_ok r)"

lemma tenants_okD:
  assumes "tenants_ok d"
  shows "distinct (map tn_id (tenants d))" and "r \<in> set (tenants d) \<Longrightarrow> tenant_row_ok r"
    and "r \<in> set (tenants d) \<Longrightarrow> q \<in> set (tenants d) \<Longrightarrow> tn_id r = tn_id q \<Longrightarrow> r = q"
  using assms by (simp_all add: tenants_ok_def distinct_map inj_on_def)

lemma tenants_ok_empty [simp]: "tenants_ok empty_db"
  by (simp add: tenants_ok_def empty_db_def)

lemma tenants_ok_frame: "tenants d' = tenants d \<Longrightarrow> tenants_ok d' = tenants_ok d"
  by (simp add: tenants_ok_def)

section \<open>What a successful repository method read or wrote\<close>

lemma Tenant_FindByID_frame:
  assumes "Tenant_FindByID E i w = (r, w')"
  shows "w_db w' = w_db w" and "w_ids w' = w_ids w" and "w_txnow w' = w_txnow w"
  using assms by (auto simp: Tenant_FindByID_def sql_def Let_def split: option.splits)

lemma Tenant_FindBySlug_frame:
  assumes "Tenant_FindBySlug E i w = (r, w')"
  shows "w_db w' = w_db w" and "w_ids w' = w_ids w" and "w_txnow w' = w_txnow w"
  using assms by (auto simp: Tenant_FindBySlug_def sql_def Let_def split: option.splits)

lemma Tenant_FindByID_Inr:
  assumes "Tenant_FindByID E i w = (Inr t, w')" and "tenants_ok (w_db w)" and "uuid_laws (env_uuid E)"
  shows "tenant_row_of t \<in> set (tenants (w_db w))" and "tenant_ok t" and "ten_events t = []"
    and "ten_id t = i"
proof -
  from assms(1) obtain r where r: "find (\<lambda>r. tn_id r = TenantID_UUID i) (tenants (w_db w)) = Some r"
    and sc: "scanTenant (env_uuid E) (Some r) = Inr t"
    by (auto simp: Tenant_FindByID_def scanTenant_def dest!: sql_Inr(1)
        split: prod.splits sum.splits option.splits)
  from r have rin: "r \<in> set (tenants (w_db w))" and id: "tn_id r = TenantID_UUID i"
    by (auto dest: find_SomeD)
  with assms(2) have "tenant_row_ok r" by (simp add: tenants_ok_def)
  with assms(3) sc obtain "tenant_ok t" "tenant_row_of t = r" "ten_events t = []"
    by (metis scanTenant_ok sum.inject(2))
  moreover from this id have "ten_id t = i"
    by (metis tenant_row.select_convs(1) tenant_row_of_def tenant_id.expand)
  ultimately show "tenant_row_of t \<in> set (tenants (w_db w))" and "tenant_ok t" and "ten_events t = []"
    and "ten_id t = i" using rin by simp_all
qed

definition new_tenant_row :: "db \<Rightarrow> tenant_row \<Rightarrow> bool" where
  "new_tenant_row d r \<longleftrightarrow> (\<forall>q \<in> set (tenants d). tn_id q \<noteq> tn_id r \<and> tn_slug q \<noteq> tn_slug r)"

lemma Tenant_Insert_Inr:
  assumes "Tenant_Insert E t w = (Inr u, w')"
  shows "w_db w' = (w_db w)\<lparr>tenants := tenants (w_db w) @ [tenant_row_of t]\<rparr>"
    and "new_tenant_row (w_db w) (tenant_row_of t)" and "w_ids w' = w_ids w" and "w_txnow w' = w_txnow w"
proof -
  from assms have 1: "sql E (insert_tenant (tenant_row_of t)) w = (Inr (), w')"
    by (auto simp: Tenant_Insert_def split: prod.splits sum.splits)
  show "w_db w' = (w_db w)\<lparr>tenants := tenants (w_db w) @ [tenant_row_of t]\<rparr>"
    and "new_tenant_row (w_db w) (tenant_row_of t)" and "w_ids w' = w_ids w" and "w_txnow w' = w_txnow w"
    using sql_Inr(1) [OF 1, symmetric] sql_Inr(2-) [OF 1]
    by (auto simp: insert_tenant_def new_tenant_row_def list_ex_iff split: if_splits)
qed

definition tenant_outbox_row :: "env \<Rightarrow> time \<Rightarrow> uuid \<Rightarrow> tenant_event \<Rightarrow> outbox_row" where
  "tenant_outbox_row E now i e =
     \<lparr>ob_id = i, ob_aggregate_id = the (uuid_Parse (env_uuid E) (Tenant_AggregateID e)),
      ob_event_type = Tenant_EventType e, ob_payload = tenant_envelope e,
      ob_occurred_at = timestamptz (Tenant_OccurredAt e), ob_published_at = None,
      ob_created_at = timestamptz now\<rparr>"

definition tenant_outbox_rows :: "env \<Rightarrow> time \<Rightarrow> nat \<Rightarrow> tenant_event list \<Rightarrow> outbox_row list" where
  "tenant_outbox_rows E now k es = map2 (\<lambda>n. tenant_outbox_row E now (env_id E n)) [k..<k + length es] es"

lemma tenant_outbox_rows_simps [simp]:
  "tenant_outbox_rows E now k [] = []"
  "tenant_outbox_rows E now k (e # es) =
     tenant_outbox_row E now (env_id E k) e # tenant_outbox_rows E now (Suc k) es"
  by (simp_all add: tenant_outbox_rows_def upt_rec)

lemma Tenant_Outbox_Append_step:
  assumes "Tenant_Outbox_Append E (e # es) w = (Inr u, w')"
  obtains w2 where "sql E (insert_outbox_event (env_id E (w_ids w)) (uuid_Parse (env_uuid E) (Tenant_AggregateID e))
          (Tenant_EventType e) (tenant_envelope e) (Tenant_OccurredAt e) (w_txnow w))
          (w\<lparr>w_ids := Suc (w_ids w)\<rparr>) = (Inr (), w2)"
    and "Tenant_Outbox_Append E es w2 = (Inr u, w')"
  using assms by (auto simp: id_New_def split: prod.splits sum.splits)

lemma Tenant_Outbox_Append_Inr:
  assumes "Tenant_Outbox_Append E es w = (Inr u, w')"
  shows "w_db w' = (w_db w)\<lparr>outbox_events := outbox_events (w_db w) @
           tenant_outbox_rows E (w_txnow w) (w_ids w) es\<rparr>"
  using assms
proof (induction es arbitrary: w)
  case (Cons e es)
  from Cons.prems show ?case
  proof (rule Tenant_Outbox_Append_step)
    fix w2
    assume "sql E (insert_outbox_event (env_id E (w_ids w)) (uuid_Parse (env_uuid E) (Tenant_AggregateID e))
          (Tenant_EventType e) (tenant_envelope e) (Tenant_OccurredAt e) (w_txnow w))
          (w\<lparr>w_ids := Suc (w_ids w)\<rparr>) = (Inr (), w2)"
      and 2: "Tenant_Outbox_Append E es w2 = (Inr u, w')"
    from sql_Inr [OF this(1)] Cons.IH [OF 2] show ?case
      by (auto elim!: insert_outbox_event_Inr simp: tenant_outbox_row_def)
  qed
qed simp

lemma Tenant_Outbox_Append_ids:
  assumes "Tenant_Outbox_Append E es w = (Inr u, w')" and "distinct (map ob_id (outbox_events (w_db w)))"
  shows "distinct (map ob_id (outbox_events (w_db w')))"
  using assms
proof (induction es arbitrary: w)
  case (Cons e es)
  from Cons.prems(1) show ?case
  proof (rule Tenant_Outbox_Append_step)
    fix w2
    assume "sql E (insert_outbox_event (env_id E (w_ids w)) (uuid_Parse (env_uuid E) (Tenant_AggregateID e))
          (Tenant_EventType e) (tenant_envelope e) (Tenant_OccurredAt e) (w_txnow w))
          (w\<lparr>w_ids := Suc (w_ids w)\<rparr>) = (Inr (), w2)"
      and 2: "Tenant_Outbox_Append E es w2 = (Inr u, w')"
    from sql_Inr [OF this(1)] Cons.prems(2) have "distinct (map ob_id (outbox_events (w_db w2)))"
      by (auto elim!: insert_outbox_event_Inr)
    with 2 show ?case by (rule Cons.IH)
  qed
qed simp

lemma Tenant_Update_Inr:
  assumes "Tenant_Update E t v w = (Inr u, w')"
  shows "w_db w' = (w_db w)\<lparr>tenants := map (\<lambda>q. if tn_id q = TenantID_UUID (ten_id t) \<and> tn_version q = v
               then set_tenant_columns (tenant_row_of t) q else q) (tenants (w_db w))\<rparr>"
    and "\<exists>q \<in> set (tenants (w_db w)). tn_id q = TenantID_UUID (ten_id t) \<and> tn_version q = v"
    and "w_txnow w' = w_txnow w" and "w_ids w' = w_ids w"
proof -
  from assms obtain n where 1: "sql E (update_tenant (tenant_row_of t) v) w = (Inr n, w')" and n: "n \<noteq> 0"
    by (auto simp: Tenant_Update_def split: prod.splits sum.splits if_splits)
  show "w_db w' = (w_db w)\<lparr>tenants := map (\<lambda>q. if tn_id q = TenantID_UUID (ten_id t) \<and> tn_version q = v
               then set_tenant_columns (tenant_row_of t) q else q) (tenants (w_db w))\<rparr>"
    and "\<exists>q \<in> set (tenants (w_db w)). tn_id q = TenantID_UUID (ten_id t) \<and> tn_version q = v"
    and "w_txnow w' = w_txnow w" and "w_ids w' = w_ids w"
    using sql_Inr(1) [OF 1, symmetric] sql_Inr(2-) [OF 1] n
    by (auto simp: update_tenant_def Let_def tenant_row_of_def filter_empty_conv split: if_splits)
qed

section \<open>Units of work\<close>

lemma create_work_Inr:
  assumes "create_work E slg t w = (Inr a, w')"
  shows "w_db w' = (w_db w)\<lparr>tenants := tenants (w_db w) @ [tenant_row_of t],
           outbox_events := outbox_events (w_db w) @ tenant_outbox_rows E (w_txnow w) (w_ids w) (ten_events t)\<rparr>"
    and "new_tenant_row (w_db w) (tenant_row_of t)" and "a = t\<lparr>ten_events := []\<rparr>"
    and "distinct (map ob_id (outbox_events (w_db w))) \<Longrightarrow> distinct (map ob_id (outbox_events (w_db w')))"
proof -
  from assms obtain e w1 w2 where f: "Tenant_FindBySlug E slg w = (Inl e, w1)"
    and i: "Tenant_Insert E t w1 = (Inr (), w2)"
    and o: "Tenant_Outbox_Append E (ten_events t) w2 = (Inr (), w')" and "a = t\<lparr>ten_events := []\<rparr>"
    by (auto simp: create_work_def Tenant_PullEvents_def split: prod.splits sum.splits if_splits)
  note frame = Tenant_FindBySlug_frame [OF f]
  show "w_db w' = (w_db w)\<lparr>tenants := tenants (w_db w) @ [tenant_row_of t],
           outbox_events := outbox_events (w_db w) @ tenant_outbox_rows E (w_txnow w) (w_ids w) (ten_events t)\<rparr>"
    and "new_tenant_row (w_db w) (tenant_row_of t)"
    using Tenant_Insert_Inr [OF i] Tenant_Outbox_Append_Inr [OF o] frame by simp_all
  show "a = t\<lparr>ten_events := []\<rparr>" by fact
  show "distinct (map ob_id (outbox_events (w_db w))) \<Longrightarrow> distinct (map ob_id (outbox_events (w_db w')))"
    using Tenant_Outbox_Append_ids [OF o] Tenant_Insert_Inr(1) [OF i] frame by simp
qed

definition tenant_cas_db :: "tenant \<Rightarrow> int \<Rightarrow> outbox_row list \<Rightarrow> db \<Rightarrow> db" where
  "tenant_cas_db t v new d = d\<lparr>
     tenants := map (\<lambda>q. if tn_id q = TenantID_UUID (ten_id t) \<and> tn_version q = v
         then set_tenant_columns (tenant_row_of t) q else q) (tenants d),
     outbox_events := outbox_events d @ new\<rparr>"

lemma tenant_mutate_work_Inr:
  assumes "tenant_mutate_work E i expected app w = (Inr a, w')"
  obtains s w1 t where "Tenant_FindByID E i w = (Inr s, w1)" and "app s = Inr t"
    and "a = t\<lparr>ten_events := []\<rparr>"
    and "w_db w' = tenant_cas_db t (Tenant_expectedVersionOr expected (ten_version s))
           (tenant_outbox_rows E (w_txnow w) (w_ids w) (ten_events t)) (w_db w)"
    and "\<exists>q \<in> set (tenants (w_db w)). tn_id q = TenantID_UUID (ten_id t) \<and>
           tn_version q = Tenant_expectedVersionOr expected (ten_version s)"
    and "distinct (map ob_id (outbox_events (w_db w))) \<Longrightarrow> distinct (map ob_id (outbox_events (w_db w')))"
proof -
  from assms obtain s w1 t w2 where f: "Tenant_FindByID E i w = (Inr s, w1)" and app: "app s = Inr t"
    and u: "Tenant_Update E t (Tenant_expectedVersionOr expected (ten_version s)) w1 = (Inr (), w2)"
    and o: "Tenant_Outbox_Append E (ten_events t) w2 = (Inr (), w')" and a: "a = t\<lparr>ten_events := []\<rparr>"
    by (auto simp: tenant_mutate_work_def Tenant_PullEvents_def Let_def split: prod.splits sum.splits)
  show thesis
    using that [OF f app a] Tenant_Update_Inr [OF u] Tenant_Outbox_Append_Inr [OF o]
      Tenant_Outbox_Append_ids [OF o] Tenant_FindByID_frame [OF f]
    by (simp add: tenant_cas_db_def)
qed

section \<open>Commands\<close>

datatype tenant_request =
    CreateRequest create_tenant_input
  | StatusRequest change_status_input
  | QuotaRequest update_quota_input

primrec tenant_command :: "env \<Rightarrow> time \<Rightarrow> tenant_request \<Rightarrow> tenant tx" where
  "tenant_command E now (CreateRequest inp) = CreateTenant E now inp"
| "tenant_command E now (StatusRequest inp) = ChangeStatus E now inp"
| "tenant_command E now (QuotaRequest inp) = UpdateQuota E now inp"

fun tenant_history :: "(env \<times> time \<times> tenant_request) list \<Rightarrow> world \<Rightarrow> world" where
  "tenant_history [] w = w"
| "tenant_history ((E, now, q) # qs) w = tenant_history qs (snd (tenant_command E now q w))"

lemma tenant_command_cases:
  assumes "tenant_command E now q w = (r, w')"
  obtains (refused) e where "r = Inl e" and "w_db w' = w_db w"
  | (create) t i name slg pln qt w1 where "tenant_ok t" and "t = Tenant_Create (env_uuid E) i name slg pln qt now"
      and "w_db w1 = w_db w" and "Execute E (create_work E slg t) w1 = (r, w')"
  | (mutation) i v x where "tenant_op_ok x"
      and "Execute E (tenant_mutate_work E i v (\<lambda>t. tenant_step (env_uuid E) t x)) w = (r, w')"
proof (cases q)
  case (CreateRequest inp)
  show ?thesis
  proof (cases "\<exists>name slg pln qt. NewTenantName (ct_Name inp) = Inr name \<and> NewSlug (ct_Slug inp) = Inr slg \<and>
      ParsePlan (ct_Plan inp) = Inr pln \<and> NewQuota (ct_MaxServices inp) = Inr qt")
    case False
    with CreateRequest assms have "(\<exists>e. r = Inl e) \<and> w_db w' = w_db w"
      by (auto simp: CreateTenant_def split: sum.splits)
    then show ?thesis using refused by blast
  next
    case True
    then obtain name slg pln qt where v: "NewTenantName (ct_Name inp) = Inr name" "NewSlug (ct_Slug inp) = Inr slg"
      "ParsePlan (ct_Plan inp) = Inr pln" "NewQuota (ct_MaxServices inp) = Inr qt" by blast
    let ?t = "Tenant_Create (env_uuid E) (TenantID (env_id E (w_ids w))) name slg pln qt now"
    have "tenant_ok ?t"
      using v by (auto intro!: Tenant_Create_ok simp: NewQuota_ok dest: NewTenantName_ok NewSlug_ok)
    moreover have "Execute E (create_work E slg ?t) (w\<lparr>w_ids := Suc (w_ids w)\<rparr>) = (r, w')"
      using v CreateRequest assms by (simp add: CreateTenant_def id_New_def)
    ultimately show ?thesis by (intro create) auto
  qed
next
  case (StatusRequest inp)
  with assms refused mutation [of "OpChangeStatus s now" for s] show ?thesis
    by (auto simp: ChangeStatus_def Tenant_mutate_def split: sum.splits)
next
  case (QuotaRequest inp)
  with assms refused mutation [of "OpUpdateQuota qt now" for qt] show ?thesis
    by (auto simp: UpdateQuota_def Tenant_mutate_def NewQuota_ok split: sum.splits)
qed

text \<open>What a command does to the tables.\<close>

lemma tenant_command_effect:
  assumes "tenant_command E now q w = (r, w')" and ok: "tenants_ok (w_db w)" and U: "uuid_laws (env_uuid E)"
  obtains (unchanged) e where "r = Inl e" and "w_db w' = w_db w"
  | (created) t i name slg pln qt k n where "tenant_ok t"
      and "t = Tenant_Create (env_uuid E) i name slg pln qt now"
      and "new_tenant_row (w_db w) (tenant_row_of t)"
      and "w_db w' = (w_db w)\<lparr>tenants := tenants (w_db w) @ [tenant_row_of t],
             outbox_events := outbox_events (w_db w) @ tenant_outbox_rows E n k (ten_events t)\<rparr>"
      and "r = Inr (t\<lparr>ten_events := []\<rparr>) \<or> (\<exists>e. r = Inl (Errorf ''commit tx'' e))"
  | (changed) s x t k n where "tenant_op_ok x" and "tenant_step (env_uuid E) s x = Inr t"
      and "tenant_ok s" and "ten_events s = []" and "tenant_row_of s \<in> set (tenants (w_db w))"
      and "w_db w' = tenant_cas_db t (ten_version s) (tenant_outbox_rows E n k (ten_events t)) (w_db w)"
      and "r = Inr (t\<lparr>ten_events := []\<rparr>) \<or> (\<exists>e. r = Inl (Errorf ''commit tx'' e))"
  using assms(1)
proof (cases rule: tenant_command_cases)
  case (refused e)
  then show ?thesis by (rule that(1))
next
  case (create t i name slg pln qt w0)
  from create(4) show ?thesis
  proof (cases rule: Execute_cases)
    case (unchanged e)
    with create(3) show ?thesis by (intro that(1)) simp_all
  next
    case (applied w1 a w2)
    with create(3) create_work_Inr [OF applied(3)] show ?thesis
      by (intro that(2) [OF create(1,2)]) simp_all
  qed
next
  case (mutation i v x)
  from mutation(2) show ?thesis
  proof (cases rule: Execute_cases)
    case (unchanged e)
    then show ?thesis by (rule that(1))
  next
    case (applied w1 a w2)
    from applied(3) obtain s w0 t where f: "Tenant_FindByID E i w1 = (Inr s, w0)"
      and x: "tenant_step (env_uuid E) s x = Inr t" and a: "a = t\<lparr>ten_events := []\<rparr>"
      and d: "w_db w2 = tenant_cas_db t (Tenant_expectedVersionOr v (ten_version s))
             (tenant_outbox_rows E (w_txnow w1) (w_ids w1) (ten_events t)) (w_db w1)"
      and "\<exists>q \<in> set (tenants (w_db w1)). tn_id q = TenantID_UUID (ten_id t) \<and>
             tn_version q = Tenant_expectedVersionOr v (ten_version s)"
      by (rule tenant_mutate_work_Inr)
    then obtain q where q: "q \<in> set (tenants (w_db w))" "tn_id q = TenantID_UUID (ten_id t)"
        "tn_version q = Tenant_expectedVersionOr v (ten_version s)" using applied(1) by auto
    have ok1: "tenants_ok (w_db w1)" using ok applied(1) by simp
    note s = Tenant_FindByID_Inr [OF f ok1 U]
    have sin: "tenant_row_of s \<in> set (tenants (w_db w))" using s(1) applied(1) by simp
    have "q = tenant_row_of s"
      using tenants_okD(3) [OF ok q(1) sin] q(2) tenant_step_frame(1) [OF x] by (simp add: tenant_row_of_def)
    with q have "Tenant_expectedVersionOr v (ten_version s) = ten_version s" by (simp add: tenant_row_of_def)
    with d applied show ?thesis by (intro that(3) [OF mutation(1) x s(2,3) sin]) (simp_all add: a)
  qed
qed

lemma tenant_cas_tenants:
  assumes ok: "tenants_ok d" and s: "tenant_row_of s \<in> set (tenants d)" and x: "tenant_step U s x = Inr t"
  shows "tenants (tenant_cas_db t (ten_version s) new d) =
    map (\<lambda>q. if tn_id q = tn_id (tenant_row_of s) then tenant_row_of t else q) (tenants d)"
proof -
  have "q = tenant_row_of s" if "q \<in> set (tenants d)" "tn_id q = tn_id (tenant_row_of s)" for q
    using tenants_okD(3) [OF ok that(1) s that(2)] .
  moreover have "set_tenant_columns (tenant_row_of t) (tenant_row_of s) = tenant_row_of t"
    using tenant_step_frame [OF x] by (simp add: set_tenant_columns_def tenant_row_of_def)
  moreover have "tn_id (tenant_row_of s) = TenantID_UUID (ten_id t)" "tn_version (tenant_row_of s) = ten_version s"
    using tenant_step_frame [OF x] by (simp_all add: tenant_row_of_def)
  ultimately show ?thesis by (auto simp: tenant_cas_db_def)
qed

text \<open>A stored tenant keeps its identifier and slug.\<close>

lemma tenant_step_keys:
  "tenant_step U s x = Inr t \<Longrightarrow> tn_id (tenant_row_of t) = tn_id (tenant_row_of s) \<and>
     tn_slug (tenant_row_of t) = tn_slug (tenant_row_of s)"
  using tenant_step_frame [of U s x t] by (simp add: tenant_row_of_def)

lemma tenant_command_ok [forge_inv]:
  assumes "tenant_command E now q w = (r, w')" and ok: "tenants_ok (w_db w)" and "uuid_laws (env_uuid E)"
  shows "tenants_ok (w_db w')"
  using assms
proof (cases rule: tenant_command_effect)
  case (unchanged e)
  with ok show ?thesis by simp
next
  case (created t i name slg pln qt k n)
  then show ?thesis
    using ok tenant_row_of_ok [OF created(1)] by (auto simp: tenants_ok_def new_tenant_row_def)
next
  case (changed s x t k n)
  let ?f = "\<lambda>q. if tn_id q = tn_id (tenant_row_of s) then tenant_row_of t else q"
  have rows: "tenants (w_db w') = map ?f (tenants (w_db w))"
    using tenant_cas_tenants [OF ok changed(5,2)] changed(6) by simp
  have keys: "tn_id (?f q) = tn_id q \<and> tn_slug (?f q) = tn_slug q" if "q \<in> set (tenants (w_db w))" for q
    using tenants_okD(3) [OF ok that changed(5)] tenant_step_keys [OF changed(2)] by auto
  then have "map tn_id (tenants (w_db w')) = map tn_id (tenants (w_db w))"
    "map tn_slug (tenants (w_db w')) = map tn_slug (tenants (w_db w))"
    unfolding rows by simp_all
  moreover have "tenant_row_ok (tenant_row_of t)"
    by (intro tenant_row_of_ok tenant_step_ok [OF changed(3,1,2)])
  then have "\<forall>q \<in> set (tenants (w_db w')). tenant_row_ok q"
    using ok unfolding rows by (auto simp: tenants_ok_def)
  ultimately show ?thesis using ok unfolding tenants_ok_def by simp
qed

lemma tenant_history_ok:
  assumes "tenants_ok (w_db w)" and "\<forall>(E, now, q) \<in> set qs. uuid_laws (env_uuid E)"
  shows "tenants_ok (w_db (tenant_history qs w))"
  using assms
proof (induction qs arbitrary: w)
  case (Cons x qs)
  obtain E now q where x: "x = (E, now, q)" by (cases x)
  obtain r w' where c: "tenant_command E now q w = (r, w')" by fastforce
  have "tenants_ok (w_db w')" using Cons.prems x by (auto intro: tenant_command_ok [OF c])
  then show ?case using Cons x c by simp
qed simp

text \<open>A command other than the one that archives it leaves an archived tenant's row alone.\<close>

lemma tenant_command_archived:
  assumes "tenant_command E now q w = (r, w')" and ok: "tenants_ok (w_db w)" and "uuid_laws (env_uuid E)"
    and rin: "row \<in> set (tenants (w_db w))" and arch: "tn_status row = Status_string StatusArchived"
  shows "row \<in> set (tenants (w_db w'))"
  using assms(1-3)
proof (cases rule: tenant_command_effect)
  case (changed s x t k n)
  have "tenants (w_db w') =
      map (\<lambda>q. if tn_id q = tn_id (tenant_row_of s) then tenant_row_of t else q) (tenants (w_db w))"
    using tenant_cas_tenants [OF ok changed(5,2)] changed(6) by simp
  moreover have "tenant_row_of t = row" if "tn_id row = tn_id (tenant_row_of s)"
  proof -
    have row: "row = tenant_row_of s" using tenants_okD(3) [OF ok rin changed(5) that] .
    with arch have "Status_string (ten_status s) = Status_string StatusArchived"
      by (simp add: tenant_row_of_def)
    then have "ten_status s = StatusArchived" by (simp only: st.text_inj)
    with tenant_step_archived [OF _ changed(2)] row show ?thesis by simp
  qed
  ultimately show ?thesis using rin by force
qed (use rin in auto)

section \<open>Properties\<close>

definition example_create :: create_tenant_input where
  "example_create = \<lparr>ct_Name = ''Acme'', ct_Slug = ''acme'', ct_Plan = ''free'', ct_MaxServices = 5\<rparr>"

definition example_tenant_history :: "(env \<times> time \<times> tenant_request) list" where
  "example_tenant_history =
     [(plain_env, 1000, CreateRequest example_create),
      (plain_env, 2000, StatusRequest \<lparr>ch_TenantID = canonical_String 1, ch_Status = ''archived'', ch_ExpectedVersion = 1\<rparr>)]"

definition example_tenant_row :: tenant_row where
  "example_tenant_row =
     \<lparr>tn_id = 1, tn_name = ''Acme'', tn_slug = ''acme'', tn_plan = ''free'', tn_status = ''archived'',
      tn_max_services = 5, tn_version = 2, tn_created_at = 1000, tn_updated_at = 2000\<rparr>"

definition example_tenant_world :: world where
  "example_tenant_world = empty_world\<lparr>w_db := empty_db\<lparr>tenants := [example_tenant_row]\<rparr>\<rparr>"

lemma example_tenant_row_ok: "tenant_row_ok example_tenant_row"
proof -
  have "tenant_name_ok (TenantName ''Acme'')" "slug_ok (Slug ''acme'')" by code_simp+
  moreover have "''free'' = Plan_string PlanFree" "''archived'' = Status_string StatusArchived" by simp_all
  ultimately show ?thesis
    by (auto simp: tenant_row_ok_def example_tenant_row_def quota_ok_def in_int64_def timestamptz_def
        simp del: Plan_string.simps Status_string.simps)
qed

lemma example_tenant_world_simps [simp]:
  "tenants (w_db example_tenant_world) = [example_tenant_row]"
  "outbox_events (w_db example_tenant_world) = []"
  by (simp_all add: example_tenant_world_def empty_db_def)

lemma example_tenants_ok [simp]: "tenants_ok (w_db example_tenant_world)"
  using example_tenant_row_ok by (simp add: tenants_ok_def)

text \<open>
  Whatever requests the tenant registry serves, and whichever of their statements and
  commits fail, identifiers and slugs stay unique and every stored row is loaded back, never as
  corrupt data, as a valid tenant that is exactly the one the row stores.
\<close>

lemma tenants_always_loadable:
  assumes "w_db w = empty_db" and "\<forall>(E, now, q) \<in> set qs. uuid_laws (env_uuid E)" and "uuid_laws U"
  shows "let rows = tenants (w_db (tenant_history qs w))
    in distinct (map tn_id rows) \<and> distinct (map tn_slug rows) \<and>
       (\<forall>r \<in> set rows. \<exists>t. scanTenant U (Some r) = Inr t \<and> tenant_ok t \<and> tenant_row_of t = r)"
proof -
  have ok: "tenants_ok (w_db (tenant_history qs w))"
    using assms by (intro tenant_history_ok) simp_all
  have "\<exists>t. scanTenant U (Some r) = Inr t \<and> tenant_ok t \<and> tenant_row_of t = r"
    if "r \<in> set (tenants (w_db (tenant_history qs w)))" for r
    using scanTenant_ok [OF assms(3) tenants_okD(2) [OF ok that]] by metis
  with ok show ?thesis by (simp add: Let_def tenants_ok_def)
qed

lemma tenants_always_loadable_witness:
  "let rows = tenants (w_db (tenant_history example_tenant_history empty_world))
   in distinct (map tn_id rows) \<and> distinct (map tn_slug rows) \<and>
      (\<forall>r \<in> set rows. \<exists>t. scanTenant canonical_uuid_lib (Some r) = Inr t \<and> tenant_ok t \<and> tenant_row_of t = r)"
  by (rule tenants_always_loadable) (simp_all add: example_tenant_history_def canonical_uuid_laws)

text \<open>
  C11: An archived tenant is frozen: whatever requests follow, and whatever fails, its row stays
  exactly as it was, its quota and version included.
\<close>

theorem archived_tenant_frozen:
  assumes "tenants_ok (w_db w)" and "\<forall>(E, now, q) \<in> set qs. uuid_laws (env_uuid E)"
    and "row \<in> set (tenants (w_db w))" and "tn_status row = Status_string StatusArchived"
  shows "row \<in> set (tenants (w_db (tenant_history qs w)))"
  using assms
proof (induction qs arbitrary: w)
  case (Cons x qs)
  obtain E now q where x: "x = (E, now, q)" by (cases x)
  obtain r w' where c: "tenant_command E now q w = (r, w')" by fastforce
  have U: "uuid_laws (env_uuid E)" using Cons.prems(2) x by simp
  have "tenants_ok (w_db w')" "row \<in> set (tenants (w_db w'))"
    using tenant_command_ok [OF c Cons.prems(1) U] tenant_command_archived [OF c Cons.prems(1) U Cons.prems(3,4)]
    by simp_all
  then show ?case using Cons.IH [of w'] Cons.prems(2,4) x c by simp
qed simp

theorem archived_tenant_frozen_witness:
  "example_tenant_row \<in> set (tenants (w_db (tenant_history
     [(plain_env, 3000, QuotaRequest \<lparr>uq_TenantID = canonical_String 1, uq_MaxServices = 9, uq_ExpectedVersion = 0\<rparr>)]
     example_tenant_world)))"
  by (rule archived_tenant_frozen) (simp_all, simp add: example_tenant_row_def)

text \<open>
  C12: The quota is validated against a wider range than the column holds: a request with a valid
  name, slug and plan and a quota of \<open>2\<^sup>3\<^sup>1\<close> or more passes every check of the domain,
  is answered with an internal error (status 500, not a validation error) and stores nothing.
\<close>

theorem quota_beyond_column:
  assumes "2 ^ 31 \<le> ct_MaxServices inp" and "NewTenantName (ct_Name inp) = Inr name"
    and "NewSlug (ct_Slug inp) = Inr slg" and "ParsePlan (ct_Plan inp) = Inr pln"
    and "env_fault E = (\<lambda>n. None)" and "Slug_String slg \<notin> tn_slug ` set (tenants (w_db w))"
  shows "\<exists>q e w'. NewQuota (ct_MaxServices inp) = Inr q \<and> CreateTenant E now inp w = (Inl e, w') \<and>
    HTTPStatus e = 500 \<and> w_db w' = w_db w"
proof -
  have q: "NewQuota (ct_MaxServices inp) = Inr (Quota (ct_MaxServices inp))"
    using assms(1) by (simp add: NewQuota_def)
  let ?t = "Tenant_Create (env_uuid E) (TenantID (env_id E (w_ids w))) name slg pln (Quota (ct_MaxServices inp)) now"
  have r: "insert_tenant (tenant_row_of ?t) d = (Inl pg_int4_error, d)" for d
    using assms(1)
    by (simp add: insert_tenant_def tenant_row_of_def Tenant_Create_def Tenant_record_def in_int32_def)
  have f: "find (\<lambda>r. tn_slug r = Slug_String slg) (tenants (w_db w)) = None"
    using assms(6) by (force simp: find_map_None image_iff)
  have "\<exists>w'. CreateTenant E now inp w = (Inl (Errorf ''insert tenant'' pg_int4_error), w') \<and> w_db w' = w_db w"
    using assms(2-5) q r f
    by (simp add: CreateTenant_def id_New_def Execute_def sql_no_fault create_work_def Tenant_FindBySlug_def
        scanTenant_def Tenant_Insert_def Let_def)
      (simp add: isUniqueViolation_def pg_int4_error_def)
  moreover have "HTTPStatus (Errorf ''insert tenant'' pg_int4_error) = 500"
    by (simp add: pg_int4_error_def)
  ultimately show ?thesis using q by blast
qed

theorem quota_beyond_column_witness:
  "\<exists>e w'. CreateTenant plain_env 1000 (example_create\<lparr>ct_MaxServices := 2 ^ 31\<rparr>) empty_world = (Inl e, w') \<and>
     HTTPStatus e = 500 \<and> w_db w' = empty_db"
proof -
  have "NewTenantName ''Acme'' = Inr (TenantName ''Acme'')" "NewSlug ''acme'' = Inr (Slug ''acme'')" by code_simp+
  moreover have "ParsePlan ''free'' = Inr PlanFree" by (simp add: ParsePlan_def)
  ultimately show ?thesis
    using quota_beyond_column [of "example_create\<lparr>ct_MaxServices := 2 ^ 31\<rparr>" "TenantName ''Acme''" "Slug ''acme''"
        PlanFree plain_env empty_world 1000]
    by (auto simp: example_create_def empty_db_def)
qed

end
