(* ===== verification/Tenant_Pages.thy ===== *)
theory Tenant_Pages
  imports Tenant_Store
begin

text \<open>
  Listing the tenants page by page, through the same contracts as the catalog's listing
  (\<open>keyset\<close>, \<open>paged_listing\<close>). Unlike the catalog's, a tenant cursor does not remember the
  order it was made for.
\<close>

section \<open>Cursors\<close>

interpretation tk: keyset "tenants_by desc" for desc
proof -
  have k: "keyset (pair_before (<) :: time \<times> uuid \<Rightarrow> _)"
    by (rule keyset_pair) (unfold_locales; auto)
  show "keyset (tenants_by desc)"
    using k keyset.flip [OF k] by (cases desc) (simp_all add: tenants_by_def [abs_def])
qed

definition tenant_cursor_at :: "uuid_lib \<Rightarrow> tenant_row \<Rightarrow> tenant_cursor" where
  "tenant_cursor_at U r =
     \<lparr>tc_CreatedAt = RFC3339Nano (tn_created_at r), tc_ID = uuid_String U (tn_id r), tc_Order = []\<rparr>"

definition tenant_cursor_text :: "uuid_lib \<Rightarrow> tenant_row \<Rightarrow> string" where
  "tenant_cursor_text U r = EncodeToString (Marshal (tenant_cursor_json (tenant_cursor_at U r)))"

lemma tenant_cursor_nonempty [simp]: "tenant_cursor_text U r \<noteq> []"
  by (simp add: tenant_cursor_text_def tenant_cursor_json_def EncodeToString_nonempty)

lemma tenant_cursor_decodes:
  assumes "uuid_laws U"
  shows "Tenant_decodeCursor (tenant_cursor_text U r) order = Inr (tenant_cursor_at U r)"
proof -
  let ?c = "tenant_cursor_at U r"
  have "decode_struct False tenant_cursor_fields (tenant_cursor_json c)
     \<lparr>tc_CreatedAt = [], tc_ID = [], tc_Order = []\<rparr> = Some c" for c
    by (cases c) (simp add: decode_struct_def tenant_cursor_json_def tenant_cursor_fields_def field_for_def
        string_field_def)
  moreover have "json_ok (tenant_cursor_json ?c)"
    using assms by (simp add: tenant_cursor_json_def tenant_cursor_at_def)
  moreover have "json_depth (tenant_cursor_json ?c) \<le> maxNestingDepth"
    by (simp add: tenant_cursor_json_def maxNestingDepth_def)
  ultimately show ?thesis
    by (simp add: Tenant_decodeCursor_def tenant_cursor_text_def Unmarshal_Marshal)
qed

lemma Tenant_encodeCursor_at:
  assumes "timestamptz (ten_createdAt t) = ten_createdAt t"
  shows "Tenant_encodeCursor U t = tenant_cursor_text U (tenant_row_of t)"
  using assms
  by (simp add: Tenant_encodeCursor_def tenant_cursor_text_def tenant_cursor_at_def tenant_row_of_def
      Tenant_IDString_def)

section \<open>One page\<close>

definition ordered_tenants :: "tenant_filter \<Rightarrow> db \<Rightarrow> tenant_row list" where
  "ordered_tenants f d =
     sort_by (\<lambda>a b. tenants_by (tf_Order f = Tenant_OrderDesc) (tn_created_at a, tn_id a) (tn_created_at b, tn_id b))
       (filter (tenant_matches f) (tenants d))"

lemma set_ordered_tenants [simp]: "set (ordered_tenants f d) = {r \<in> set (tenants d). tenant_matches f r}"
  by (auto simp: ordered_tenants_def)

definition tenant_list_ready :: "env \<Rightarrow> tenant_filter \<Rightarrow> db \<Rightarrow> bool" where
  "tenant_list_ready E f d \<longleftrightarrow>
     tenants_ok d \<and> uuid_laws (env_uuid E) \<and> pg_laws (env_pg E) \<and> env_fault E = (\<lambda>n. None) \<and>
     1 \<le> tf_Limit f \<and> tf_Limit f \<le> 200 \<and> (\<forall>r \<in> set (tenants d). year_ok (tn_created_at r))"

lemma select_tenants_from:
  assumes r: "tenant_list_ready E f d"
    and p: "points_at (tenant_cursor_text (env_uuid E)) (ordered_tenants f d) (tf_Cursor f) suf"
  shows "\<exists>cur. (if tf_Cursor f = [] then Inr None
      else map_sum id Some (Tenant_decodeCursor (tf_Cursor f) (tf_Order f))) = Inr cur \<and>
    select_tenants E f cur d = (Inr (take (nat (tf_Limit f + 1)) suf), d)"
proof -
  have n: "int64 (tf_Limit f + 1) = tf_Limit f + 1"
    using r by (intro int64_id) (simp add: in_int64_def tenant_list_ready_def)
  from p consider (first) "tf_Cursor f = []" "ordered_tenants f d = suf"
    | (after) pre x where "ordered_tenants f d = pre @ x # suf" "tf_Cursor f = tenant_cursor_text (env_uuid E) x"
    by (auto simp: points_at_def)
  then show ?thesis
  proof cases
    case first
    then show ?thesis
      using r n by (simp add: select_tenants_def Let_def ordered_tenants_def select_page_def tenant_list_ready_def)
  next
    case (after pre x)
    let ?key = "\<lambda>r. (tn_created_at r, tn_id r)" and ?n = "nat (tf_Limit f + 1)"
    have "x \<in> set (ordered_tenants f d)" using after(1) by simp
    then have x: "x \<in> set (tenants d)" by simp
    have "distinct (map ?key (tenants d))"
      using r by (auto simp: tenant_list_ready_def tenants_ok_def distinct_map inj_on_def)
    then have "select_page (tenants_by (tf_Order f = Tenant_OrderDesc)) ?key (tenant_matches f) (Some (?key x)) ?n
        (tenants d) = take ?n suf"
      using after(1) unfolding ordered_tenants_def by (rule tk.select_page_after)
    moreover have "pg_timestamptz_in (env_pg E) (RFC3339Nano (tn_created_at x)) = Some (tn_created_at x)"
      using r x tenants_okD(2) by (auto simp: tenant_list_ready_def pg_laws_def tenant_row_ok_def)
    moreover have "pg_text (RFC3339Nano (tn_created_at x))" "pg_text (uuid_String (env_uuid E) (tn_id x))"
      using r by (auto simp: tenant_list_ready_def intro: pg_text_ascii)
    ultimately show ?thesis
      using r n after(2) tenant_cursor_decodes [of "env_uuid E" x "tf_Order f"]
      by (simp add: select_tenants_def Let_def tenant_cursor_at_def tenant_list_ready_def)
  qed
qed

lemma scan_tenants_ok:
  assumes "uuid_laws U" and "\<forall>r \<in> set rows. tenant_row_ok r"
  obtains ts where "scan_tenants U rows = Inr ts" and "map tenant_row_of ts = rows"
    and "\<forall>t \<in> set ts. timestamptz (ten_createdAt t) = ten_createdAt t"
  using assms(2)
proof (induction rows arbitrary: thesis)
  case (Cons r rows)
  from Cons.IH Cons.prems(2) obtain ts where ts: "scan_tenants U rows = Inr ts" "map tenant_row_of ts = rows"
      "\<forall>t \<in> set ts. timestamptz (ten_createdAt t) = ten_createdAt t" by auto
  have r: "tenant_row_ok r" using Cons.prems(2) by simp
  obtain t where t: "scanTenant U (Some r) = Inr t" "tenant_row_of t = r" "ten_createdAt t = tn_created_at r"
    using scanTenant_ok [OF assms(1) r] by metis
  with r have "timestamptz (ten_createdAt t) = ten_createdAt t" by (simp add: tenant_row_ok_def)
  with t ts show ?case by (intro Cons.prems(1) [of "t # ts"]) auto
qed simp

lemma tenant_page:
  assumes r: "tenant_list_ready E f (w_db w)"
    and p: "points_at (tenant_cursor_text (env_uuid E)) (ordered_tenants f (w_db w)) (tf_Cursor f) suf"
  obtains ts w' where "Tenant_List E f w =
      (Inr (ts, if length suf \<le> nat (tf_Limit f) then []
                else tenant_cursor_text (env_uuid E) (suf ! (nat (tf_Limit f) - 1))), w')"
    and "w_db w' = w_db w" and "map tenant_row_of ts = take (nat (tf_Limit f)) suf"
proof -
  let ?L = "nat (tf_Limit f)" and ?U = "env_uuid E"
  obtain cur where cur: "(if tf_Cursor f = [] then Inr None
      else map_sum id Some (Tenant_decodeCursor (tf_Cursor f) (tf_Order f))) = Inr cur"
    and sel: "select_tenants E f cur (w_db w) = (Inr (take (nat (tf_Limit f + 1)) suf), w_db w)"
    using select_tenants_from [OF assms] by blast
  have L: "nat (tf_Limit f + 1) = Suc ?L" "1 \<le> ?L" using r by (auto simp: tenant_list_ready_def)
  have "set suf \<subseteq> set (ordered_tenants f (w_db w))" using p
    by (auto simp: points_at_def simp del: set_ordered_tenants)
  then have "\<forall>x \<in> set (take (Suc ?L) suf). tenant_row_ok x"
    using r tenants_okD(2) by (auto simp: tenant_list_ready_def dest!: in_set_takeD)
  then obtain ts where ts: "scan_tenants ?U (take (Suc ?L) suf) = Inr ts" "map tenant_row_of ts = take (Suc ?L) suf"
      "\<forall>t \<in> set ts. timestamptz (ten_createdAt t) = ten_createdAt t"
    using scan_tenants_ok [of ?U] r by (metis tenant_list_ready_def)
  have len: "length ts = min (Suc ?L) (length suf)" using arg_cong [OF ts(2), of length] by simp
  let ?w' = "w\<lparr>w_stmts := Suc (Suc (w_stmts w)), w_db := w_db w\<rparr>"
  show thesis
  proof (cases "length suf \<le> ?L")
    case True
    with len have "length ts = length suf" by simp
    moreover from this True L(2) have "\<not> tf_Limit f < int (length ts)" by linarith
    ultimately have "Tenant_List E f w = (Inr (ts, []), ?w')"
      using True r cur sel ts(1) L(1) by (simp add: Tenant_List_def sql_no_fault tenant_list_ready_def)
    with True ts(2) show thesis by (intro that [of ts ?w']) simp_all
  next
    case False
    with len have ls: "length ts = Suc ?L" by simp
    then have more: "tf_Limit f < int (length ts)" using L(2) by linarith
    have "Tenant_encodeCursor ?U (ts ! (?L - 1)) = tenant_cursor_text ?U (tenant_row_of (ts ! (?L - 1)))"
      using ts(3) ls L by (simp add: Tenant_encodeCursor_at)
    also have "tenant_row_of (ts ! (?L - 1)) = map tenant_row_of ts ! (?L - 1)"
      using ls by (intro nth_map [symmetric]) simp
    also have "\<dots> = suf ! (?L - 1)"
      unfolding ts(2) using L(2) by (intro nth_take) simp
    finally have "Tenant_List E f w = (Inr (take ?L ts, tenant_cursor_text ?U (suf ! (?L - 1))), ?w')"
      using False r cur sel ts(1) L(1) more
      by (simp add: Tenant_List_def sql_no_fault tenant_list_ready_def nat_diff_distrib)
    moreover have "map tenant_row_of (take ?L ts) = take ?L suf"
      using ts(2) by (simp add: take_map [symmetric])
    ultimately show thesis using False by (intro that [of "take ?L ts" ?w']) simp_all
  qed
qed

section \<open>All pages\<close>

definition tenant_pages :: "nat \<Rightarrow> env \<Rightarrow> tenant_filter \<Rightarrow> world \<Rightarrow> tenant list list option" where
  "tenant_pages n E f w = read_pages n (\<lambda>c. ListTenants E (f\<lparr>tf_Cursor := c\<rparr>)) (tf_Cursor f) w"

lemma tenant_defaults_cursor [simp]:
  "tenant_list_defaults (f\<lparr>tf_Cursor := c\<rparr>) = (tenant_list_defaults f)\<lparr>tf_Cursor := c\<rparr>"
  "tenant_matches (tenant_list_defaults f) = tenant_matches f"
  "tenant_matches (f\<lparr>tf_Cursor := c\<rparr>) = tenant_matches f"
  "ordered_tenants (f\<lparr>tf_Cursor := c\<rparr>) d = ordered_tenants f d"
  "tenant_list_ready E (f\<lparr>tf_Cursor := c\<rparr>) d = tenant_list_ready E f d"
  by (auto simp: tenant_list_defaults_def Let_def tenant_matches_def [abs_def] ordered_tenants_def
      tenant_list_ready_def)

lemma tenant_defaults_range:
  "1 \<le> tf_Limit (tenant_list_defaults f)" "tf_Limit (tenant_list_defaults f) \<le> 200"
  by (auto simp: tenant_list_defaults_def Let_def)

interpretation tp: paged_listing "\<lambda>c. ListTenants E (f\<lparr>tf_Cursor := c\<rparr>)" tenant_row_of
  "tenant_cursor_text (env_uuid E)" "\<lambda>w. ordered_tenants (tenant_list_defaults f) (w_db w)"
  "\<lambda>w. tenant_list_ready E (tenant_list_defaults f) (w_db w)" "nat (tf_Limit (tenant_list_defaults f))" for E f
proof (unfold_locales, goal_cases)
  case 1
  then show ?case using tenant_defaults_range(1) [of f] by simp
next
  case (2 w c suf)
  let ?f = "(tenant_list_defaults f)\<lparr>tf_Cursor := c\<rparr>"
  from 2 obtain ts w' where "Tenant_List E ?f w =
      (Inr (ts, if length suf \<le> nat (tf_Limit ?f) then []
                else tenant_cursor_text (env_uuid E) (suf ! (nat (tf_Limit ?f) - 1))), w')"
    and "w_db w' = w_db w" and "map tenant_row_of ts = take (nat (tf_Limit ?f)) suf"
    using tenant_page [of E ?f w suf] by auto
  with 2(1) show ?case
    by (intro exI [of _ ts] exI [of _ w']) (simp add: ListTenants_def)
qed simp

section \<open>Properties\<close>

text \<open>
  C13: Following the cursors of the tenant listing ends after at most one page per row and
  returns every matching tenant exactly once, newest or oldest first as requested, in pages of
  at most 200.
\<close>

theorem tenant_pages_complete:
  assumes "tenants_ok (w_db w)" and "uuid_laws (env_uuid E)" and "pg_laws (env_pg E)"
    and "env_fault E = (\<lambda>n. None)" and "\<forall>r \<in> set (tenants (w_db w)). year_ok (tn_created_at r)"
    and "tf_Cursor f = []"
  shows "\<exists>pages. tenant_pages (Suc (length (tenants (w_db w)))) E f w = Some pages \<and>
    map tenant_row_of (concat pages) = ordered_tenants (tenant_list_defaults f) (w_db w) \<and>
    distinct (map tenant_row_of (concat pages)) \<and>
    set (map tenant_row_of (concat pages)) = {r \<in> set (tenants (w_db w)). tenant_matches f r} \<and>
    (\<forall>p \<in> set pages. length p \<le> 200)"
proof -
  let ?f = "tenant_list_defaults f" and ?n = "Suc (length (tenants (w_db w)))"
  have "tenant_list_ready E ?f (w_db w)"
    using assms tenant_defaults_range [of f] by (simp add: tenant_list_ready_def)
  moreover have "length (ordered_tenants ?f (w_db w)) < ?n" by (simp add: ordered_tenants_def less_Suc_eq_le)
  ultimately obtain pages where p: "tenant_pages ?n E f w = Some pages"
      "map tenant_row_of (concat pages) = ordered_tenants ?f (w_db w)"
      "\<forall>q \<in> set pages. length q \<le> nat (tf_Limit ?f)"
    using tp.read_all_pages [of E f w ?n] assms(6) by (metis tenant_pages_def)
  have "distinct (filter (tenant_matches f) (tenants (w_db w)))"
    using tenants_okD(1) [OF assms(1)] by (auto simp: distinct_map intro: distinct_filter)
  then have "distinct (ordered_tenants ?f (w_db w))" by (simp add: ordered_tenants_def)
  with p tenant_defaults_range(2) [of f] show ?thesis by (intro exI [of _ pages]) force
qed

definition example_tenant_filter :: tenant_filter where
  "example_tenant_filter = \<lparr>tf_Status = None, tf_Plan = None, tf_Order = [], tf_Limit = 0, tf_Cursor = []\<rparr>"

theorem tenant_pages_complete_witness:
  "\<exists>pages. tenant_pages 2 plain_env example_tenant_filter example_tenant_world = Some pages \<and>
     set (map tenant_row_of (concat pages)) = {example_tenant_row}"
proof -
  have "year_ok 1000" by code_simp
  then show ?thesis
    using tenant_pages_complete [of example_tenant_world plain_env example_tenant_filter]
    by (auto simp: example_tenant_filter_def example_tenant_row_def numeral_2_eq_2 tenant_matches_def)
qed

text \<open>
  A tenant cursor is not bound to the order of the listing it came from: a cursor made by a
  listing decodes to the same position for a listing in either order, and carries no order (the
  catalog refuses a cursor made for another order).
\<close>

lemma tenant_cursor_not_bound_to_order:
  assumes "uuid_laws (env_uuid E)" and "timestamptz (ten_createdAt t) = ten_createdAt t"
  shows "Tenant_decodeCursor (Tenant_encodeCursor (env_uuid E) t) Tenant_OrderAsc =
      Tenant_decodeCursor (Tenant_encodeCursor (env_uuid E) t) Tenant_OrderDesc \<and>
    (\<exists>c. Tenant_decodeCursor (Tenant_encodeCursor (env_uuid E) t) Tenant_OrderAsc = Inr c \<and> tc_Order c = [])"
  using assms by (simp add: Tenant_encodeCursor_at tenant_cursor_decodes tenant_cursor_at_def)

lemma tenant_cursor_not_bound_to_order_witness:
  "\<exists>c. Tenant_decodeCursor (Tenant_encodeCursor (env_uuid plain_env)
     (Tenant_Create (env_uuid plain_env) (TenantID 1) (TenantName ''Acme'') (Slug ''acme'') PlanFree (Quota 5) 7000))
     Tenant_OrderAsc = Inr c \<and> tc_Order c = []"
proof -
  let ?t = "Tenant_Create (env_uuid plain_env) (TenantID 1) (TenantName ''Acme'') (Slug ''acme'') PlanFree (Quota 5) 7000"
  have "timestamptz (ten_createdAt ?t) = ten_createdAt ?t"
    by (simp add: Tenant_Create_def Tenant_record_def timestamptz_def)
  from tenant_cursor_not_bound_to_order [OF plain_env_laws this] show ?thesis by blast
qed

end
