(* ===== verification/Tenant_Api.thy ===== *)
theory Tenant_Api
  imports Tenant_Pages Idempotency
begin

text \<open>
  \<^verbatim>\<open>internal/modules/tenant/api\<close>: the request and response types (\<open>dto.go\<close>) and the handlers
  (\<open>handlers.go\<close>).
\<close>

section \<open>Request and response types\<close>

definition create_tenant_fields ::
    "(string \<times> (json \<Rightarrow> create_tenant_input \<Rightarrow> create_tenant_input option)) list" where
  "create_tenant_fields =
     [(''name'', string_field (\<lambda>x r. r\<lparr>ct_Name := x\<rparr>)), (''slug'', string_field (\<lambda>x r. r\<lparr>ct_Slug := x\<rparr>)),
      (''plan'', string_field (\<lambda>x r. r\<lparr>ct_Plan := x\<rparr>)), (''maxServices'', int_field (\<lambda>x r. r\<lparr>ct_MaxServices := x\<rparr>))]"

definition status_fields :: "(string \<times> (json \<Rightarrow> string \<Rightarrow> string option)) list" where
  "status_fields = [(''status'', string_field (\<lambda>x r. x))]"

definition quota_fields :: "(string \<times> (json \<Rightarrow> int \<Rightarrow> int option)) list" where
  "quota_fields = [(''maxServices'', int_field (\<lambda>x r. x))]"

record tenant_response =
  tr_ID :: string
  tr_Name :: string
  tr_Slug :: string
  tr_Plan :: string
  tr_Status :: string
  tr_MaxServices :: int
  tr_Version :: int
  tr_CreatedAt :: time
  tr_UpdatedAt :: time

definition Tenant_toResponse :: "uuid_lib \<Rightarrow> tenant \<Rightarrow> tenant_response" where
  "Tenant_toResponse U t =
     \<lparr>tr_ID = Tenant_IDString U (ten_id t), tr_Name = TenantName_String (ten_name t),
      tr_Slug = Slug_String (ten_slug t), tr_Plan = Plan_string (ten_plan t),
      tr_Status = Status_string (ten_status t), tr_MaxServices = MaxServices (ten_quota t),
      tr_Version = ten_version t, tr_CreatedAt = ten_createdAt t, tr_UpdatedAt = ten_updatedAt t\<rparr>"

definition tenant_json :: "tenant_response \<Rightarrow> json" where
  "tenant_json t =
     JObj [(''id'', JStr (tr_ID t)), (''name'', JStr (tr_Name t)), (''slug'', JStr (tr_Slug t)),
       (''plan'', JStr (tr_Plan t)), (''status'', JStr (tr_Status t)), (''maxServices'', JInt (tr_MaxServices t)),
       (''version'', JInt (tr_Version t)), (''createdAt'', JStr (RFC3339Nano (tr_CreatedAt t))),
       (''updatedAt'', JStr (RFC3339Nano (tr_UpdatedAt t)))]"

definition encode_tenant :: "tenant_response \<Rightarrow> json option" where
  "encode_tenant t =
     (if year_ok (tr_CreatedAt t) \<and> year_ok (tr_UpdatedAt t) then Some (tenant_json t) else None)"

section \<open>Versions in headers\<close>

definition Tenant_ifMatch :: "request \<Rightarrow> int" where
  "Tenant_ifMatch r =
     (let raw = Trim (rq_header r ''If-Match'') (CHR 0x22)
      in if raw = [] then 0 else case ParseInt raw of None \<Rightarrow> 0 | Some v \<Rightarrow> v)"

definition Tenant_setETag :: "int \<Rightarrow> (string \<rightharpoonup> string) \<Rightarrow> (string \<rightharpoonup> string)" where
  "Tenant_setETag version hs = hs(''ETag'' \<mapsto> FormatInt version)"

section \<open>Handlers\<close>

definition tenant_answer :: "env \<Rightarrow> request \<Rightarrow> (go_error + tenant) \<times> world \<Rightarrow> outcome \<times> world" where
  "tenant_answer E r res =
     (case res of
        (Inl err, w) \<Rightarrow> (Responded (httpx_Error Map.empty r err), w)
      | (Inr t, w) \<Rightarrow>
          (Responded (JSON (Tenant_setETag (ten_version t) Map.empty) 200
             (encode_tenant (Tenant_toResponse (env_uuid E) t))), w))"

definition Tenant_Create_handler :: "env \<Rightarrow> http_lib \<Rightarrow> world handler" where
  "Tenant_Create_handler E H r w =
     (case httpx_Decode (hl_json_error H) create_tenant_fields
             \<lparr>ct_Name = [], ct_Slug = [], ct_Plan = [], ct_MaxServices = 0\<rparr> r of
        Inl rs \<Rightarrow> (Responded rs, w)
      | Inr inp \<Rightarrow>
     (case CreateTenant E (rq_now r) inp w of
        (Inl err, w1) \<Rightarrow> (Responded (httpx_Error Map.empty r err), w1)
      | (Inr t, w1) \<Rightarrow>
          (Responded (JSON (Tenant_setETag (ten_version t)
               [''Location'' \<mapsto> ''/api/v1/tenants/'' @ Tenant_IDString (env_uuid E) (ten_id t)]) 201
             (encode_tenant (Tenant_toResponse (env_uuid E) t))), w1)))"

definition Tenant_Get_handler :: "env \<Rightarrow> world handler" where
  "Tenant_Get_handler E r w = tenant_answer E r (GetTenant E (rq_id r) w)"

definition tenant_invalid_limit :: go_error where
  "tenant_invalid_limit = Validation ''INVALID_LIMIT'' ''limit must be a positive integer''"

definition Tenant_parseListFilter :: "request \<Rightarrow> go_error + tenant_filter" where
  "Tenant_parseListFilter r =
     (let q = rq_query r;
          f = \<lparr>tf_Status = None, tf_Plan = None, tf_Order = Tenant_OrderDesc, tf_Limit = 50, tf_Cursor = q ''cursor''\<rparr>
      in case (if q ''limit'' = [] then Inr f
               else case ParseInt (q ''limit'') of
                      None \<Rightarrow> Inl tenant_invalid_limit
                    | Some n \<Rightarrow> (if n < 1 then Inl tenant_invalid_limit else Inr (f\<lparr>tf_Limit := n\<rparr>))) of
           Inl err \<Rightarrow> Inl err
         | Inr f1 \<Rightarrow>
         (case (if q ''status'' = [] then Inr f1
                else case ParseStatus (q ''status'') of
                       Inl err \<Rightarrow> Inl err | Inr s \<Rightarrow> Inr (f1\<lparr>tf_Status := Some s\<rparr>)) of
           Inl err \<Rightarrow> Inl err
         | Inr f2 \<Rightarrow>
         (case (if q ''plan'' = [] then Inr f2
                else case ParsePlan (q ''plan'') of
                       Inl err \<Rightarrow> Inl err | Inr p \<Rightarrow> Inr (f2\<lparr>tf_Plan := Some p\<rparr>)) of
           Inl err \<Rightarrow> Inl err
         | Inr f3 \<Rightarrow>
            (if q ''order'' = [] \<or> q ''order'' = ''desc'' then Inr (f3\<lparr>tf_Order := Tenant_OrderDesc\<rparr>)
             else if q ''order'' = ''asc'' then Inr (f3\<lparr>tf_Order := Tenant_OrderAsc\<rparr>)
             else Inl (Validation ''INVALID_ORDER'' ''order must be asc or desc'')))))"

definition encode_tenant_page :: "json option list \<Rightarrow> string \<Rightarrow> json option" where
  "encode_tenant_page items next =
     (if None \<in> set items then None else Some (page_json (map the items) next))"

definition Tenant_List_handler :: "env \<Rightarrow> world handler" where
  "Tenant_List_handler E r w =
     (case Tenant_parseListFilter r of
        Inl err \<Rightarrow> (Responded (httpx_Error Map.empty r err), w)
      | Inr f \<Rightarrow>
     (case ListTenants E f w of
        (Inl err, w1) \<Rightarrow> (Responded (httpx_Error Map.empty r err), w1)
      | (Inr (ts, next), w1) \<Rightarrow>
          (Responded (JSON Map.empty 200
             (encode_tenant_page (map (\<lambda>t. encode_tenant (Tenant_toResponse (env_uuid E) t)) ts) next)), w1)))"

definition ChangeStatus_handler :: "env \<Rightarrow> http_lib \<Rightarrow> world handler" where
  "ChangeStatus_handler E H r w =
     (case httpx_Decode (hl_json_error H) status_fields [] r of
        Inl rs \<Rightarrow> (Responded rs, w)
      | Inr s \<Rightarrow>
          tenant_answer E r (ChangeStatus E (rq_now r)
            \<lparr>ch_TenantID = rq_id r, ch_Status = s, ch_ExpectedVersion = Tenant_ifMatch r\<rparr> w))"

definition UpdateQuota_handler :: "env \<Rightarrow> http_lib \<Rightarrow> world handler" where
  "UpdateQuota_handler E H r w =
     (case httpx_Decode (hl_json_error H) quota_fields 0 r of
        Inl rs \<Rightarrow> (Responded rs, w)
      | Inr n \<Rightarrow>
          tenant_answer E r (UpdateQuota E (rq_now r)
            \<lparr>uq_TenantID = rq_id r, uq_MaxServices = n, uq_ExpectedVersion = Tenant_ifMatch r\<rparr> w))"

section \<open>What a handler can do to the tables\<close>

text \<open>Reading never writes.\<close>

lemma select_tenants_db: "select_tenants E f cur d = (r, d') \<Longrightarrow> d' = d"
  by (auto simp: select_tenants_def Let_def split: if_splits option.splits)

lemma Tenant_List_db:
  assumes "Tenant_List E f w = (r, w')"
  shows "w_db w' = w_db w"
proof -
  have sel: "w_db w2 = w_db w1" if "sql E (select_tenants E f cur) w1 = (res, w2)" for cur w1 res w2
    using that by (rule sql_read) (rule select_tenants_db)
  have err: "w_db w2 = w_db w1" if "sql E (\<lambda>d. (Inr (), d)) w1 = (res, w2)" for w1 w2 and res :: "go_error + unit"
    using that by (rule sql_read) simp
  show ?thesis
    using assms unfolding Tenant_List_def Let_def
    by (auto split: sum.splits prod.splits if_splits dest!: sel err)
qed

lemma Tenant_Get_handler_db: "Tenant_Get_handler E r w = (out, w') \<Longrightarrow> w_db w' = w_db w"
  by (auto simp: Tenant_Get_handler_def tenant_answer_def GetTenant_def dest!: Tenant_FindByID_frame(1)
      split: sum.splits prod.splits)

lemma Tenant_List_handler_db: "Tenant_List_handler E r w = (out, w') \<Longrightarrow> w_db w' = w_db w"
  by (auto simp: Tenant_List_handler_def ListTenants_def dest!: Tenant_List_db split: sum.splits prod.splits)

text \<open>Every other handler is refused, or is one command of the tenant registry.\<close>

lemma tenant_answer_world: "tenant_answer E r res = (out, w') \<Longrightarrow> snd res = w'"
  by (auto simp: tenant_answer_def split: prod.splits sum.splits)

lemma Tenant_Create_handler_command:
  assumes "Tenant_Create_handler E H r w = (out, w')"
  shows "w' = w \<or> (\<exists>q. snd (tenant_command E (rq_now r) q w) = w')"
proof (cases "httpx_Decode (hl_json_error H) create_tenant_fields
    \<lparr>ct_Name = [], ct_Slug = [], ct_Plan = [], ct_MaxServices = 0\<rparr> r")
  case (Inr inp)
  with assms have "snd (CreateTenant E (rq_now r) inp w) = w'"
    by (auto simp: Tenant_Create_handler_def split: prod.splits sum.splits)
  then show ?thesis by (intro disjI2 exI [of _ "CreateRequest inp"]) simp
qed (use assms in \<open>simp add: Tenant_Create_handler_def\<close>)

lemma ChangeStatus_handler_command:
  assumes "ChangeStatus_handler E H r w = (out, w')"
  shows "w' = w \<or> (\<exists>q. snd (tenant_command E (rq_now r) q w) = w')"
proof (cases "httpx_Decode (hl_json_error H) status_fields [] r")
  case (Inr s)
  with assms show ?thesis
    by (intro disjI2 exI [of _ "StatusRequest \<lparr>ch_TenantID = rq_id r, ch_Status = s, ch_ExpectedVersion = Tenant_ifMatch r\<rparr>"])
      (auto simp: ChangeStatus_handler_def dest: tenant_answer_world)
qed (use assms in \<open>simp add: ChangeStatus_handler_def\<close>)

lemma UpdateQuota_handler_command:
  assumes "UpdateQuota_handler E H r w = (out, w')"
  shows "w' = w \<or> (\<exists>q. snd (tenant_command E (rq_now r) q w) = w')"
proof (cases "httpx_Decode (hl_json_error H) quota_fields 0 r")
  case (Inr n)
  with assms show ?thesis
    by (intro disjI2 exI [of _ "QuotaRequest \<lparr>uq_TenantID = rq_id r, uq_MaxServices = n, uq_ExpectedVersion = Tenant_ifMatch r\<rparr>"])
      (auto simp: UpdateQuota_handler_def dest: tenant_answer_world)
qed (use assms in \<open>simp add: UpdateQuota_handler_def\<close>)

end
