(* ===== verification/Application_View.thy ===== *)
theory Application_View
  imports Application_Controller Httpx
begin

text \<open>
  \<^verbatim>\<open>internal/modules/application\<close>: the read model of applications. The \<^verbatim>\<open>Reader\<close> interface
  (\<open>app/ports.go\<close>) with its two implementations, the Kubernetes reader (\<open>adapters/kube/reader.go\<close>)
  and the disabled one (\<open>app/disabled.go\<close>); the response types (\<open>api/dto.go\<close>) and the handlers
  (\<open>api/handlers.go\<close>).

  The client's \<^verbatim>\<open>Get\<close> is that of the reconciler's parameter \<open>kube\<close>; its \<^verbatim>\<open>List\<close> is the parameter
  \<open>lst\<close>, with a namespace or none. \<open>list_laws\<close> is its documented behaviour: it changes nothing and
  returns the applications of the namespace.
\<close>

section \<open>The read model\<close>

record app_condition =
  ac_Type :: string
  ac_Status :: string
  ac_Reason :: string
  ac_Message :: string
  ac_ObservedGeneration :: int

record application_view =
  av_Namespace :: string
  av_Name :: string
  av_Image :: string
  av_Port :: int
  av_DesiredReplicas :: int
  av_Tier :: int
  av_Expose :: bool
  av_Phase :: string
  av_ReadyReplicas :: int
  av_ObservedGeneration :: int
  av_Conditions :: "app_condition list"

definition application_ErrNotFound :: go_error where
  "application_ErrNotFound = NotFound ''APPLICATION_NOT_FOUND'' ''application not found''"

definition application_ErrDisabled :: go_error where
  "application_ErrDisabled = Unavailable ''KUBERNETES_NOT_CONFIGURED''
     ''the applications view is unavailable because no Kubernetes cluster is configured for this control plane''"

record 'k application_reader =
  ar_List :: "string \<Rightarrow> 'k \<Rightarrow> (go_error + application_view list) \<times> 'k"
  ar_Get :: "string \<Rightarrow> string \<Rightarrow> 'k \<Rightarrow> (go_error + application_view) \<times> 'k"

section \<open>The readers\<close>

definition application_toView :: "application \<Rightarrow> application_view" where
  "application_toView a =
     \<lparr>av_Namespace = om_Namespace (ap_meta a), av_Name = om_Name (ap_meta a), av_Image = sp_Image (ap_Spec a),
      av_Port = sp_Port (ap_Spec a), av_DesiredReplicas = sp_Replicas (ap_Spec a), av_Tier = sp_Tier (ap_Spec a),
      av_Expose = sp_Expose (ap_Spec a), av_Phase = as_Phase (ap_Status a),
      av_ReadyReplicas = as_ReadyReplicas (ap_Status a), av_ObservedGeneration = as_ObservedGeneration (ap_Status a),
      av_Conditions = map (\<lambda>c. \<lparr>ac_Type = cn_Type c, ac_Status = cn_Status c, ac_Reason = cn_Reason c,
        ac_Message = cn_Message c, ac_ObservedGeneration = cn_ObservedGeneration c\<rparr>) (as_Conditions (ap_Status a))\<rparr>"

type_synonym 'k app_lister = "string option \<Rightarrow> 'k \<Rightarrow> (go_error + application list) \<times> 'k"

definition KubeReader_List :: "'k app_lister \<Rightarrow> string \<Rightarrow> 'k \<Rightarrow> (go_error + application_view list) \<times> 'k" where
  "KubeReader_List lst namespace k =
     (case lst (if namespace \<noteq> '''' then Some namespace else None) k of
        (Inl err, k') \<Rightarrow> (Inl (Errorf ''list applications'' err), k')
      | (Inr items, k') \<Rightarrow> (Inr (map application_toView items), k'))"

definition KubeReader_Get ::
    "('k, 'q) kube \<Rightarrow> string \<Rightarrow> string \<Rightarrow> 'k \<Rightarrow> (go_error + application_view) \<times> 'k" where
  "KubeReader_Get K namespace name k =
     (case kc_get_app K (namespace, name) k of
        (Inl err, k') \<Rightarrow>
          (if kc_is_not_found K err then (Inl application_ErrNotFound, k')
           else (Inl (Errorf ''get application'' err), k'))
      | (Inr a, k') \<Rightarrow> (Inr (application_toView a), k'))"

definition KubeReader :: "('k, 'q) kube \<Rightarrow> 'k app_lister \<Rightarrow> 'k application_reader" where
  "KubeReader K lst = \<lparr>ar_List = KubeReader_List lst, ar_Get = KubeReader_Get K\<rparr>"

definition DisabledReader :: "'k application_reader" where
  "DisabledReader = \<lparr>ar_List = (\<lambda>namespace k. (Inl application_ErrDisabled, k)),
     ar_Get = (\<lambda>namespace name k. (Inl application_ErrDisabled, k))\<rparr>"

section \<open>Responses and handlers\<close>

definition omitzero :: "string \<Rightarrow> int \<Rightarrow> (string \<times> json) list" where
  "omitzero k n = (if n = 0 then [] else [(k, JInt n)])"

definition condition_json :: "app_condition \<Rightarrow> json" where
  "condition_json c =
     JObj ([(''type'', JStr (ac_Type c)), (''status'', JStr (ac_Status c))] @
       omitempty ''reason'' (ac_Reason c) @ omitempty ''message'' (ac_Message c) @
       omitzero ''observedGeneration'' (ac_ObservedGeneration c))"

definition application_json :: "application_view \<Rightarrow> json" where
  "application_json v =
     JObj [(''namespace'', JStr (av_Namespace v)), (''name'', JStr (av_Name v)), (''image'', JStr (av_Image v)),
       (''port'', JInt (av_Port v)), (''desiredReplicas'', JInt (av_DesiredReplicas v)), (''tier'', JInt (av_Tier v)),
       (''expose'', JBool (av_Expose v)), (''phase'', JStr (av_Phase v)), (''readyReplicas'', JInt (av_ReadyReplicas v)),
       (''observedGeneration'', JInt (av_ObservedGeneration v)),
       (''conditions'', JArr (map condition_json (av_Conditions v)))]"

definition Application_List_handler :: "'k application_reader \<Rightarrow> 'k handler" where
  "Application_List_handler rd r k =
     (case ar_List rd (rq_query r ''namespace'') k of
        (Inl err, k') \<Rightarrow> (Responded (httpx_Error Map.empty r err), k')
      | (Inr views, k') \<Rightarrow>
          (Responded (JSON Map.empty 200 (Some (JObj [(''items'', JArr (map application_json views))]))), k'))"

text \<open>\<open>params\<close> are the route's parameters, \<^verbatim>\<open>chi.URLParam\<close>.\<close>

definition Application_Get_handler :: "'k application_reader \<Rightarrow> (string \<Rightarrow> string) \<Rightarrow> 'k handler" where
  "Application_Get_handler rd params r k =
     (case ar_Get rd (params ''namespace'') (params ''name'') k of
        (Inl err, k') \<Rightarrow> (Responded (httpx_Error Map.empty r err), k')
      | (Inr v, k') \<Rightarrow> (Responded (JSON Map.empty 200 (Some (application_json v))), k'))"

section \<open>What the handlers rely on\<close>

text \<open>
  The contract of a \<^verbatim>\<open>Reader\<close>: reading changes nothing of what is observable, and a single lookup
  agrees with the listing.
\<close>

locale reader_contract =
  fixes rd :: "'k application_reader" and view :: "'k \<Rightarrow> 'v"
  assumes list_reads: "ar_List rd ns k = (res, k') \<Longrightarrow> view k' = view k"
    and get_reads: "ar_Get rd ns name k = (one, k') \<Longrightarrow> view k' = view k"
    and get_listed: "ar_List rd ns k = (Inr vs, k1) \<Longrightarrow> v \<in> set vs \<Longrightarrow> view k2 = view k \<Longrightarrow>
      ar_Get rd (av_Namespace v) (av_Name v) k2 = (Inr u, k3) \<Longrightarrow> u = v"
begin

lemma list_handler_reads: "Application_List_handler rd r k = (out, k') \<Longrightarrow> view k' = view k"
  by (auto simp: Application_List_handler_def dest: list_reads split: prod.splits sum.splits)

lemma get_handler_reads: "Application_Get_handler rd ps r k = (out, k') \<Longrightarrow> view k' = view k"
  by (auto simp: Application_Get_handler_def dest: get_reads split: prod.splits sum.splits)

lemma listing_agrees:
  assumes "Application_List_handler rd r k = (Responded rs, k1)" and "rs_status rs = 200"
  obtains vs where "rs = JSON Map.empty 200 (Some (JObj [(''items'', JArr (map application_json vs))]))"
    and "\<And>v ps r2 k2 rs2 k3. v \<in> set vs \<Longrightarrow> ps ''namespace'' = av_Namespace v \<Longrightarrow> ps ''name'' = av_Name v \<Longrightarrow>
      view k2 = view k \<Longrightarrow> Application_Get_handler rd ps r2 k2 = (Responded rs2, k3) \<Longrightarrow> rs_status rs2 = 200 \<Longrightarrow>
      rs2 = JSON Map.empty 200 (Some (application_json v))"
proof -
  have err: "rs_status (httpx_Error hs q e) \<noteq> 200" for hs q e
    using HTTPStatus_range [of e] by (auto simp: httpx_Error_def JSON_def simp del: HTTPStatus.simps)
  obtain vs where l: "ar_List rd (rq_query r ''namespace'') k = (Inr vs, k1)"
    "rs = JSON Map.empty 200 (Some (JObj [(''items'', JArr (map application_json vs))]))"
    using assms err by (auto simp: Application_List_handler_def split: prod.splits sum.splits)
  show thesis
  proof (rule that [OF l(2)])
    fix v ps r2 k2 rs2 k3
    assume a: "v \<in> set vs" "ps ''namespace'' = av_Namespace v" "ps ''name'' = av_Name v" "view k2 = view k"
      "Application_Get_handler rd ps r2 k2 = (Responded rs2, k3)" "rs_status rs2 = 200"
    then obtain u where "ar_Get rd (av_Namespace v) (av_Name v) k2 = (Inr u, k3)"
      "rs2 = JSON Map.empty 200 (Some (application_json u))"
      using err by (auto simp: Application_Get_handler_def split: prod.splits sum.splits)
    with get_listed [OF l(1) a(1,4)] show "rs2 = JSON Map.empty 200 (Some (application_json v))" by simp
  qed
qed

end

interpretation dr: reader_contract DisabledReader "\<lambda>k. k"
  by unfold_locales (auto simp: DisabledReader_def)

definition list_laws :: "('k, 'q) kube \<Rightarrow> 'k app_lister \<Rightarrow> bool" where
  "list_laws K lst \<longleftrightarrow> (\<forall>ns k r k'. lst ns k = (r, k') \<longrightarrow> kc_view K k' = kc_view K k \<and>
     (\<forall>items. r = Inr items \<longrightarrow> distinct (map (\<lambda>a. key_of (ap_meta a)) items) \<and>
        (\<forall>a. a \<in> set items \<longleftrightarrow> (\<exists>key. cl_apps (kc_view K k) key = Some a \<and> (ns = None \<or> ns = Some (fst key))) \<and>
           cl_apps (kc_view K k) (key_of (ap_meta a)) = Some a)))"

text \<open>The Kubernetes reader keeps the contract on any cluster.\<close>

lemma KubeReader_contract:
  assumes "kube_laws K" and "list_laws K lst"
  shows "reader_contract (KubeReader K lst) (kc_view K)"
proof
  have items: "kc_view K k' = kc_view K k \<and> (\<forall>items. r = Inr items \<longrightarrow>
      (\<forall>a \<in> set items. cl_apps (kc_view K k) (key_of (ap_meta a)) = Some a))" if "lst ns k = (r, k')" for ns k r k'
    using assms(2) that unfolding list_laws_def by blast
  show "ar_List (KubeReader K lst) ns k = (res, k') \<Longrightarrow> kc_view K k' = kc_view K k" for ns k res k'
    using items by (auto simp: KubeReader_def KubeReader_List_def split: prod.splits sum.splits)
  show "ar_Get (KubeReader K lst) ns name k = (one, k') \<Longrightarrow> kc_view K k' = kc_view K k" for ns name k one k'
    using get_app_law(1) [OF assms(1)]
    by (auto simp: KubeReader_def KubeReader_Get_def split: prod.splits sum.splits if_splits)
  show "u = v" if l: "ar_List (KubeReader K lst) ns k = (Inr vs, k1)" and v: "v \<in> set vs" and k2: "kc_view K k2 = kc_view K k"
    and g: "ar_Get (KubeReader K lst) (av_Namespace v) (av_Name v) k2 = (Inr u, k3)" for ns k vs k1 v k2 u k3
  proof -
    obtain xs a where a: "lst (if ns \<noteq> [] then Some ns else None) k = (Inr xs, k1)" "a \<in> set xs" "v = application_toView a"
      using l v by (auto simp: KubeReader_def KubeReader_List_def split: prod.splits sum.splits)
    then have "cl_apps (kc_view K k2) (av_Namespace v, av_Name v) = Some a"
      using items [OF a(1)] k2 by (auto simp: application_toView_def key_of_def)
    then show ?thesis
      using g a(3) get_app_law(2) [OF assms(1)]
      by (auto simp: KubeReader_def KubeReader_Get_def split: prod.splits sum.splits if_splits)
  qed
qed

section \<open>Properties\<close>

text \<open>A lister for the concrete cluster of the witnesses, which holds one application.\<close>

definition example_lister :: "string cluster app_lister" where
  "example_lister ns v =
     (if dom (cl_apps v) \<subseteq> {(''default'', ''pay'')}
      then Inr (case cl_apps v (''default'', ''pay'') of
             None \<Rightarrow> []
           | Some a \<Rightarrow> (if (ns = None \<or> ns = Some ''default'') \<and> key_of (ap_meta a) = (''default'', ''pay'') then [a] else []))
      else Inl (OtherError ''unavailable''), v)"

text \<open>
  C28: The portal reports what the operator achieved. After a reconcile of an application that
  succeeded, a lookup of it that succeeds shows the live deployment's ready replicas, the phase
  that follows from them, and the generation of the specification that was reconciled; and it
  shows the application's own image, port, tier and declared replicas.
\<close>

theorem portal_shows_reconciled_status:
  assumes "kube_laws K" and "apps_keyed (kc_view K k)" and "cl_apps (kc_view K k) req = Some app"
    and "Reconcile K req k = (Done, k1)"
    and "ps ''namespace'' = fst req" and "ps ''name'' = snd req"
    and "Application_Get_handler (KubeReader K lst) ps r k1 = (Responded rs, k2)" and "rs_status rs = 200"
  shows "\<exists>live v. cl_status (kc_view K k1) req = Some live \<and> rs = JSON Map.empty 200 (Some (application_json v)) \<and>
    av_Phase v = phase_of app live \<and> av_ReadyReplicas v = ds_ReadyReplicas live \<and>
    av_ObservedGeneration v = om_Generation (ap_meta app) \<and> av_Image v = sp_Image (ap_Spec app) \<and>
    av_Port v = sp_Port (ap_Spec app) \<and> av_Tier v = sp_Tier (ap_Spec app) \<and>
    av_DesiredReplicas v = sp_Replicas (ap_Spec app) \<and> (av_Namespace v, av_Name v) = req"
proof -
  have key: "key_of (ap_meta app) = req" using apps_keyedD [OF assms(2,3)] .
  obtain live st rv where s: "cl_status (kc_view K k1) req = Some live"
    "cl_apps (kc_view K k1) req = Some (restated app st rv)" "status_current (restated app st rv) live"
    using Reconcile_settled [OF assms(1,4,2,3)] unfolding settled_def by blast
  have err: "rs_status (httpx_Error hs q e) \<noteq> 200" for hs q e
    using HTTPStatus_range [of e] by (auto simp: httpx_Error_def JSON_def simp del: HTTPStatus.simps)
  obtain a where a: "kc_get_app K req k1 = (Inr a, k2)" "rs = JSON Map.empty 200 (Some (application_json (application_toView a)))"
    using assms(5-8) err
    by (auto simp: Application_Get_handler_def KubeReader_def KubeReader_Get_def split: prod.splits sum.splits if_splits)
  then have "a = restated app st rv" using get_app_law(2) [OF assms(1) a(1) refl] s(2) by simp
  then show ?thesis
    using s(1,3) a(2) key
    by (intro exI [of _ live] exI [of _ "application_toView a"])
      (auto simp: application_toView_def status_current_def phase_of_def desired_replicas_def key_of_def)
qed

theorem portal_shows_reconciled_status_witness:
  "\<exists>k1 live rs v. Reconcile plain_kube (''default'', ''pay'') example_cluster = (Done, k1) \<and>
     cl_status k1 (''default'', ''pay'') = Some live \<and>
     fst (Application_Get_handler (KubeReader plain_kube example_lister)
       (\<lambda>p. if p = ''name'' then ''pay'' else ''default'') example_request k1) = Responded rs \<and>
     rs = JSON Map.empty 200 (Some (application_json v)) \<and> av_Phase v = phase_of example_app live"
proof -
  let ?req = "(''default'', ''pay'')" and ?ps = "\<lambda>p. if p = ''name'' then ''pay'' else ''default''"
  obtain k1 where 1: "Reconcile plain_kube ?req example_cluster = (Done, k1)"
    using example_reconcile_done by (metis prod.collapse)
  have view: "kc_view plain_kube = (\<lambda>k. k)" and app: "cl_apps example_cluster ?req = Some example_app"
    by (simp_all add: plain_kube_def example_cluster_def)
  have keyed: "apps_keyed example_cluster" using example_cluster_ok by (simp add: cluster_ok_def del: example_cluster_ok)
  obtain a where "cl_apps k1 ?req = Some a"
    using Reconcile_settled [OF plain_kube_laws 1] keyed app by (auto simp: view settled_def)
  then obtain rs where g: "Application_Get_handler (KubeReader plain_kube example_lister) ?ps example_request k1 = (Responded rs, k1)"
    "rs_status rs = 200"
    by (simp add: Application_Get_handler_def KubeReader_def KubeReader_Get_def plain_kube_def JSON_def)
  from portal_shows_reconciled_status [OF plain_kube_laws _ _ 1 _ _ g] keyed app 1 g(1) show ?thesis
    by (auto simp: view)
qed

text \<open>
  C29: The listing of applications and the single lookup tell the same. When the cluster's
  listing is answered 200, its items are the views of some applications, and for each of them a
  lookup by its namespace and name that finds the cluster in the same state is answered with
  exactly the item of the listing, or with an error; neither request changes the cluster.
\<close>

theorem application_listing_consistent:
  assumes "kube_laws K" and "list_laws K lst"
    and "Application_List_handler (KubeReader K lst) r k = (Responded rs, k1)" and "rs_status rs = 200"
  shows "kc_view K k1 = kc_view K k \<and> (\<exists>vs.
    rs = JSON Map.empty 200 (Some (JObj [(''items'', JArr (map application_json vs))])) \<and>
    (\<forall>v \<in> set vs. \<forall>ps r2 rs2 k2.
       ps ''namespace'' = av_Namespace v \<and> ps ''name'' = av_Name v \<and>
       Application_Get_handler (KubeReader K lst) ps r2 k1 = (Responded rs2, k2) \<longrightarrow>
       kc_view K k2 = kc_view K k \<and>
       (rs_status rs2 = 200 \<longrightarrow> rs2 = JSON Map.empty 200 (Some (application_json v)))))"
proof -
  note c = KubeReader_contract [OF assms(1,2)]
  have k1: "kc_view K k1 = kc_view K k" by (rule reader_contract.list_handler_reads [OF c assms(3)])
  obtain vs where vs: "rs = JSON Map.empty 200 (Some (JObj [(''items'', JArr (map application_json vs))]))"
    "\<And>v ps r2 k2 rs2 k3. v \<in> set vs \<Longrightarrow> ps ''namespace'' = av_Namespace v \<Longrightarrow> ps ''name'' = av_Name v \<Longrightarrow>
      kc_view K k2 = kc_view K k \<Longrightarrow> Application_Get_handler (KubeReader K lst) ps r2 k2 = (Responded rs2, k3) \<Longrightarrow>
      rs_status rs2 = 200 \<Longrightarrow> rs2 = JSON Map.empty 200 (Some (application_json v))"
    using reader_contract.listing_agrees [OF c assms(3,4)] by blast
  show ?thesis
    using vs(1) vs(2) [OF _ _ _ k1] reader_contract.get_handler_reads [OF c] k1
    by (intro conjI exI [of _ vs] ballI allI impI) (simp, simp, metis, elim conjE, blast)
qed

lemma example_list_laws: "list_laws plain_kube example_lister"
proof -
  have "key = (''default'', ''pay'')" if "dom (cl_apps v) \<subseteq> {(''default'', ''pay'')}" "cl_apps v key = Some a" for v :: "string cluster" and key a
    using that by (auto simp: dom_def)
  then show ?thesis
    unfolding list_laws_def by (auto simp: plain_kube_def example_lister_def split: if_splits option.splits)
qed

theorem application_listing_consistent_witness:
  "\<exists>rs vs. fst (Application_List_handler (KubeReader plain_kube example_lister) example_request example_cluster) = Responded rs \<and>
     rs = JSON Map.empty 200 (Some (JObj [(''items'', JArr (map application_json vs))]))"
proof -
  have "dom (cl_apps example_cluster) \<subseteq> {(''default'', ''pay'')}" by (auto simp: example_cluster_def split: if_splits)
  then obtain rs where l: "Application_List_handler (KubeReader plain_kube example_lister) example_request example_cluster = (Responded rs, example_cluster)"
    "rs_status rs = 200"
    by (simp add: Application_List_handler_def KubeReader_def KubeReader_List_def example_lister_def JSON_def)
  from application_listing_consistent [OF plain_kube_laws example_list_laws l] l(1) show ?thesis by auto
qed

end
