(* ===== verification/Provisioning_View.thy ===== *)
theory Provisioning_View
  imports Httpx
begin

text \<open>
  \<^verbatim>\<open>internal/modules/provisioning\<close>: the read model of provisioning workflows. The reader over
  Temporal's visibility records (\<open>adapters/temporal/reader.go\<close>), the disabled reader
  (\<open>app/disabled.go\<close>), the response type (\<open>api/dto.go\<close>) and the handlers (\<open>api/handlers.go\<close>).

  The Temporal client is a parameter (\<open>temporal_client\<close>). A record of the service is
  \<open>workflow_info\<close>; the parts that are nil in a protocol message are \<open>None\<close>, and the accessors read
  them as the zero value. The text of the status enumeration is generated code, so the record holds
  that text.
\<close>

section \<open>The read model\<close>

record workflow_info =
  wi_execution :: "(string \<times> string) option"
  wi_type :: "string option"
  wi_status :: string
  wi_history_length :: int
  wi_start :: "time option"
  wi_close :: "time option"

record 't temporal_client =
  tc_list :: "string \<Rightarrow> int \<Rightarrow> 't \<Rightarrow> (go_error + workflow_info list) \<times> 't"
  tc_describe :: "string \<Rightarrow> string \<Rightarrow> 't \<Rightarrow> (go_error + workflow_info) \<times> 't"
  tc_is_not_found :: "go_error \<Rightarrow> bool"

record workflow_view =
  wv_WorkflowID :: string
  wv_RunID :: string
  wv_Type :: string
  wv_Status :: string
  wv_StartTime :: string
  wv_CloseTime :: string
  wv_HistoryLength :: int

definition workflow_ErrNotFound :: go_error where
  "workflow_ErrNotFound = NotFound ''WORKFLOW_NOT_FOUND'' ''provisioning workflow not found''"

definition workflow_ErrDisabled :: go_error where
  "workflow_ErrDisabled = Unavailable ''TEMPORAL_NOT_CONFIGURED''
     ''the provisioning view is unavailable because Temporal is not reachable from this control plane''"

record 't workflow_reader =
  wr_List :: "'t \<Rightarrow> (go_error + workflow_view list) \<times> 't"
  wr_Get :: "string \<Rightarrow> 't \<Rightarrow> (go_error + workflow_view) \<times> 't"

section \<open>The readers\<close>

definition provisionWorkflowType :: string where
  "provisionWorkflowType = ''ProvisionTenantWorkflow''"

text \<open>\<^verbatim>\<open>Format(time.RFC3339)\<close> drops the fraction of the second.\<close>

definition RFC3339 :: "time \<Rightarrow> string" where
  "RFC3339 t = RFC3339Nano (t div nanoseconds * nanoseconds)"

definition type_name :: "workflow_info \<Rightarrow> string" where
  "type_name e = (case wi_type e of Some n \<Rightarrow> n | None \<Rightarrow> '''')"

definition workflow_toView :: "workflow_info \<Rightarrow> workflow_view" where
  "workflow_toView e =
     \<lparr>wv_WorkflowID = (case wi_execution e of Some (i, run) \<Rightarrow> i | None \<Rightarrow> ''''),
      wv_RunID = (case wi_execution e of Some (i, run) \<Rightarrow> run | None \<Rightarrow> ''''),
      wv_Type = type_name e,
      wv_Status = TrimPrefix (wi_status e) ''WORKFLOW_EXECUTION_STATUS_'',
      wv_StartTime = (case wi_start e of Some t \<Rightarrow> RFC3339 t | None \<Rightarrow> ''''),
      wv_CloseTime = (case wi_close e of Some t \<Rightarrow> RFC3339 t | None \<Rightarrow> ''''),
      wv_HistoryLength = wi_history_length e\<rparr>"

definition TemporalReader_List :: "'t temporal_client \<Rightarrow> string \<Rightarrow> 't \<Rightarrow> (go_error + workflow_view list) \<times> 't" where
  "TemporalReader_List C namespace t =
     (case tc_list C namespace 100 t of
        (Inl err, t') \<Rightarrow> (Inl workflow_ErrDisabled, t')
      | (Inr es, t') \<Rightarrow> (Inr (map workflow_toView (filter (\<lambda>e. type_name e = provisionWorkflowType) es)), t'))"

definition TemporalReader_Get :: "'t temporal_client \<Rightarrow> string \<Rightarrow> 't \<Rightarrow> (go_error + workflow_view) \<times> 't" where
  "TemporalReader_Get C workflowID t =
     (case tc_describe C workflowID '''' t of
        (Inl err, t') \<Rightarrow> (if tc_is_not_found C err then (Inl workflow_ErrNotFound, t') else (Inl workflow_ErrDisabled, t'))
      | (Inr e, t') \<Rightarrow> (Inr (workflow_toView e), t'))"

definition TemporalReader :: "'t temporal_client \<Rightarrow> string \<Rightarrow> 't workflow_reader" where
  "TemporalReader C namespace = \<lparr>wr_List = TemporalReader_List C namespace, wr_Get = TemporalReader_Get C\<rparr>"

definition DisabledWorkflowReader :: "'t workflow_reader" where
  "DisabledWorkflowReader = \<lparr>wr_List = (\<lambda>t. (Inl workflow_ErrDisabled, t)),
     wr_Get = (\<lambda>i t. (Inl workflow_ErrDisabled, t))\<rparr>"

section \<open>Responses and handlers\<close>

definition workflow_json :: "workflow_view \<Rightarrow> json" where
  "workflow_json v =
     JObj ([(''workflowId'', JStr (wv_WorkflowID v)), (''runId'', JStr (wv_RunID v)), (''type'', JStr (wv_Type v)),
       (''status'', JStr (wv_Status v))] @ omitempty ''startTime'' (wv_StartTime v) @
       omitempty ''closeTime'' (wv_CloseTime v) @ [(''historyLength'', JInt (wv_HistoryLength v))])"

definition Workflow_List_handler :: "'t workflow_reader \<Rightarrow> 't handler" where
  "Workflow_List_handler rd r t =
     (case wr_List rd t of
        (Inl err, t') \<Rightarrow> (Responded (httpx_Error Map.empty r err), t')
      | (Inr views, t') \<Rightarrow>
          (Responded (JSON Map.empty 200 (Some (JObj [(''items'', JArr (map workflow_json views))]))), t'))"

definition Workflow_Get_handler :: "'t workflow_reader \<Rightarrow> (string \<Rightarrow> string) \<Rightarrow> 't handler" where
  "Workflow_Get_handler rd params r t =
     (case wr_Get rd (params ''workflowId'') t of
        (Inl err, t') \<Rightarrow> (Responded (httpx_Error Map.empty r err), t')
      | (Inr v, t') \<Rightarrow> (Responded (JSON Map.empty 200 (Some (workflow_json v))), t'))"

section \<open>What the view answers\<close>

text \<open>
  Whatever Temporal answers, a listing is 503 or 200, with provisioning workflows only, each as the
  service lists it; a single lookup is 404, 503 or 200, and shows a workflow of any type.
\<close>

lemma workflow_error_status:
  "rs_status (httpx_Error hs r workflow_ErrDisabled) = 503" "rs_status (httpx_Error hs r workflow_ErrNotFound) = 404"
  by (simp_all add: httpx_Error_def JSON_def workflow_ErrDisabled_def workflow_ErrNotFound_def forge_defs)

lemma wv_Type_toView [simp]: "wv_Type (workflow_toView e) = type_name e"
  by (simp add: workflow_toView_def)

lemma workflow_listing:
  assumes "Workflow_List_handler (TemporalReader C namespace) r t = (Responded resp, t')"
  shows "case fst (tc_list C namespace 100 t) of
      Inl err \<Rightarrow> rs_status resp = 503
    | Inr es \<Rightarrow> \<exists>views. resp = JSON Map.empty 200 (Some (JObj [(''items'', JArr (map workflow_json views))])) \<and>
        (\<forall>v \<in> set views. wv_Type v = ''ProvisionTenantWorkflow'' \<and> v \<in> workflow_toView ` set es)"
proof (cases "tc_list C namespace 100 t")
  case (Pair res t1)
  show ?thesis
  proof (cases res)
    case (Inr es)
    with Pair assms show ?thesis
      by (auto simp: Workflow_List_handler_def TemporalReader_def TemporalReader_List_def provisionWorkflowType_def
          intro!: exI [of _ "map workflow_toView (filter (\<lambda>e. type_name e = ''ProvisionTenantWorkflow'') es)"])
  qed (use Pair assms in \<open>auto simp: Workflow_List_handler_def TemporalReader_def TemporalReader_List_def workflow_error_status\<close>)
qed

lemma workflow_lookup:
  assumes "Workflow_Get_handler (TemporalReader C namespace) params r t = (Responded resp, t')"
  shows "case fst (tc_describe C (params ''workflowId'') [] t) of
      Inl err \<Rightarrow> rs_status resp = (if tc_is_not_found C err then 404 else 503)
    | Inr e \<Rightarrow> resp = JSON Map.empty 200 (Some (workflow_json (workflow_toView e)))"
  using assms
  by (auto simp: Workflow_Get_handler_def TemporalReader_def TemporalReader_Get_def workflow_error_status
      split: prod.splits sum.splits if_splits)

end
