(* ===== verification/Platform_Config.thy ===== *)
theory Platform_Config
  imports Go_Json Apperr
begin

text \<open>
  \<^verbatim>\<open>internal/platform/config\<close>: the configuration read from the environment and its validation.
  The environment is a map of variables. Floating point is outside the model, so
  \<^verbatim>\<open>strconv.ParseFloat\<close>, the literal it defaults to and \<^verbatim>\<open>time.ParseDuration\<close> (which scales
  fractions in floating point) are parameters, as is the \<^verbatim>\<open>%q\<close> verb; durations are nanoseconds.
\<close>

section \<open>The configuration\<close>

record 'f go_lib =
  gl_ParseFloat :: "string \<Rightarrow> 'f option"
  gl_float :: "int \<Rightarrow> 'f"
  gl_ParseDuration :: "string \<Rightarrow> time option"
  gl_quote :: "string \<Rightarrow> string"

record temporal_config =
  tc_HostPort :: string
  tc_Namespace :: string
  tc_TaskQueue :: string

record events_config =
  ec_NATSURL :: string
  ec_StreamName :: string
  ec_SubjectPrefix :: string

record relay_config =
  rc_BatchSize :: int
  rc_PollInterval :: time

record database_config =
  db_URL :: string
  db_MaxConns :: int
  db_MinConns :: int
  db_MaxConnLifetime :: time
  db_MaxConnIdleTime :: time

record auth_config =
  au_Mode :: string
  au_HMACSecret :: string
  au_JWKSURL :: string
  au_Issuer :: string
  au_Audience :: string

record telemetry_config =
  te_ServiceName :: string
  te_OTLPEndpoint :: string

record 'f rate_limit_config =
  rl_RPS :: 'f
  rl_Burst :: int

record 'f config =
  cf_Env :: string
  cf_HTTPAddr :: string
  cf_ShutdownTimeout :: time
  cf_Database :: database_config
  cf_Auth :: auth_config
  cf_Telemetry :: telemetry_config
  cf_RateLimit :: "'f rate_limit_config"
  cf_Events :: events_config
  cf_Relay :: relay_config
  cf_Temporal :: temporal_config

definition IsProduction :: "'f config \<Rightarrow> bool" where
  "IsProduction c \<longleftrightarrow> cf_Env c = ''production''"

section \<open>Reading the environment\<close>

type_synonym environ = "string \<rightharpoonup> string"

definition Getenv :: "environ \<Rightarrow> string \<Rightarrow> string" where
  "Getenv e k = (case e k of Some v \<Rightarrow> v | None \<Rightarrow> [])"

definition getStr :: "environ \<Rightarrow> string \<Rightarrow> string \<Rightarrow> string" where
  "getStr e key def = (case e key of Some v \<Rightarrow> (if v \<noteq> [] then v else def) | None \<Rightarrow> def)"

definition getInt :: "environ \<Rightarrow> string \<Rightarrow> int \<Rightarrow> int" where
  "getInt e key def =
     (case e key of
        Some v \<Rightarrow> (if v \<noteq> [] then (case ParseInt v of Some n \<Rightarrow> n | None \<Rightarrow> def) else def)
      | None \<Rightarrow> def)"

definition getFloat :: "'f go_lib \<Rightarrow> environ \<Rightarrow> string \<Rightarrow> 'f \<Rightarrow> 'f" where
  "getFloat L e key def =
     (case e key of
        Some v \<Rightarrow> (if v \<noteq> [] then (case gl_ParseFloat L v of Some n \<Rightarrow> n | None \<Rightarrow> def) else def)
      | None \<Rightarrow> def)"

definition getDur :: "'f go_lib \<Rightarrow> environ \<Rightarrow> string \<Rightarrow> time \<Rightarrow> time" where
  "getDur L e key def =
     (case e key of
        Some v \<Rightarrow> (if v \<noteq> [] then (case gl_ParseDuration L v of Some d \<Rightarrow> d | None \<Rightarrow> def) else def)
      | None \<Rightarrow> def)"

definition httpAddr :: "environ \<Rightarrow> string" where
  "httpAddr e =
     (let a = Getenv e ''FORGE_HTTP_ADDR''; p = Getenv e ''PORT''
      in if a \<noteq> [] then a else if p \<noteq> [] then '':'' @ p else '':8080'')"

text \<open>The conversion \<^verbatim>\<open>int32(n)\<close> keeps the low 32 bits.\<close>

definition int32_of :: "int \<Rightarrow> int" where
  "int32_of n = (n + 2 ^ 31) mod 2 ^ 32 - 2 ^ 31"

lemma int32_of_range: "in_int32 (int32_of n)"
proof -
  have "0 \<le> (n + 2 ^ 31) mod 2 ^ 32" "(n + 2 ^ 31) mod 2 ^ 32 < (2 :: int) ^ 32" by simp_all
  then show ?thesis unfolding in_int32_def int32_of_def by simp
qed

lemma int32_of_id: "in_int32 n \<Longrightarrow> int32_of n = n"
  by (simp add: in_int32_def int32_of_def)

definition second :: time where
  "second = 1000000000"

section \<open>Validation\<close>

definition auth_problems :: "'f go_lib \<Rightarrow> 'f config \<Rightarrow> string list" where
  "auth_problems L c =
     (if au_Mode (cf_Auth c) = ''hmac'' then
        (if au_HMACSecret (cf_Auth c) = [] then [''FORGE_AUTH_HMAC_SECRET is required when FORGE_AUTH_MODE=hmac''] else []) @
        (if IsProduction c then [''FORGE_AUTH_MODE=hmac is not permitted in production; use jwks''] else [])
      else if au_Mode (cf_Auth c) = ''jwks'' then
        (if au_JWKSURL (cf_Auth c) = [] then [''FORGE_AUTH_JWKS_URL is required when FORGE_AUTH_MODE=jwks''] else []) @
        (if au_Issuer (cf_Auth c) = [] \<or> au_Audience (cf_Auth c) = []
         then [''FORGE_AUTH_ISSUER and FORGE_AUTH_AUDIENCE are required when FORGE_AUTH_MODE=jwks''] else [])
      else [''FORGE_AUTH_MODE '' @ gl_quote L (au_Mode (cf_Auth c)) @ '' is invalid (want hmac or jwks)''])"

definition problems :: "'f go_lib \<Rightarrow> 'f config \<Rightarrow> string list" where
  "problems L c =
     (if db_URL (cf_Database c) = [] then [''FORGE_DB_URL is required''] else []) @
     auth_problems L c @
     (if db_MinConns (cf_Database c) > db_MaxConns (cf_Database c)
      then [''FORGE_DB_MIN_CONNS must not exceed FORGE_DB_MAX_CONNS''] else [])"

definition validate :: "'f go_lib \<Rightarrow> 'f config \<Rightarrow> go_error option" where
  "validate L c =
     (if problems L c \<noteq> [] then Some (OtherError (''invalid configuration: '' @ join ''; '' (problems L c))) else None)"

definition read_config :: "'f go_lib \<Rightarrow> environ \<Rightarrow> 'f config" where
  "read_config L e =
     \<lparr>cf_Env = getStr e ''FORGE_ENV'' ''development'', cf_HTTPAddr = httpAddr e,
      cf_ShutdownTimeout = getDur L e ''FORGE_SHUTDOWN_TIMEOUT'' (15 * second),
      cf_Database =
        \<lparr>db_URL = getStr e ''FORGE_DB_URL'' [], db_MaxConns = int32_of (getInt e ''FORGE_DB_MAX_CONNS'' 10),
         db_MinConns = int32_of (getInt e ''FORGE_DB_MIN_CONNS'' 2),
         db_MaxConnLifetime = getDur L e ''FORGE_DB_MAX_CONN_LIFETIME'' (3600 * second),
         db_MaxConnIdleTime = getDur L e ''FORGE_DB_MAX_CONN_IDLE_TIME'' (30 * 60 * second)\<rparr>,
      cf_Auth =
        \<lparr>au_Mode = getStr e ''FORGE_AUTH_MODE'' ''hmac'', au_HMACSecret = getStr e ''FORGE_AUTH_HMAC_SECRET'' [],
         au_JWKSURL = getStr e ''FORGE_AUTH_JWKS_URL'' [], au_Issuer = getStr e ''FORGE_AUTH_ISSUER'' [],
         au_Audience = getStr e ''FORGE_AUTH_AUDIENCE'' []\<rparr>,
      cf_Telemetry =
        \<lparr>te_ServiceName = getStr e ''FORGE_OTEL_SERVICE_NAME'' ''forge-control-plane'',
         te_OTLPEndpoint = getStr e ''FORGE_OTEL_OTLP_ENDPOINT'' []\<rparr>,
      cf_RateLimit =
        \<lparr>rl_RPS = getFloat L e ''FORGE_RATE_LIMIT_RPS'' (gl_float L 50), rl_Burst = getInt e ''FORGE_RATE_LIMIT_BURST'' 100\<rparr>,
      cf_Events =
        \<lparr>ec_NATSURL = getStr e ''FORGE_NATS_URL'' ''nats://localhost:4222'',
         ec_StreamName = getStr e ''FORGE_EVENTS_STREAM'' ''FORGE_EVENTS'',
         ec_SubjectPrefix = getStr e ''FORGE_EVENTS_SUBJECT_PREFIX'' ''forge.events''\<rparr>,
      cf_Relay =
        \<lparr>rc_BatchSize = getInt e ''FORGE_RELAY_BATCH_SIZE'' 100,
         rc_PollInterval = getDur L e ''FORGE_RELAY_POLL_INTERVAL'' second\<rparr>,
      cf_Temporal =
        \<lparr>tc_HostPort = getStr e ''FORGE_TEMPORAL_HOSTPORT'' ''localhost:7233'',
         tc_Namespace = getStr e ''FORGE_TEMPORAL_NAMESPACE'' ''default'',
         tc_TaskQueue = getStr e ''FORGE_TEMPORAL_TASK_QUEUE'' ''forge-provisioning''\<rparr>\<rparr>"

definition Load :: "'f go_lib \<Rightarrow> environ \<Rightarrow> go_error + 'f config" where
  "Load L e =
     (case validate L (read_config L e) of
        Some err \<Rightarrow> Inl err
      | None \<Rightarrow> Inr (read_config L e))"

section \<open>What is accepted\<close>

lemma validate_None:
  "validate L c = None \<longleftrightarrow> db_URL (cf_Database c) \<noteq> [] \<and> db_MinConns (cf_Database c) \<le> db_MaxConns (cf_Database c) \<and>
     (au_Mode (cf_Auth c) = ''hmac'' \<and> au_HMACSecret (cf_Auth c) \<noteq> [] \<and> \<not> IsProduction c \<or>
      au_Mode (cf_Auth c) = ''jwks'' \<and> au_JWKSURL (cf_Auth c) \<noteq> [] \<and> au_Issuer (cf_Auth c) \<noteq> [] \<and> au_Audience (cf_Auth c) \<noteq> [])"
  by (auto simp: validate_def problems_def auth_problems_def)

end
