(* ===== verification/Httpx_Auth.thy ===== *)
theory Httpx_Auth
  imports Httpx Go_Base64 Platform_Config
begin

text \<open>
  \<^verbatim>\<open>internal/platform/httpx/auth.go\<close>: the two token verifiers, the cache of signing keys and the
  middleware that requires a bearer token.

  The JWT package is a parameter: \<open>jl_parse\<close> stands for \<^verbatim>\<open>jwt.ParseWithClaims\<close>, with the key
  function threaded through the state it may change. \<open>jwt_laws\<close> is its documented behaviour: an
  accepted token has a well-formed header with an allowed algorithm, is signed with the key the
  key function returned for it, and its claims pass the validation asked for; the key function
  is called at most once. The key endpoint is the parameter \<open>fetch\<close>: its \<open>n\<close>-th answer is an
  error or a status with a body. \<open>verb\<close> is the \<^verbatim>\<open>%q\<close> verb of the error texts.
\<close>

section \<open>The JWT package\<close>

datatype signing_method = SigningMethodHMAC | SigningMethodRSA | OtherMethod

record rsa_public_key =
  rsa_N :: nat
  rsa_E :: int

datatype jwt_key = SecretKey string | RSAKey rsa_public_key

record claims =
  cl_Subject :: string
  cl_Email :: string
  cl_Groups :: "string list"

record jwt_token =
  jt_method :: signing_method
  jt_alg :: string
  jt_kid :: "string option"
  jt_claims :: claims

record jwt_options =
  jo_ValidMethods :: "string list"
  jo_Issuer :: "string option"
  jo_Audience :: "string option"
  jo_ExpirationRequired :: bool

record 's jwt_lib =
  jl_parse :: "jwt_options \<Rightarrow> time \<Rightarrow> string \<Rightarrow> (jwt_token \<Rightarrow> 's \<Rightarrow> (go_error + jwt_key) \<times> 's) \<Rightarrow> 's \<Rightarrow> (go_error + claims) \<times> 's"
  jl_token :: "string \<Rightarrow> jwt_token option"
  jl_signed :: "string \<Rightarrow> jwt_key \<Rightarrow> bool"
  jl_valid :: "jwt_options \<Rightarrow> time \<Rightarrow> string \<Rightarrow> bool"

definition jwt_laws :: "'s jwt_lib \<Rightarrow> bool" where
  "jwt_laws J \<longleftrightarrow> (\<forall>opts now token kf s r s'. jl_parse J opts now token kf s = (r, s') \<longrightarrow>
     (s' = s \<or> (\<exists>t. jl_token J token = Some t \<and> s' = snd (kf t s))) \<and>
     (\<forall>c. r = Inr c \<longrightarrow> (\<exists>t key. jl_token J token = Some t \<and> jt_alg t \<in> set (jo_ValidMethods opts) \<and>
        kf t s = (Inr key, s') \<and> jl_signed J token key \<and> jl_valid J opts now token \<and> c = jt_claims t)))"

definition principalFromClaims :: "claims \<Rightarrow> principal" where
  "principalFromClaims c = \<lparr>pr_Subject = cl_Subject c, pr_Email = cl_Email c, pr_Groups = cl_Groups c\<rparr>"

definition invalid_token :: go_error where
  "invalid_token = Unauthorized ''INVALID_TOKEN'' ''token verification failed''"

section \<open>Shared secret\<close>

definition hmac_options :: jwt_options where
  "hmac_options = \<lparr>jo_ValidMethods = [''HS256''], jo_Issuer = None, jo_Audience = None, jo_ExpirationRequired = False\<rparr>"

definition HMAC_Verify :: "'s jwt_lib \<Rightarrow> string \<Rightarrow> time \<Rightarrow> string \<Rightarrow> 's \<Rightarrow> (go_error + principal) \<times> 's" where
  "HMAC_Verify J secret now token s =
     (case jl_parse J hmac_options now token
            (\<lambda>t s. (if jt_method t \<noteq> SigningMethodHMAC
                    then Inl (OtherError (''unexpected signing method '' @ jt_alg t))
                    else Inr (SecretKey secret), s)) s of
        (Inl err, s') \<Rightarrow> (Inl invalid_token, s')
      | (Inr c, s') \<Rightarrow> (Inr (principalFromClaims c), s'))"

section \<open>Keys of an identity provider\<close>

record jwks_key =
  jk_Kty :: string
  jk_Kid :: string
  jk_N :: string
  jk_E :: string

definition jwks_key_fields :: "(string \<times> (json \<Rightarrow> jwks_key \<Rightarrow> jwks_key option)) list" where
  "jwks_key_fields =
     [(''kty'', string_field (\<lambda>x k. k\<lparr>jk_Kty := x\<rparr>)), (''kid'', string_field (\<lambda>x k. k\<lparr>jk_Kid := x\<rparr>)),
      (''n'', string_field (\<lambda>x k. k\<lparr>jk_N := x\<rparr>)), (''e'', string_field (\<lambda>x k. k\<lparr>jk_E := x\<rparr>))]"

fun decode_keys :: "json list \<Rightarrow> jwks_key list option" where
  "decode_keys [] = Some []"
| "decode_keys (v # vs) =
     (case decode_struct False jwks_key_fields v \<lparr>jk_Kty = [], jk_Kid = [], jk_N = [], jk_E = []\<rparr> of
        None \<Rightarrow> None
      | Some k \<Rightarrow> map_option ((#) k) (decode_keys vs))"

definition keys_field :: "json \<Rightarrow> jwks_key list \<Rightarrow> jwks_key list option" where
  "keys_field v ks = (case v of JNull \<Rightarrow> Some [] | JArr vs \<Rightarrow> decode_keys vs | _ \<Rightarrow> None)"

definition jwks_document :: "string \<Rightarrow> jwks_key list option" where
  "jwks_document body =
     Option.bind (Decoder_Decode body) (\<lambda>v. decode_struct False [(''keys'', keys_field)] v [])"

text \<open>\<^verbatim>\<open>big.Int.SetBytes\<close> and \<^verbatim>\<open>Int64\<close>, which keeps the low 64 bits.\<close>

definition SetBytes :: "string \<Rightarrow> nat" where
  "SetBytes bytes = foldl (\<lambda>n c. 256 * n + byte c) 0 bytes"

definition Int64 :: "nat \<Rightarrow> int" where
  "Int64 n = (int n + 2 ^ 63) mod 2 ^ 64 - 2 ^ 63"

fun parse_keys :: "jwks_key list \<Rightarrow> (string \<rightharpoonup> rsa_public_key) \<Rightarrow> (string \<rightharpoonup> rsa_public_key) option" where
  "parse_keys [] parsed = Some parsed"
| "parse_keys (k # ks) parsed =
     (if jk_Kty k \<noteq> ''RSA'' then parse_keys ks parsed
      else case DecodeString (jk_N k) of
             None \<Rightarrow> None
           | Some n \<Rightarrow> (case DecodeString (jk_E k) of
               None \<Rightarrow> None
             | Some e \<Rightarrow> parse_keys ks (parsed(jk_Kid k \<mapsto> \<lparr>rsa_N = SetBytes n, rsa_E = Int64 (SetBytes e)\<rparr>))))"

record jwks_verifier =
  jv_issuer :: string
  jv_audience :: string
  jv_ttl :: time
  jv_keys :: "string \<rightharpoonup> rsa_public_key"
  jv_fetched :: "time option"
  jv_requests :: nat

definition NewJWKSVerifier :: "string \<Rightarrow> string \<Rightarrow> jwks_verifier" where
  "NewJWKSVerifier issuer audience =
     \<lparr>jv_issuer = issuer, jv_audience = audience, jv_ttl = 10 * 60 * second, jv_keys = Map.empty,
      jv_fetched = None, jv_requests = 0\<rparr>"

type_synonym key_endpoint = "nat \<Rightarrow> go_error + (nat \<times> string)"

definition refresh :: "key_endpoint \<Rightarrow> time \<Rightarrow> jwks_verifier \<Rightarrow> go_error option \<times> jwks_verifier" where
  "refresh fetch now v =
     (let v' = v\<lparr>jv_requests := Suc (jv_requests v)\<rparr>
      in case fetch (jv_requests v) of
           Inl err \<Rightarrow> (Some err, v')
         | Inr (status, body) \<Rightarrow>
             (if status \<noteq> 200 then (Some (OtherError (''jwks endpoint returned status '' @ FormatInt (int status))), v')
              else case jwks_document body of
                     None \<Rightarrow> (Some (OtherError ''json''), v')
                   | Some ks \<Rightarrow> (case parse_keys ks Map.empty of
                       None \<Rightarrow> (Some (OtherError ''illegal base64 data''), v')
                     | Some parsed \<Rightarrow> (None, v'\<lparr>jv_keys := parsed, jv_fetched := Some now\<rparr>))))"

text \<open>A verifier that never fetched is never fresh: its zero time is centuries ago.\<close>

definition keys_fresh :: "time \<Rightarrow> jwks_verifier \<Rightarrow> bool" where
  "keys_fresh now v = (case jv_fetched v of Some f \<Rightarrow> now - f < jv_ttl v | None \<Rightarrow> False)"

definition keyForKID :: "key_endpoint \<Rightarrow> (string \<Rightarrow> string) \<Rightarrow> time \<Rightarrow> string \<Rightarrow> jwks_verifier \<Rightarrow>
    (go_error + rsa_public_key) \<times> jwks_verifier" where
  "keyForKID fetch verb now kid v =
     (if jv_keys v kid \<noteq> None \<and> keys_fresh now v then (Inr (the (jv_keys v kid)), v)
      else case refresh fetch now v of
             (Some err, v') \<Rightarrow> (Inl err, v')
           | (None, v') \<Rightarrow>
               (case jv_keys v' kid of
                  Some key \<Rightarrow> (Inr key, v')
                | None \<Rightarrow> (Inl (OtherError (''signing key '' @ verb kid @ '' not found in JWKS'')), v')))"

definition jwks_options :: "jwks_verifier \<Rightarrow> jwt_options" where
  "jwks_options v = \<lparr>jo_ValidMethods = [''RS256''], jo_Issuer = Some (jv_issuer v), jo_Audience = Some (jv_audience v),
     jo_ExpirationRequired = True\<rparr>"

definition JWKS_key_function :: "key_endpoint \<Rightarrow> (string \<Rightarrow> string) \<Rightarrow> time \<Rightarrow> jwt_token \<Rightarrow> jwks_verifier \<Rightarrow>
    (go_error + jwt_key) \<times> jwks_verifier" where
  "JWKS_key_function fetch verb now t v =
     (if jt_method t \<noteq> SigningMethodRSA then (Inl (OtherError (''unexpected signing method '' @ jt_alg t)), v)
      else case keyForKID fetch verb now (case jt_kid t of Some kid \<Rightarrow> kid | None \<Rightarrow> []) v of
             (Inl err, v') \<Rightarrow> (Inl err, v')
           | (Inr key, v') \<Rightarrow> (Inr (RSAKey key), v'))"

definition JWKS_Verify :: "jwks_verifier jwt_lib \<Rightarrow> key_endpoint \<Rightarrow> (string \<Rightarrow> string) \<Rightarrow> time \<Rightarrow> string \<Rightarrow> jwks_verifier \<Rightarrow>
    (go_error + principal) \<times> jwks_verifier" where
  "JWKS_Verify J fetch verb now token v =
     (case jl_parse J (jwks_options v) now token (JWKS_key_function fetch verb now) v of
        (Inl err, v') \<Rightarrow> (Inl invalid_token, v')
      | (Inr c, v') \<Rightarrow> (Inr (principalFromClaims c), v'))"

section \<open>The verifier in use\<close>

text \<open>A shared-secret verifier has no state of its own; the package runs on a blank one.\<close>

datatype verifier = HMACVerifier string | JWKSVerifier jwks_verifier

definition Verify :: "jwks_verifier jwt_lib \<Rightarrow> key_endpoint \<Rightarrow> (string \<Rightarrow> string) \<Rightarrow> time \<Rightarrow> string \<Rightarrow> verifier \<Rightarrow>
    (go_error + principal) \<times> verifier" where
  "Verify J fetch verb now token vf =
     (case vf of
        HMACVerifier secret \<Rightarrow> (fst (HMAC_Verify J secret now token (NewJWKSVerifier [] [])), vf)
      | JWKSVerifier v \<Rightarrow> map_prod id JWKSVerifier (JWKS_Verify J fetch verb now token v))"

definition buildVerifier :: "auth_config \<Rightarrow> verifier" where
  "buildVerifier cfg =
     (if au_Mode cfg = ''jwks'' then JWKSVerifier (NewJWKSVerifier (au_Issuer cfg) (au_Audience cfg))
      else HMACVerifier (au_HMACSecret cfg))"

text \<open>\<^verbatim>\<open>Authenticate\<close>: the state is the verifier with what the protected handlers work on.\<close>

definition Authenticate ::
    "(time \<Rightarrow> string \<Rightarrow> 'v \<Rightarrow> (go_error + principal) \<times> 'v) \<Rightarrow> 's handler \<Rightarrow> request \<Rightarrow> 'v \<times> 's \<Rightarrow> outcome \<times> 'v \<times> 's" where
  "Authenticate verify next r s =
     (case s of (v, s1) \<Rightarrow>
       (if \<not> HasPrefix (rq_header r ''Authorization'') ''Bearer ''
        then (Responded (httpx_Error Map.empty r (Unauthorized ''MISSING_TOKEN'' ''a bearer token is required'')), v, s1)
        else case verify (rq_now r) (TrimPrefix (rq_header r ''Authorization'') ''Bearer '') v of
               (Inl err, v') \<Rightarrow> (Responded (httpx_Error Map.empty r err), v', s1)
             | (Inr p, v') \<Rightarrow>
                 (case next (r\<lparr>rq_principal := Some p\<rparr>) s1 of (out, s2) \<Rightarrow> (out, v', s2))))"

section \<open>The key cache\<close>

text \<open>The keys in the cache are those of the last document the endpoint served.\<close>

definition jwks_ok :: "key_endpoint \<Rightarrow> jwks_verifier \<Rightarrow> bool" where
  "jwks_ok fetch v \<longleftrightarrow> 0 < jv_ttl v \<and>
     (jv_keys v = Map.empty \<or> (\<exists>n < jv_requests v. \<exists>body ks. fetch n = Inr (200, body) \<and> jwks_document body = Some ks \<and>
        parse_keys ks Map.empty = Some (jv_keys v)))"

lemma NewJWKSVerifier_ok: "jwks_ok fetch (NewJWKSVerifier issuer audience)"
  by (simp add: jwks_ok_def NewJWKSVerifier_def second_def)

lemma refresh_effect:
  assumes "refresh fetch now v = (r, v')" and "jwks_ok fetch v"
  shows "jwks_ok fetch v'" and "r = None \<Longrightarrow> keys_fresh now v'"
    and "jv_requests v' = Suc (jv_requests v)" and "jwks_options v' = jwks_options v"
proof -
  have old: "jwks_ok fetch (v\<lparr>jv_requests := Suc (jv_requests v)\<rparr>)"
    using assms(2) by (auto simp: jwks_ok_def intro: less_SucI)
  consider "r \<noteq> None" "v' = v\<lparr>jv_requests := Suc (jv_requests v)\<rparr>"
    | body ks parsed where "fetch (jv_requests v) = Inr (200, body)" "jwks_document body = Some ks"
      "parse_keys ks Map.empty = Some parsed"
      "v' = v\<lparr>jv_requests := Suc (jv_requests v), jv_keys := parsed, jv_fetched := Some now\<rparr>"
    using assms(1) by (auto simp: refresh_def Let_def split: sum.splits prod.splits if_splits option.splits)
  then have "jwks_ok fetch v' \<and> (r = None \<longrightarrow> keys_fresh now v') \<and> jv_requests v' = Suc (jv_requests v) \<and> jwks_options v' = jwks_options v"
  proof cases
    case 1
    with old show ?thesis by (auto simp: jwks_options_def)
  next
    case (2 body ks parsed)
    then have "\<exists>n < jv_requests v'. \<exists>body ks. fetch n = Inr (200, body) \<and> jwks_document body = Some ks \<and>
        parse_keys ks Map.empty = Some (jv_keys v')"
      by (intro exI [of _ "jv_requests v"]) simp
    with 2(4) assms(2) show ?thesis by (simp add: jwks_ok_def keys_fresh_def jwks_options_def)
  qed
  then show "jwks_ok fetch v'" "r = None \<Longrightarrow> keys_fresh now v'" "jv_requests v' = Suc (jv_requests v)" "jwks_options v' = jwks_options v"
    by simp_all
qed

lemma keyForKID_effect:
  assumes "keyForKID fetch verb now kid v = (r, v')" and "jwks_ok fetch v"
  shows "jwks_ok fetch v'" and "r = Inr key \<Longrightarrow> jv_keys v' kid = Some key \<and> keys_fresh now v'"
    and "jv_requests v' \<le> Suc (jv_requests v)" and "jwks_options v' = jwks_options v"
proof -
  obtain q w where w: "refresh fetch now v = (q, w)" by fastforce
  note e = refresh_effect [OF w assms(2)]
  show "jwks_ok fetch v'" "jv_requests v' \<le> Suc (jv_requests v)" "jwks_options v' = jwks_options v"
    using assms w e by (auto simp: keyForKID_def split: if_splits option.splits)
  show "jv_keys v' kid = Some key \<and> keys_fresh now v'" if "r = Inr key"
    using that assms(1) w e(2) by (auto simp: keyForKID_def split: if_splits option.splits)
qed

lemma JWKS_key_function_effect:
  assumes "JWKS_key_function fetch verb now t v = (r, v')" and "jwks_ok fetch v"
  shows "jwks_ok fetch v'" and "jv_requests v' \<le> Suc (jv_requests v)" and "jwks_options v' = jwks_options v"
    and "r = Inr key \<Longrightarrow> jt_method t = SigningMethodRSA \<and> (\<exists>kid k. key = RSAKey k \<and> jv_keys v' kid = Some k \<and> keys_fresh now v')"
proof -
  let ?kid = "case jt_kid t of Some kid \<Rightarrow> kid | None \<Rightarrow> []"
  obtain q w where w: "keyForKID fetch verb now ?kid v = (q, w)" by fastforce
  note e = keyForKID_effect [OF w assms(2)]
  show "jwks_ok fetch v'" "jv_requests v' \<le> Suc (jv_requests v)" "jwks_options v' = jwks_options v"
    using assms w e by (auto simp: JWKS_key_function_def split: if_splits sum.splits)
  show "jt_method t = SigningMethodRSA \<and> (\<exists>kid k. key = RSAKey k \<and> jv_keys v' kid = Some k \<and> keys_fresh now v')" if "r = Inr key"
    using that assms(1) w e(2) by (auto simp: JWKS_key_function_def split: if_splits sum.splits)
qed

text \<open>What a verified token is.\<close>

definition authentic :: "jwks_verifier jwt_lib \<Rightarrow> key_endpoint \<Rightarrow> time \<Rightarrow> string \<Rightarrow> jwks_verifier \<Rightarrow> principal \<Rightarrow> bool" where
  "authentic J fetch now token v p \<longleftrightarrow>
     (\<exists>t kid key. jl_token J token = Some t \<and> jt_method t = SigningMethodRSA \<and> jt_alg t = ''RS256'' \<and>
        jl_signed J token (RSAKey key) \<and> jv_keys v kid = Some key \<and> keys_fresh now v \<and>
        jl_valid J (jwks_options v) now token \<and> p = principalFromClaims (jt_claims t))"

lemma JWKS_Verify_effect:
  assumes "jwt_laws J" and "jwks_ok fetch v" and "JWKS_Verify J fetch verb now token v = (r, v')"
  shows "jwks_ok fetch v'" and "jwks_options v' = jwks_options v" and "jv_requests v' \<le> Suc (jv_requests v)"
    and "r = Inr p \<Longrightarrow> authentic J fetch now token v' p"
    and "r = Inl err \<Longrightarrow> err = invalid_token"
proof -
  let ?kf = "JWKS_key_function fetch verb now"
  obtain q where q: "jl_parse J (jwks_options v) now token ?kf v = (q, v')"
    "r = (case q of Inl e \<Rightarrow> Inl invalid_token | Inr c \<Rightarrow> Inr (principalFromClaims c))"
    using assms(3) by (auto simp: JWKS_Verify_def split: prod.splits sum.splits)
  have law: "v' = v \<or> (\<exists>t. jl_token J token = Some t \<and> v' = snd (?kf t v))"
    "\<And>c. q = Inr c \<Longrightarrow> \<exists>t key. jl_token J token = Some t \<and> jt_alg t \<in> set (jo_ValidMethods (jwks_options v)) \<and>
        ?kf t v = (Inr key, v') \<and> jl_signed J token key \<and> jl_valid J (jwks_options v) now token \<and> c = jt_claims t"
    using assms(1) q(1) unfolding jwt_laws_def by blast+
  have kf: "jwks_ok fetch (snd (?kf t v))" "jwks_options (snd (?kf t v)) = jwks_options v"
    "jv_requests (snd (?kf t v)) \<le> Suc (jv_requests v)" for t
    using JWKS_key_function_effect(1-3) [OF _ assms(2)] by (metis prod.collapse)+
  show "jwks_ok fetch v'" "jwks_options v' = jwks_options v" "jv_requests v' \<le> Suc (jv_requests v)"
    using law(1) kf assms(2) by auto
  show "err = invalid_token" if "r = Inl err" using that q(2) by (auto split: sum.splits)
  show "authentic J fetch now token v' p" if r: "r = Inr p"
  proof -
    obtain c where c: "q = Inr c" "p = principalFromClaims c" using r q(2) by (cases q) auto
    obtain t key where t: "jl_token J token = Some t" "jt_alg t \<in> set (jo_ValidMethods (jwks_options v))"
      "?kf t v = (Inr key, v')" "jl_signed J token key" "jl_valid J (jwks_options v) now token" "c = jt_claims t"
      using law(2) [OF c(1)] by blast
    note e = JWKS_key_function_effect [OF t(3) assms(2)]
    show ?thesis
      unfolding authentic_def using t c(2) e(3) e(4) [OF refl] by (auto simp: jwks_options_def)
  qed
qed

section \<open>Properties\<close>

lemma unauthorized_status [simp]: "rs_status (httpx_Error hs r (Unauthorized code message)) = 401"
  by (simp add: httpx_Error_def JSON_def Unauthorized_def New_def)

text \<open>
  An instance of the JWT package: a token is its text, claimed to be signed with the key of
  modulus 5, and every claim is valid.
\<close>

definition example_token :: jwt_token where
  "example_token = \<lparr>jt_method = SigningMethodRSA, jt_alg = ''RS256'', jt_kid = Some ''k1'',
     jt_claims = \<lparr>cl_Subject = ''alice'', cl_Email = [], cl_Groups = []\<rparr>\<rparr>"

definition example_jwt :: "'s jwt_lib" where
  "example_jwt =
     \<lparr>jl_parse = (\<lambda>opts now token kf s.
        if token = ''good'' \<and> ''RS256'' \<in> set (jo_ValidMethods opts)
        then (case kf example_token s of
                (Inl err, s') \<Rightarrow> (Inl err, s')
              | (Inr key, s') \<Rightarrow>
                  (if key = RSAKey \<lparr>rsa_N = 5, rsa_E = 3\<rparr> then (Inr (jt_claims example_token), s')
                   else (Inl (OtherError ''signature is invalid''), s')))
        else (Inl (OtherError ''token is malformed''), s)),
      jl_token = (\<lambda>token. if token = ''good'' then Some example_token else None),
      jl_signed = (\<lambda>token key. key = RSAKey \<lparr>rsa_N = 5, rsa_E = 3\<rparr>), jl_valid = (\<lambda>opts now token. True)\<rparr>"

lemma example_jwt_laws [simp]: "jwt_laws example_jwt"
proof -
  have "(s' = s \<or> (\<exists>t. jl_token example_jwt token = Some t \<and> s' = snd (kf t s))) \<and>
     (\<forall>c. r = Inr c \<longrightarrow> (\<exists>t key. jl_token example_jwt token = Some t \<and> jt_alg t \<in> set (jo_ValidMethods opts) \<and>
        kf t s = (Inr key, s') \<and> jl_signed example_jwt token key \<and> jl_valid example_jwt opts now token \<and> c = jt_claims t))"
    if "jl_parse example_jwt opts now token kf s = (r, s')" for opts now token kf and s :: 's and r s'
    using that
    by (auto simp: example_jwt_def example_token_def split: if_splits prod.splits sum.splits)
  then show ?thesis unfolding jwt_laws_def by blast
qed

text \<open>
  C34: No request gets past authentication without a genuine token. With the identity provider's
  keys, a request is either answered 401 with nothing of the protected state touched, or it
  carried a bearer token signed under RS256 with a key that the provider's latest document
  holds, that document being younger than the cache's lifetime, and valid for the configured
  issuer and audience; and the handler ran with the principal of that token's claims. The cache
  only ever holds keys that the endpoint served, and at most one fetch is made.
\<close>

theorem api_request_authentic:
  assumes "jwt_laws J" and "jwks_ok fetch v"
    and "Authenticate (JWKS_Verify J fetch verb) next r (v, s) = (out, v', s')"
  shows "jwks_ok fetch v' \<and> jv_requests v' \<le> Suc (jv_requests v) \<and>
    (s' = s \<and> (\<exists>rs. out = Responded rs \<and> rs_status rs = 401) \<or>
     (\<exists>p. HasPrefix (rq_header r ''Authorization'') ''Bearer '' \<and>
        authentic J fetch (rq_now r) (TrimPrefix (rq_header r ''Authorization'') ''Bearer '') v' p \<and>
        next (r\<lparr>rq_principal := Some p\<rparr>) s = (out, s')))"
proof (cases "HasPrefix (rq_header r ''Authorization'') ''Bearer ''")
  case False
  with assms(2,3) show ?thesis
    by (auto simp: Authenticate_def)
next
  case True
  obtain q w where w: "JWKS_Verify J fetch verb (rq_now r) (TrimPrefix (rq_header r ''Authorization'') ''Bearer '') v = (q, w)"
    by fastforce
  note e = JWKS_Verify_effect [OF assms(1,2) w]
  show ?thesis
  proof (cases q)
    case (Inl err)
    with assms(3) w True e show ?thesis
      by (auto simp: Authenticate_def invalid_token_def)
  next
    case (Inr p)
    with assms(3) w True e(1,3) e(4) [OF Inr] show ?thesis
      by (auto simp: Authenticate_def split: prod.splits)
  qed
qed

definition example_document :: string where
  \<open>example_document = ''{"keys":[{"kty":"RSA","kid":"k1","n":"BQ","e":"Aw"}]}''\<close>

definition example_endpoint :: key_endpoint where
  "example_endpoint n = Inr (200, example_document)"

lemma example_keys:
  "jwks_document example_document = Some [\<lparr>jk_Kty = ''RSA'', jk_Kid = ''k1'', jk_N = ''BQ'', jk_E = ''Aw''\<rparr>]"
  "parse_keys [\<lparr>jk_Kty = ''RSA'', jk_Kid = ''k1'', jk_N = ''BQ'', jk_E = ''Aw''\<rparr>] Map.empty = Some [''k1'' \<mapsto> \<lparr>rsa_N = 5, rsa_E = 3\<rparr>]"
proof -
  show "jwks_document example_document = Some [\<lparr>jk_Kty = ''RSA'', jk_Kid = ''k1'', jk_N = ''BQ'', jk_E = ''Aw''\<rparr>]" by code_simp
  have "DecodeString ''BQ'' = Some [CHR 0x05]" "DecodeString ''Aw'' = Some [CHR 0x03]" by code_simp+
  then show "parse_keys [\<lparr>jk_Kty = ''RSA'', jk_Kid = ''k1'', jk_N = ''BQ'', jk_E = ''Aw''\<rparr>] Map.empty =
      Some [''k1'' \<mapsto> \<lparr>rsa_N = 5, rsa_E = 3\<rparr>]"
    by (simp add: SetBytes_def Int64_def)
qed

theorem api_request_authentic_witness:
  "\<exists>p v'. authentic example_jwt example_endpoint 7 ''good'' v' p \<and> pr_Subject p = ''alice'' \<and> jv_requests v' \<le> 1"
proof -
  let ?r = "example_request\<lparr>rq_header := (\<lambda>k. ''Bearer good''), rq_now := 7\<rparr>" and ?v = "NewJWKSVerifier ''iss'' ''aud''"
  let ?next = "\<lambda>r s. (Responded (JSON Map.empty 200 None), Suc s)"
  obtain out v' s' where a: "Authenticate (JWKS_Verify example_jwt example_endpoint id) ?next ?r (?v, 0 :: nat) = (out, v', s')"
    by (metis prod.exhaust)
  have tok: "HasPrefix ''Bearer good'' ''Bearer ''" "TrimPrefix ''Bearer good'' ''Bearer '' = ''good''"
    by (simp_all add: HasPrefix_def TrimPrefix_def)
  let ?w = "?v\<lparr>jv_requests := 1, jv_keys := [''k1'' \<mapsto> \<lparr>rsa_N = 5, rsa_E = 3\<rparr>], jv_fetched := Some 7\<rparr>"
  have "refresh example_endpoint 7 ?v = (None, ?w)"
    by (simp add: refresh_def example_endpoint_def example_keys NewJWKSVerifier_def del: parse_keys.simps)
  then have "keyForKID example_endpoint id 7 ''k1'' ?v = (Inr \<lparr>rsa_N = 5, rsa_E = 3\<rparr>, ?w)"
    by (simp add: keyForKID_def NewJWKSVerifier_def)
  then have "JWKS_key_function example_endpoint id 7 example_token ?v = (Inr (RSAKey \<lparr>rsa_N = 5, rsa_E = 3\<rparr>), ?w)"
    by (simp add: JWKS_key_function_def example_token_def)
  then have "JWKS_Verify example_jwt example_endpoint id 7 ''good'' ?v = (Inr (principalFromClaims (jt_claims example_token)), ?w)"
    by (simp add: JWKS_Verify_def example_jwt_def jwks_options_def)
  then have "s' = 1" using a tok by (simp add: Authenticate_def)
  then show ?thesis
    using api_request_authentic [OF example_jwt_laws NewJWKSVerifier_ok a] tok
    by (auto simp: authentic_def example_jwt_def example_token_def principalFromClaims_def NewJWKSVerifier_def)
qed

text \<open>
  C37: Production never runs on a shared secret. A configuration that loads with the environment
  \<^verbatim>\<open>production\<close> makes the server verify tokens against an identity provider, with a non-empty
  issuer and audience; and every configuration that loads has a database, a pool whose bounds
  are 32-bit values in order, and, where a secret is used, a secret that is not empty.
\<close>

theorem production_uses_jwks:
  assumes "Load L e = Inr c"
  shows "(IsProduction c \<longrightarrow>
      (\<exists>v. buildVerifier (cf_Auth c) = JWKSVerifier v \<and> jv_issuer v \<noteq> [] \<and> jv_audience v \<noteq> [])) \<and>
    buildVerifier (cf_Auth c) \<noteq> HMACVerifier [] \<and> db_URL (cf_Database c) \<noteq> [] \<and>
    db_MinConns (cf_Database c) \<le> db_MaxConns (cf_Database c) \<and> in_int32 (db_MaxConns (cf_Database c))"
proof -
  have c: "validate L c = None" "c = read_config L e" using assms by (auto simp: Load_def split: option.splits)
  have "in_int32 (db_MaxConns (cf_Database c))" by (simp add: c(2) read_config_def int32_of_range)
  with c(1) show ?thesis by (auto simp: validate_None buildVerifier_def NewJWKSVerifier_def)
qed

theorem production_uses_jwks_witness:
  "\<exists>c v. Load \<lparr>gl_ParseFloat = (\<lambda>s. None), gl_float = (\<lambda>i. i), gl_ParseDuration = (\<lambda>s. None), gl_quote = id\<rparr>
      [''FORGE_ENV'' \<mapsto> ''production'', ''FORGE_DB_URL'' \<mapsto> ''postgres://db'', ''FORGE_AUTH_MODE'' \<mapsto> ''jwks'',
       ''FORGE_AUTH_JWKS_URL'' \<mapsto> ''https://idp/keys'', ''FORGE_AUTH_ISSUER'' \<mapsto> ''idp'', ''FORGE_AUTH_AUDIENCE'' \<mapsto> ''forge''] = Inr c \<and>
    buildVerifier (cf_Auth c) = JWKSVerifier v \<and> jv_issuer v \<noteq> []"
proof -
  let ?L = "\<lparr>gl_ParseFloat = (\<lambda>s. None), gl_float = (\<lambda>i. i), gl_ParseDuration = (\<lambda>s. None), gl_quote = id\<rparr> :: int go_lib"
  let ?e = "[''FORGE_ENV'' \<mapsto> ''production'', ''FORGE_DB_URL'' \<mapsto> ''postgres://db'', ''FORGE_AUTH_MODE'' \<mapsto> ''jwks'',
       ''FORGE_AUTH_JWKS_URL'' \<mapsto> ''https://idp/keys'', ''FORGE_AUTH_ISSUER'' \<mapsto> ''idp'', ''FORGE_AUTH_AUDIENCE'' \<mapsto> ''forge'']"
  have "validate ?L (read_config ?L ?e) = None"
    by (simp add: validate_None read_config_def getStr_def getInt_def int32_of_def)
  then obtain c where c: "Load ?L ?e = Inr c" "c = read_config ?L ?e" by (simp add: Load_def)
  have "IsProduction c" by (simp add: c(2) IsProduction_def read_config_def getStr_def)
  with c(1) production_uses_jwks [OF c(1)] show ?thesis by blast
qed

end
