(* ===== verification/Event_Log.thy ===== *)
theory Event_Log
  imports Forge_Db
begin

text \<open>
  The outbox as the event log of an aggregate type. The rows of one aggregate are those with its
  identifier and an event type of its module; \<open>log_inv\<close> says that every stored aggregate is told by
  its rows, and that no row of the module belongs to an unknown aggregate. The locale collects how
  the steps of the system change a log: a new aggregate, a changed one, events of another module,
  and rows marked as published.
\<close>

definition log_of :: "string \<Rightarrow> db \<Rightarrow> uuid \<Rightarrow> outbox_row list" where
  "log_of prefix d i = filter (\<lambda>x. ob_aggregate_id x = i \<and> HasPrefix (ob_event_type x) prefix) (outbox_events d)"

definition log_inv ::
    "(db \<Rightarrow> 'r list) \<Rightarrow> ('r \<Rightarrow> uuid) \<Rightarrow> string \<Rightarrow> (outbox_row list \<Rightarrow> 'r \<Rightarrow> bool) \<Rightarrow> db \<Rightarrow> bool" where
  "log_inv rows rid prefix tells d \<longleftrightarrow>
     (\<forall>r \<in> set (rows d). tells (log_of prefix d (rid r)) r) \<and>
     (\<forall>x \<in> set (outbox_events d). HasPrefix (ob_event_type x) prefix \<longrightarrow> ob_aggregate_id x \<in> rid ` set (rows d))"

text \<open>A row without the mark that it was published.\<close>

definition unmark :: "outbox_row \<Rightarrow> outbox_row" where
  "unmark r = r\<lparr>ob_published_at := None\<rparr>"

lemma unmark_fields [simp]:
  "ob_aggregate_id (unmark x) = ob_aggregate_id x" "ob_event_type (unmark x) = ob_event_type x"
  "ob_payload (unmark x) = ob_payload x" "ob_id (unmark x) = ob_id x"
  by (simp_all add: unmark_def)

lemma filter_unmark:
  assumes "map unmark xs = map unmark ys" and "\<And>x. P (unmark x) = P x"
  shows "map unmark (filter P xs) = map unmark (filter P ys)"
proof -
  have "map unmark (filter P zs) = filter P (map unmark zs)" for zs
    using assms(2) by (induction zs) auto
  with assms(1) show ?thesis by simp
qed

lemma map_unmark_field:
  assumes "map unmark xs = map unmark ys" and "\<And>x. f (unmark x) = f x"
  shows "map f xs = map f ys"
proof -
  have "map f zs = map f (map unmark zs)" for zs using assms(2) by simp
  with assms(1) show ?thesis by metis
qed

lemma log_of_append:
  assumes "outbox_events d' = outbox_events d @ new"
    and "\<forall>x \<in> set new. ob_aggregate_id x = j \<and> HasPrefix (ob_event_type x) prefix"
  shows "log_of prefix d' i = (if i = j then log_of prefix d i @ new else log_of prefix d i)"
  using assms by (auto simp: log_of_def filter_id_conv filter_empty_conv)

locale event_log =
  fixes rows :: "db \<Rightarrow> 'r list" and rid :: "'r \<Rightarrow> uuid" and prefix :: string
    and tells :: "outbox_row list \<Rightarrow> 'r \<Rightarrow> bool"
  assumes told_by: "map ob_payload xs = map ob_payload ys \<Longrightarrow> map ob_event_type xs = map ob_event_type ys \<Longrightarrow>
      tells xs r \<Longrightarrow> tells ys r"
begin

lemma marked:
  assumes "log_inv rows rid prefix tells d" and "rows d' = rows d"
    and "map unmark (outbox_events d') = map unmark (outbox_events d)"
  shows "log_inv rows rid prefix tells d'"
proof -
  have log: "map unmark (log_of prefix d i) = map unmark (log_of prefix d' i)" for i
    unfolding log_of_def using assms(3) by (intro filter_unmark) simp_all
  have "tells (log_of prefix d (rid r)) r \<Longrightarrow> tells (log_of prefix d' (rid r)) r" for r
    by (erule told_by [rotated -1]) (rule map_unmark_field [OF log], simp)+
  moreover have "(\<lambda>x. (ob_event_type x, ob_aggregate_id x)) ` set (outbox_events d') =
      (\<lambda>x. (ob_event_type x, ob_aggregate_id x)) ` set (outbox_events d)"
    using arg_cong [OF map_unmark_field [OF assms(3), of "\<lambda>x. (ob_event_type x, ob_aggregate_id x)"], of set] by simp
  then have "\<exists>y \<in> set (outbox_events d). ob_event_type y = ob_event_type x \<and> ob_aggregate_id y = ob_aggregate_id x"
    if "x \<in> set (outbox_events d')" for x
    using imageI [OF that, of "\<lambda>x. (ob_event_type x, ob_aggregate_id x)"] by auto
  ultimately show ?thesis using assms(1,2) unfolding log_inv_def by metis
qed

lemma foreign:
  assumes "log_inv rows rid prefix tells d" and "rows d' = rows d" and "outbox_events d' = outbox_events d @ new"
    and "\<forall>x \<in> set new. \<not> HasPrefix (ob_event_type x) prefix"
  shows "log_inv rows rid prefix tells d'"
proof -
  have "log_of prefix d' i = log_of prefix d i" for i
    using assms(3,4) by (auto simp: log_of_def filter_empty_conv)
  with assms show ?thesis by (auto simp: log_inv_def)
qed

lemma added:
  assumes "log_inv rows rid prefix tells d" and "rows d' = rows d @ [r]" and "rid r \<notin> rid ` set (rows d)"
    and "outbox_events d' = outbox_events d @ new"
    and "\<forall>x \<in> set new. ob_aggregate_id x = rid r \<and> HasPrefix (ob_event_type x) prefix" and "tells new r"
  shows "log_inv rows rid prefix tells d'"
proof -
  note log = log_of_append [OF assms(4,5)]
  have "log_of prefix d (rid r) = []"
    unfolding log_of_def filter_empty_conv using assms(1,3) unfolding log_inv_def by metis
  then have "tells (log_of prefix d' (rid r)) r" using assms(6) by (simp add: log)
  moreover have "tells (log_of prefix d' (rid q)) q" if "q \<in> set (rows d)" for q
  proof -
    have "rid q \<noteq> rid r" using that assms(3) by (metis imageI)
    then show ?thesis using that assms(1) by (simp add: log log_inv_def)
  qed
  ultimately show ?thesis using assms(1,2,4,5) by (auto simp: log_inv_def)
qed

lemma changed:
  assumes "log_inv rows rid prefix tells d" and "r \<in> set (rows d)" and "rid r' = rid r"
    and "rows d' = map (\<lambda>q. if rid q = rid r then r' else q) (rows d)"
    and "outbox_events d' = outbox_events d @ new"
    and "\<forall>x \<in> set new. ob_aggregate_id x = rid r \<and> HasPrefix (ob_event_type x) prefix"
    and "tells (log_of prefix d (rid r)) r \<Longrightarrow> tells (log_of prefix d (rid r) @ new) r'"
  shows "log_inv rows rid prefix tells d'"
proof -
  note log = log_of_append [OF assms(5,6)]
  have ids: "rid ` set (rows d') = rid ` set (rows d)"
    unfolding assms(4) set_map image_image by (rule image_cong) (simp_all add: assms(3))
  have "tells (log_of prefix d' (rid r)) r'" using assms(1,2,7) by (simp add: log log_inv_def)
  then have "\<forall>q \<in> set (rows d'). tells (log_of prefix d' (rid q)) q"
    using assms(1,3) unfolding assms(4) by (auto simp: log log_inv_def)
  moreover have "\<forall>x \<in> set (outbox_events d'). HasPrefix (ob_event_type x) prefix \<longrightarrow> ob_aggregate_id x \<in> rid ` set (rows d)"
    using assms(1,2,5,6) by (auto simp: log_inv_def)
  ultimately show ?thesis by (simp add: log_inv_def ids)
qed

end

end
