(* ===== verification/Catalog_Log.thy ===== *)
theory Catalog_Log
  imports Catalog_Store Event_Log
begin

text \<open>
  The outbox as the catalog's event log. The commands write events and state in one
  transaction; here that is carried to a refinement: replaying the outbox rows of a service,
  in the order they were appended, gives the state in its row, and their number is the
  row's version.
\<close>

abbreviation service_log :: "db \<Rightarrow> uuid \<Rightarrow> outbox_row list" where
  "service_log \<equiv> log_of ''catalog.''"

definition logs :: "outbox_row list \<Rightarrow> catalog_service_row \<Rightarrow> bool" where
  "logs xs r \<longleftrightarrow>
     (\<exists>es team. map ob_payload xs = map envelope es \<and> map ob_event_type xs = map EventType es \<and>
        replay ([], team) es = Some (cs_lifecycle r, cs_owning_team r) \<and>
        cs_version r = int64 (int (length es)))"

definition log_ok :: "db \<Rightarrow> bool" where
  "log_ok = log_inv catalog_services cs_id ''catalog.'' logs"

interpretation cl: event_log catalog_services cs_id "''catalog.''" logs
  by unfold_locales (auto simp: logs_def)

lemma replay_append:
  "replay v (es @ fs) = (case replay v es of None \<Rightarrow> None | Some v' \<Rightarrow> replay v' fs)"
  by (induction es arbitrary: v) (auto split: option.splits)

lemma EventType_catalog [simp]: "HasPrefix (EventType e) ''catalog.''"
  by (cases e) (simp_all add: HasPrefix_def)

text \<open>Events carry the identifier of the aggregate that recorded them.\<close>

lemma service_step_aggregate:
  assumes "service_step U s x = Inr s'" and "\<forall>e \<in> set (svc_events s). AggregateID e = ServiceID_String U (svc_id s)"
  shows "\<forall>e \<in> set (svc_events s'). AggregateID e = ServiceID_String U (svc_id s)"
  using assms by (cases x) (auto simp: forge_defs AggregateID_def split: if_splits)

lemma outbox_rows_of_maps:
  "map ob_payload (outbox_rows_of E n k es) = map envelope es"
  "map ob_event_type (outbox_rows_of E n k es) = map EventType es"
  by (induction es arbitrary: k) (simp_all add: outbox_row_of_def)

lemma outbox_rows_of_aggregate:
  assumes "uuid_laws (env_uuid E)"
    and "\<forall>e \<in> set es. AggregateID e = ServiceID_String (env_uuid E) i"
  shows "\<forall>x \<in> set (outbox_rows_of E n k es). ob_aggregate_id x = ServiceID_UUID i \<and>
    HasPrefix (ob_event_type x) ''catalog.''"
  using assms by (induction es arbitrary: k) (auto simp: outbox_row_of_def ServiceID_String_def)

lemma logs_append:
  assumes "logs xs (row_of s)" and "svc_events s = []" and "service_step U s x = Inr svc"
    and "in_int64 (svc_version s)"
  shows "logs (xs @ outbox_rows_of E n k (svc_events svc)) (row_of svc)"
proof -
  from assms(1) obtain es team where es: "map ob_payload xs = map envelope es"
      "map ob_event_type xs = map EventType es" "replay ([], team) es = Some (view_of s)"
      "svc_version s = int64 (int (length es))"
    by (auto simp: logs_def row_of_def view_of_def)
  have "replay (view_of s) (svc_events svc) = Some (view_of svc)"
    using service_step_replay [OF _ assms(3)] assms(2) by simp
  with es(3) have "replay ([], team) (es @ svc_events svc) = Some (view_of svc)"
    by (simp add: replay_append)
  moreover have "svc_version svc = int64 (int (length (es @ svc_events svc)))"
    using sv.step_records [OF assms(3)] assms(2) es(4) by (auto simp: int64_add)
  ultimately show ?thesis
    unfolding logs_def using es(1,2)
    by (intro exI [of _ "es @ svc_events svc"] exI [of _ team])
      (simp add: outbox_rows_of_maps row_of_def view_of_def)
qed

lemma log_ok_registered:
  assumes "log_ok d" and new: "new_service_row d (row_of svc)" and U: "uuid_laws (env_uuid E)"
    and svc: "svc = Register (env_uuid E) i tenantID name desc t u own now"
    and S: "catalog_services d' = catalog_services d @ [row_of svc]"
    and O: "outbox_events d' = outbox_events d @ outbox_rows_of E n k (svc_events svc)"
  shows "log_ok d'"
proof -
  have id: "cs_id (row_of svc) = ServiceID_UUID i"
    by (simp add: svc Register_def Service_record_def row_of_def)
  have agg: "\<forall>x \<in> set (outbox_rows_of E n k (svc_events svc)).
      ob_aggregate_id x = cs_id (row_of svc) \<and> HasPrefix (ob_event_type x) ''catalog.''"
    using outbox_rows_of_aggregate [OF U, of "svc_events svc" i n k] id
    by (simp add: svc Register_def Service_record_def AggregateID_def)
  have "logs (outbox_rows_of E n k (svc_events svc)) (row_of svc)"
    using Register_replay [of own "env_uuid E" i tenantID name desc t u now, folded svc]
    unfolding logs_def
    by (intro exI [of _ "svc_events svc"] exI [of _ "OwningTeam own"])
      (simp add: outbox_row_of_def view_of_def row_of_def svc Register_def Service_record_def int64_def)
  moreover have "cs_id (row_of svc) \<notin> cs_id ` set (catalog_services d)"
    using new by (auto simp: new_service_row_def)
  ultimately show ?thesis using assms(1) cl.added [OF _ S _ O agg] by (simp add: log_ok_def)
qed

lemma log_ok_changed:
  assumes ok: "catalog_ok d" and "log_ok d" and U: "uuid_laws (env_uuid E)"
    and s: "row_of s \<in> set (catalog_services d)" "svc_events s = []" "service_ok s"
    and x: "service_step (env_uuid E) s x = Inr svc"
  shows "log_ok (cas_db i svc (svc_version s) (outbox_rows_of E n k (svc_events svc)) d)"
proof -
  let ?new = "outbox_rows_of E n k (svc_events svc)" and ?j = "ServiceID_UUID (svc_id s)"
  have j: "cs_id (row_of s) = ?j" "cs_id (row_of svc) = ?j"
    using service_step_frame [OF x] by (simp_all add: row_of_def)
  have agg: "\<forall>x \<in> set ?new. ob_aggregate_id x = cs_id (row_of s) \<and> HasPrefix (ob_event_type x) ''catalog.''"
    using outbox_rows_of_aggregate [OF U service_step_aggregate [OF x]] s(2) j by simp
  have "catalog_services (cas_db i svc (svc_version s) ?new d) =
      map (\<lambda>q. if cs_id q = cs_id (row_of s) then row_of svc else q) (catalog_services d)"
    using cas_services [OF ok s(1) x, of i ?new] j by simp
  moreover have "logs xs (row_of s) \<Longrightarrow> logs (xs @ ?new) (row_of svc)" for xs
    using logs_append [OF _ s(2) x] s(3) by (auto simp: service_ok_def)
  ultimately show ?thesis
    using assms(2) cl.changed [OF _ s(1) _ _ _ agg, of "row_of svc"] j by (simp add: log_ok_def)
qed

lemma catalog_command_log_ok [forge_inv]:
  assumes "catalog_command E now q w = (r, w')" and "catalog_ok (w_db w)" and "uuid_laws (env_uuid E)"
    and "log_ok (w_db w)"
  shows "log_ok (w_db w')"
  using assms(1-3)
proof (cases rule: catalog_command_effect)
  case (unchanged e)
  with assms(4) show ?thesis by simp
next
  case (registered svc tenantID name d t u own i k n)
  then show ?thesis using log_ok_registered [OF assms(4) registered(3) assms(3) registered(2)] by simp
next
  case (changed s x svc k n)
  then show ?thesis using log_ok_changed [OF assms(2,4,3) changed(5,4,3,2)] by simp
qed

lemma catalog_history_log_ok:
  assumes "catalog_ok (w_db w)" and "log_ok (w_db w)" and "\<forall>(E, now, q) \<in> set qs. uuid_laws (env_uuid E)"
  shows "log_ok (w_db (catalog_history qs w))"
  using assms
proof (induction qs arbitrary: w)
  case (Cons x qs)
  obtain E now q where x: "x = (E, now, q)" by (cases x)
  obtain r w' where c: "catalog_command E now q w = (r, w')" by fastforce
  have U: "uuid_laws (env_uuid E)" using Cons.prems x by auto
  have "catalog_ok (w_db w')" "log_ok (w_db w')"
    by (auto intro: catalog_command_ok [OF c _ U] catalog_command_log_ok [OF c _ U] Cons.prems)
  then show ?case using Cons x c by simp
qed simp

lemma log_ok_empty [simp]: "log_ok empty_db"
  by (simp add: log_ok_def log_inv_def empty_db_def)

section \<open>Properties\<close>

text \<open>
  The outbox is a complete log of the catalog. After any history of requests and faults,
  the outbox rows of a service are the envelopes of a list of domain events, in order, whose
  number is the version in the service's row and whose replay gives the lifecycle and owning
  team in that row: no event is lost, duplicated, or emitted for a change that was rolled back.
\<close>

lemma outbox_is_event_log:
  assumes "w_db w = empty_db" and "\<forall>(E, now, q) \<in> set qs. uuid_laws (env_uuid E)"
  shows "let d = w_db (catalog_history qs w)
    in \<forall>r \<in> set (catalog_services d). \<exists>es team.
         map ob_payload (service_log d (cs_id r)) = map envelope es \<and>
         map ob_event_type (service_log d (cs_id r)) = map EventType es \<and>
         replay ([], team) es = Some (cs_lifecycle r, cs_owning_team r) \<and>
         cs_version r = int64 (int (length es))"
proof -
  have "log_ok (w_db (catalog_history qs w))"
    using assms by (intro catalog_history_log_ok) simp_all
  then show ?thesis by (simp add: log_ok_def log_inv_def logs_def)
qed

lemma outbox_is_event_log_witness:
  "let d = w_db (catalog_history example_history empty_world)
   in \<forall>r \<in> set (catalog_services d). \<exists>es team.
        map ob_payload (service_log d (cs_id r)) = map envelope es \<and>
        map ob_event_type (service_log d (cs_id r)) = map EventType es \<and>
        replay ([], team) es = Some (cs_lifecycle r, cs_owning_team r) \<and>
        cs_version r = int64 (int (length es))"
  by (rule outbox_is_event_log) (simp_all add: example_history_def)

end
