(* ===== verification/Tenant_Log.thy ===== *)
theory Tenant_Log
  imports Tenant_Store Event_Log
begin

text \<open>
  The outbox as the event log of the tenant registry: replaying the outbox rows of a tenant gives
  the status and quota in its row, and their number is the row's version.
\<close>

definition tenant_logs :: "outbox_row list \<Rightarrow> tenant_row \<Rightarrow> bool" where
  "tenant_logs xs r \<longleftrightarrow>
     (\<exists>es q0. map ob_payload xs = map tenant_envelope es \<and> map ob_event_type xs = map Tenant_EventType es \<and>
        tenant_replay q0 es = Some (tn_status r, tn_max_services r) \<and>
        tn_version r = int64 (int (length es)))"

definition tenant_log_ok :: "db \<Rightarrow> bool" where
  "tenant_log_ok = log_inv tenants tn_id ''tenant.'' tenant_logs"

interpretation tl: event_log tenants tn_id "''tenant.''" tenant_logs
  by unfold_locales (auto simp: tenant_logs_def)

lemma Tenant_EventType_prefix [simp]: "HasPrefix (Tenant_EventType e) ''tenant.''"
  by (cases e) (simp_all add: HasPrefix_def)

lemma tenant_step_aggregate:
  assumes "tenant_step U s x = Inr t" and "\<forall>e \<in> set (ten_events s). Tenant_AggregateID e = Tenant_IDString U (ten_id s)"
  shows "\<forall>e \<in> set (ten_events t). Tenant_AggregateID e = Tenant_IDString U (ten_id s)"
  using assms by (cases x) (auto simp: forge_defs Tenant_AggregateID_def Let_def split: if_splits)

lemma tenant_outbox_rows_maps:
  "map ob_payload (tenant_outbox_rows E n k es) = map tenant_envelope es"
  "map ob_event_type (tenant_outbox_rows E n k es) = map Tenant_EventType es"
  by (induction es arbitrary: k) (simp_all add: tenant_outbox_row_def)

lemma tenant_outbox_rows_aggregate:
  assumes "uuid_laws (env_uuid E)"
    and "\<forall>e \<in> set es. Tenant_AggregateID e = Tenant_IDString (env_uuid E) i"
  shows "\<forall>x \<in> set (tenant_outbox_rows E n k es). ob_aggregate_id x = TenantID_UUID i \<and>
    HasPrefix (ob_event_type x) ''tenant.''"
  using assms by (induction es arbitrary: k) (auto simp: tenant_outbox_row_def Tenant_IDString_def)

lemma tenant_replay_step:
  assumes "tenant_replay q0 es = Some (tenant_view s)" and "ten_events s = []" and "tenant_step U s x = Inr t"
  shows "tenant_replay q0 (es @ ten_events t) = Some (tenant_view t)"
  using assms by (cases x) (auto simp: forge_defs tenant_view_def tenant_replay_def Let_def split: if_splits)

lemma tenant_logs_append:
  assumes "tenant_logs xs (tenant_row_of s)" and "ten_events s = []" and "tenant_step U s x = Inr t"
    and "in_int64 (ten_version s)"
  shows "tenant_logs (xs @ tenant_outbox_rows E n k (ten_events t)) (tenant_row_of t)"
proof -
  from assms(1) obtain es q0 where es: "map ob_payload xs = map tenant_envelope es"
      "map ob_event_type xs = map Tenant_EventType es" "tenant_replay q0 es = Some (tenant_view s)"
      "ten_version s = int64 (int (length es))"
    by (auto simp: tenant_logs_def tenant_row_of_def tenant_view_def)
  moreover have "ten_version t = int64 (int (length (es @ ten_events t)))"
    using tv.step_records [OF assms(3)] assms(2) es(4) by (auto simp: int64_add)
  ultimately show ?thesis
    unfolding tenant_logs_def using tenant_replay_step [OF es(3) assms(2,3)]
    by (intro exI [of _ "es @ ten_events t"] exI [of _ q0])
      (simp add: tenant_outbox_rows_maps tenant_row_of_def tenant_view_def)
qed

lemma tenant_log_created:
  assumes "tenant_log_ok d" and new: "new_tenant_row d (tenant_row_of t)" and U: "uuid_laws (env_uuid E)"
    and t: "t = Tenant_Create (env_uuid E) i name slg pln qt now"
    and S: "tenants d' = tenants d @ [tenant_row_of t]"
    and O: "outbox_events d' = outbox_events d @ tenant_outbox_rows E n k (ten_events t)"
  shows "tenant_log_ok d'"
proof -
  have id: "tn_id (tenant_row_of t) = TenantID_UUID i"
    by (simp add: t Tenant_Create_def Tenant_record_def tenant_row_of_def)
  have agg: "\<forall>x \<in> set (tenant_outbox_rows E n k (ten_events t)).
      ob_aggregate_id x = tn_id (tenant_row_of t) \<and> HasPrefix (ob_event_type x) ''tenant.''"
    using tenant_outbox_rows_aggregate [OF U, of "ten_events t" i n k] id
    by (simp add: t Tenant_Create_def Tenant_record_def Tenant_AggregateID_def)
  have "tenant_logs (tenant_outbox_rows E n k (ten_events t)) (tenant_row_of t)"
    using Tenant_Create_replay [of qt "env_uuid E" i name slg pln now, folded t]
    unfolding tenant_logs_def
    by (intro exI [of _ "ten_events t"] exI [of _ "MaxServices qt"])
      (simp add: tenant_outbox_row_def tenant_view_def tenant_row_of_def t Tenant_Create_def Tenant_record_def int64_def)
  moreover have "tn_id (tenant_row_of t) \<notin> tn_id ` set (tenants d)"
    using new by (auto simp: new_tenant_row_def)
  ultimately show ?thesis using assms(1) tl.added [OF _ S _ O agg] by (simp add: tenant_log_ok_def)
qed

lemma tenant_log_changed:
  assumes ok: "tenants_ok d" and "tenant_log_ok d" and U: "uuid_laws (env_uuid E)"
    and s: "tenant_row_of s \<in> set (tenants d)" "ten_events s = []" "tenant_ok s"
    and x: "tenant_step (env_uuid E) s x = Inr t"
  shows "tenant_log_ok (tenant_cas_db t (ten_version s) (tenant_outbox_rows E n k (ten_events t)) d)"
proof -
  let ?new = "tenant_outbox_rows E n k (ten_events t)"
  have j: "tn_id (tenant_row_of s) = TenantID_UUID (ten_id s)" by (simp add: tenant_row_of_def)
  have agg: "\<forall>x \<in> set ?new. ob_aggregate_id x = tn_id (tenant_row_of s) \<and> HasPrefix (ob_event_type x) ''tenant.''"
    using tenant_outbox_rows_aggregate [OF U tenant_step_aggregate [OF x]] s(2) j by simp
  have "tenant_logs xs (tenant_row_of s) \<Longrightarrow> tenant_logs (xs @ ?new) (tenant_row_of t)" for xs
    using tenant_logs_append [OF _ s(2) x] s(3) by (auto simp: tenant_ok_def)
  then show ?thesis
    using assms(2) tl.changed [OF _ s(1) _ tenant_cas_tenants [OF ok s(1) x] _ agg] tenant_step_keys [OF x]
    by (simp add: tenant_log_ok_def tenant_cas_db_def)
qed

lemma tenant_command_log_ok [forge_inv]:
  assumes "tenant_command E now q w = (r, w')" and "tenants_ok (w_db w)" and "uuid_laws (env_uuid E)"
    and "tenant_log_ok (w_db w)"
  shows "tenant_log_ok (w_db w')"
  using assms(1-3)
proof (cases rule: tenant_command_effect)
  case (unchanged e)
  with assms(4) show ?thesis by simp
next
  case (created t i name slg pln qt k n)
  then show ?thesis using tenant_log_created [OF assms(4) created(3) assms(3) created(2)] by simp
next
  case (changed s x t k n)
  then show ?thesis using tenant_log_changed [OF assms(2,4,3) changed(5,4,3,2)] by simp
qed

lemma tenant_log_ok_empty [simp]: "tenant_log_ok empty_db"
  by (simp add: tenant_log_ok_def log_inv_def empty_db_def)

end
