(* ===== verification/Outbox_Relay.thy ===== *)
theory Outbox_Relay
  imports Event_Log
begin

text \<open>
  \<^verbatim>\<open>internal/relay\<close> and the publisher of \<^verbatim>\<open>internal/platform/events\<close>: rows of the outbox are
  claimed in batches, published to the event bus and marked published in one transaction.

  The bus (JetStream) is a parameter: \<open>bus_publish\<close> answers a publish with an error or an
  acknowledgement and \<open>bus_stream\<close> is what its stream holds. \<open>bus_laws\<close> is its documented
  behaviour: a publish appends at most its own message, and an acknowledged message is in the
  stream, under its deduplication identifier. A publish that fails may still have been stored.
  \<open>jsonb_out\<close> is PostgreSQL's text of a \<^verbatim>\<open>jsonb\<close> value, and \<open>locked\<close> tells which rows another
  replica holds locked when a batch is claimed (\<^verbatim>\<open>SKIP LOCKED\<close>).
\<close>

section \<open>The event bus\<close>

type_synonym bus_message = "string \<times> string \<times> string"

record 'b bus_lib =
  bus_publish :: "string \<Rightarrow> string \<Rightarrow> string \<Rightarrow> 'b \<Rightarrow> go_error option \<times> 'b"
  bus_stream :: "'b \<Rightarrow> bus_message list"

definition stream_ids :: "'b bus_lib \<Rightarrow> 'b \<Rightarrow> string list" where
  "stream_ids B b = map (\<lambda>(subject, msgID, data). msgID) (bus_stream B b)"

definition bus_laws :: "'b bus_lib \<Rightarrow> bool" where
  "bus_laws B \<longleftrightarrow> (\<forall>subject msgID data b r b'. bus_publish B subject msgID data b = (r, b') \<longrightarrow>
     (bus_stream B b' = bus_stream B b \<or> bus_stream B b' = bus_stream B b @ [(subject, msgID, data)]) \<and>
     (r = None \<longrightarrow> msgID \<in> set (stream_ids B b')))"

text \<open>\<^verbatim>\<open>JetStreamPublisher.Publish\<close>.\<close>

definition Publish :: "'b bus_lib \<Rightarrow> string \<Rightarrow> string \<Rightarrow> string \<Rightarrow> 'b \<Rightarrow> go_error option \<times> 'b" where
  "Publish B subject msgID data b =
     (case bus_publish B subject msgID data b of
        (Some err, b') \<Rightarrow> (Some (Errorf (''publish '' @ subject) err), b')
      | (None, b') \<Rightarrow> (None, b'))"

section \<open>Claiming a batch\<close>

record relay_record =
  rr_ID :: string
  rr_AggregateID :: string
  rr_EventType :: string
  rr_Payload :: string
  rr_OccurredAt :: time

definition record_of :: "uuid_lib \<Rightarrow> (json \<Rightarrow> string) \<Rightarrow> outbox_row \<Rightarrow> relay_record" where
  "record_of U jsonb_out r =
     \<lparr>rr_ID = uuid_String U (ob_id r), rr_AggregateID = uuid_String U (ob_aggregate_id r),
      rr_EventType = ob_event_type r, rr_Payload = jsonb_out (ob_payload r), rr_OccurredAt = ob_occurred_at r\<rparr>"

definition outbox_order :: "outbox_row \<Rightarrow> outbox_row \<Rightarrow> bool" where
  "outbox_order a b \<longleftrightarrow> pair_before (<) (ob_created_at a, ob_id a) (ob_created_at b, ob_id b)"

definition pending :: "(uuid \<Rightarrow> bool) \<Rightarrow> db \<Rightarrow> outbox_row list" where
  "pending locked d = sort_by outbox_order (filter (\<lambda>r. ob_published_at r = None \<and> \<not> locked (ob_id r)) (outbox_events d))"

definition claim_rows :: "(uuid \<Rightarrow> bool) \<Rightarrow> nat \<Rightarrow> db \<Rightarrow> (go_error + outbox_row list) \<times> db" where
  "claim_rows locked limit d = (Inr (take limit (pending locked d)), d)"

definition mark_published :: "uuid list \<Rightarrow> time \<Rightarrow> db \<Rightarrow> (go_error + unit) \<times> db" where
  "mark_published ids now d =
     (Inr (), d\<lparr>outbox_events := map (\<lambda>r. if ob_id r \<in> set ids then r\<lparr>ob_published_at := Some (timestamptz now)\<rparr> else r)
        (outbox_events d)\<rparr>)"

text \<open>The publish loop: it stops at the first error.\<close>

fun publish_all :: "(relay_record \<Rightarrow> 'b \<Rightarrow> go_error option \<times> 'b) \<Rightarrow> relay_record list \<Rightarrow> 'b \<Rightarrow> go_error option \<times> 'b" where
  "publish_all publish [] b = (None, b)"
| "publish_all publish (r # rs) b =
     (case publish r b of
        (Some err, b') \<Rightarrow> (Some (Errorf (''publish '' @ rr_ID r) err), b')
      | (None, b') \<Rightarrow> publish_all publish rs b')"

text \<open>
  \<^verbatim>\<open>ClaimBatch\<close>: begin, select, read the rows (the fault of that step is \<^verbatim>\<open>rows.Err()\<close>), and
  with rows in hand \<open>publish_and_mark\<close>: publish, update, commit. Every return before the commit rolls back; a commit that fails may have taken
  effect.
\<close>

definition publish_and_mark ::
    "env \<Rightarrow> (relay_record \<Rightarrow> 'b \<Rightarrow> go_error option \<times> 'b) \<Rightarrow> (outbox_row \<Rightarrow> relay_record) \<Rightarrow> outbox_row list \<Rightarrow>
     world \<Rightarrow> world \<Rightarrow> 'b \<Rightarrow> (go_error + nat) \<times> world \<times> 'b" where
  "publish_and_mark E publish record rows w w2 b =
     (case publish_all publish (map record rows) b of
        (Some err, b1) \<Rightarrow> (Inl err, w2, b1)
      | (None, b1) \<Rightarrow>
     (case sql E (mark_published (map ob_id rows) (env_now E (w_stmts w))) w2 of
        (Inl err, w3) \<Rightarrow> (Inl (Errorf ''mark published'' err), w3\<lparr>w_db := w_db w\<rparr>, b1)
      | (Inr _, w3) \<Rightarrow>
          (let w4 = w3\<lparr>w_stmts := Suc (w_stmts w3)\<rparr>
           in case env_fault E (w_stmts w3) of
                Some err \<Rightarrow> (Inl (Errorf ''commit'' err),
                  if env_commit_lost E (w_stmts w3) then w4 else w4\<lparr>w_db := w_db w\<rparr>, b1)
              | None \<Rightarrow> (Inr (length rows), w4, b1))))"

definition ClaimBatch ::
    "env \<Rightarrow> (json \<Rightarrow> string) \<Rightarrow> (uuid \<Rightarrow> bool) \<Rightarrow> nat \<Rightarrow> (relay_record \<Rightarrow> 'b \<Rightarrow> go_error option \<times> 'b) \<Rightarrow>
     world \<times> 'b \<Rightarrow> (go_error + nat) \<times> world \<times> 'b" where
  "ClaimBatch E jsonb_out locked limit publish s =
     (case s of (w, b) \<Rightarrow>
     (case sql E (\<lambda>d. (Inr (), d)) w of
        (Inl err, w1) \<Rightarrow> (Inl (Errorf ''begin'' err), w1, b)
      | (Inr _, w1) \<Rightarrow>
     (case sql E (claim_rows locked limit) w1 of
        (Inl err, w2) \<Rightarrow> (Inl (Errorf ''claim outbox'' err), w2, b)
      | (Inr rows, w2') \<Rightarrow>
     (case sql E (\<lambda>d. (Inr (), d)) w2' of
        (Inl err, w2) \<Rightarrow> (Inl err, w2, b)
      | (Inr _, w2) \<Rightarrow>
     (if rows = [] then (Inr 0, w2, b)
      else publish_and_mark E publish (record_of (env_uuid E) jsonb_out) rows w w2 b)))))"

section \<open>The relay\<close>

record relay =
  rl_prefix :: string
  rl_batch :: int
  rl_interval :: time

definition Relay_New :: "string \<Rightarrow> int \<Rightarrow> time \<Rightarrow> relay" where
  "Relay_New subjectPrefix batch interval =
     \<lparr>rl_prefix = subjectPrefix, rl_batch = (if batch \<le> 0 then 100 else batch),
      rl_interval = (if interval \<le> 0 then 1000000000 else interval)\<rparr>"

definition subjectFor :: "relay \<Rightarrow> relay_record \<Rightarrow> string" where
  "subjectFor R rec = rl_prefix R @ ''.'' @ rr_EventType rec"

definition relay_claim ::
    "env \<Rightarrow> (json \<Rightarrow> string) \<Rightarrow> (uuid \<Rightarrow> bool) \<Rightarrow> 'b bus_lib \<Rightarrow> relay \<Rightarrow> world \<times> 'b \<Rightarrow> (go_error + nat) \<times> world \<times> 'b" where
  "relay_claim E jsonb_out locked B R s =
     ClaimBatch E jsonb_out locked (nat (rl_batch R))
       (\<lambda>rec. Publish B (subjectFor R rec) (rr_ID rec) (rr_Payload rec)) s"

text \<open>
  \<^verbatim>\<open>DrainOnce\<close>: the loop with its running total; \<open>None\<close> would be a loop that never ends.
\<close>

partial_function (option) drain_from ::
    "env \<Rightarrow> (json \<Rightarrow> string) \<Rightarrow> (uuid \<Rightarrow> bool) \<Rightarrow> 'b bus_lib \<Rightarrow> relay \<Rightarrow> nat \<Rightarrow> world \<times> 'b \<Rightarrow>
     ((nat \<times> go_error option) \<times> world \<times> 'b) option" where
  "drain_from E jsonb_out locked B R count s =
     (case relay_claim E jsonb_out locked B R s of
        (Inl err, s') \<Rightarrow> Some ((count, Some err), s')
      | (Inr n, s') \<Rightarrow>
          (if int n < rl_batch R then Some ((count + n, None), s')
           else drain_from E jsonb_out locked B R (count + n) s'))"

definition DrainOnce ::
    "env \<Rightarrow> (json \<Rightarrow> string) \<Rightarrow> (uuid \<Rightarrow> bool) \<Rightarrow> 'b bus_lib \<Rightarrow> relay \<Rightarrow> world \<times> 'b \<Rightarrow>
     ((nat \<times> go_error option) \<times> world \<times> 'b) option" where
  "DrainOnce E jsonb_out locked B R s = drain_from E jsonb_out locked B R 0 s"

section \<open>Publishing\<close>

lemma publish_all_stream:
  assumes "bus_laws B" and "publish_all (\<lambda>rec. Publish B (f rec) (rr_ID rec) (g rec)) rs b = (r, b')"
  shows "set (stream_ids B b) \<subseteq> set (stream_ids B b')"
    and "set (stream_ids B b') \<subseteq> set (stream_ids B b) \<union> rr_ID ` set rs"
    and "r = None \<Longrightarrow> rr_ID ` set rs \<subseteq> set (stream_ids B b')"
proof -
  let ?p = "\<lambda>rec. Publish B (f rec) (rr_ID rec) (g rec)"
  have "set (stream_ids B b) \<subseteq> set (stream_ids B b') \<and>
    set (stream_ids B b') \<subseteq> set (stream_ids B b) \<union> rr_ID ` set rs \<and>
    (r = None \<longrightarrow> rr_ID ` set rs \<subseteq> set (stream_ids B b'))"
    using assms(2)
  proof (induction rs arbitrary: b)
    case (Cons x rs)
    obtain q b1 where p: "bus_publish B (f x) (rr_ID x) (g x) b = (q, b1)" by fastforce
    have one: "bus_stream B b1 = bus_stream B b \<or> bus_stream B b1 = bus_stream B b @ [(f x, rr_ID x, g x)]"
      "q = None \<longrightarrow> rr_ID x \<in> set (stream_ids B b1)"
      using assms(1) p unfolding bus_laws_def by blast+
    have "stream_ids B b1 = stream_ids B b \<or> stream_ids B b1 = stream_ids B b @ [rr_ID x]"
      using one(1) by (elim disjE) (simp_all add: stream_ids_def)
    then have ids: "set (stream_ids B b) \<subseteq> set (stream_ids B b1)"
      "set (stream_ids B b1) \<subseteq> insert (rr_ID x) (set (stream_ids B b))" by auto
    show ?case
    proof (cases q)
      case None
      then have "Publish B (f x) (rr_ID x) (g x) b = (None, b1)" using p by (simp add: Publish_def)
      with Cons.prems have "publish_all ?p rs b1 = (r, b')" by simp
      from Cons.IH [OF this] None one(2) ids show ?thesis by auto
    next
      case (Some e)
      with Cons.prems p ids show ?thesis by (auto simp: Publish_def)
    qed
  qed simp
  then show "set (stream_ids B b) \<subseteq> set (stream_ids B b')"
    and "set (stream_ids B b') \<subseteq> set (stream_ids B b) \<union> rr_ID ` set rs"
    and "r = None \<Longrightarrow> rr_ID ` set rs \<subseteq> set (stream_ids B b')" by simp_all
qed

section \<open>What a claim does\<close>

lemma set_pending [simp]:
  "set (pending locked d) = {r \<in> set (outbox_events d). ob_published_at r = None \<and> \<not> locked (ob_id r)}"
  by (auto simp: pending_def)

text \<open>The first half of a claim only reads: it stops, or goes on with the oldest pending rows.\<close>

lemma relay_claim_reads:
  assumes "relay_claim E j locked B R (w, b) = (res, w', b')"
  obtains (stopped) "w_db w' = w_db w" and "b' = b"
      and "\<And>n. res = Inr n \<Longrightarrow> n = 0 \<and> take (nat (rl_batch R)) (pending locked (w_db w)) = []"
  | (claimed) w2 where "w_db w2 = w_db w" and "take (nat (rl_batch R)) (pending locked (w_db w)) \<noteq> []"
      and "publish_and_mark E (\<lambda>rec. Publish B (subjectFor R rec) (rr_ID rec) (rr_Payload rec))
        (record_of (env_uuid E) j) (take (nat (rl_batch R)) (pending locked (w_db w))) w w2 b = (res, w', b')"
proof -
  let ?rows = "take (nat (rl_batch R)) (pending locked (w_db w))"
  note h = assms [unfolded relay_claim_def ClaimBatch_def, simplified]
  obtain r1 w1 where s1: "sql E (\<lambda>d. (Inr () :: go_error + unit, d)) w = (r1, w1)" by fastforce
  obtain r2 w2' where s2: "sql E (claim_rows locked (nat (rl_batch R))) w1 = (r2, w2')" by fastforce
  obtain rE w2 where sE: "sql E (\<lambda>d. (Inr () :: go_error + unit, d)) w2' = (rE, w2)" by fastforce
  have d1: "w_db w1 = w_db w" by (rule sql_read [OF s1]) simp
  have d2': "w_db w2' = w_db w" using sql_read [OF s2] d1 by (simp add: claim_rows_def)
  have d2: "w_db w2 = w_db w" using sql_read [OF sE] d2' by simp
  have rows: "rows = ?rows" if "r2 = Inr rows" for rows
    using sql_Inr(1) [OF s2 [unfolded that]] d1 by (auto simp: claim_rows_def)
  consider "isl r1" | u where "r1 = Inr u" "isl r2" | u where "r1 = Inr u" "r2 = Inr ?rows" "isl rE"
    | u v where "r1 = Inr u" "r2 = Inr ?rows" "rE = Inr v"
    using rows by (cases r1; cases r2; cases rE) auto
  then show thesis
  proof cases
    case 4
    with h s1 s2 sE have h': "(if ?rows = [] then (Inr 0, w2, b) else publish_and_mark E
        (\<lambda>rec. Publish B (subjectFor R rec) (rr_ID rec) (rr_Payload rec)) (record_of (env_uuid E) j) ?rows w w2 b) =
        (res, w', b')" by simp
    show thesis
    proof (cases "?rows = []")
      case True
      with h' d2 show thesis by (intro stopped) auto
    next
      case False
      with h' d2 show thesis by (intro claimed) auto
    qed
  qed (use h s1 s2 sE d1 d2' d2 in \<open>(intro stopped; auto simp: isl_def)\<close>)+
qed

text \<open>The second half leaves the tables as they were, or marks the rows once all are in the stream.\<close>

lemma publish_and_mark_effect:
  assumes "publish_and_mark E (\<lambda>rec. Publish B (f rec) (rr_ID rec) (g rec)) (record_of (env_uuid E) j) rows w w2 b =
      (res, w', b')" and "bus_laws B" and "w_db w2 = w_db w"
  shows "set (stream_ids B b) \<subseteq> set (stream_ids B b')"
    and "(isl res \<and> w_db w' = w_db w) \<or>
      (w_db w' = snd (mark_published (map ob_id rows) (env_now E (w_stmts w)) (w_db w)) \<and>
       (\<forall>r \<in> set rows. uuid_String (env_uuid E) (ob_id r) \<in> set (stream_ids B b')) \<and>
       (res = Inr (length rows) \<or> (\<exists>e. res = Inl (Errorf ''commit'' e))))"
proof -
  let ?pub = "\<lambda>rec. Publish B (f rec) (rr_ID rec) (g rec)"
  note h = assms(1) [unfolded publish_and_mark_def]
  obtain r3 b1 where p: "publish_all ?pub (map (record_of (env_uuid E) j) rows) b = (r3, b1)" by fastforce
  obtain r4 w3 where s4: "sql E (mark_published (map ob_id rows) (env_now E (w_stmts w))) w2 = (r4, w3)" by fastforce
  note str = publish_all_stream [OF assms(2) p]
  have b1: "b' = b1" using h p s4 by (auto simp: Let_def split: option.splits sum.splits)
  then show "set (stream_ids B b) \<subseteq> set (stream_ids B b')" using str(1) by simp
  have ids: "uuid_String (env_uuid E) (ob_id r) \<in> set (stream_ids B b')" if "r \<in> set rows" "r3 = None" for r
    using str(3) [OF that(2)] that(1) b1 by (auto simp: record_of_def image_image image_subset_iff)
  have m: "w_db w3 = snd (mark_published (map ob_id rows) (env_now E (w_stmts w)) (w_db w))" if "r4 = Inr u" for u
    using sql_Inr(1) [OF s4 [unfolded that]] assms(3) by (metis snd_conv)
  consider "isl res \<and> w_db w' = w_db w" | u where "r3 = None" "r4 = Inr u" "w_db w' = w_db w3"
      "res = Inr (length rows) \<or> (\<exists>e. res = Inl (Errorf ''commit'' e))"
    using h p s4 assms(3)
    by (cases r3; cases r4) (auto simp: Let_def split: option.splits if_splits)
  then show "(isl res \<and> w_db w' = w_db w) \<or>
      (w_db w' = snd (mark_published (map ob_id rows) (env_now E (w_stmts w)) (w_db w)) \<and>
       (\<forall>r \<in> set rows. uuid_String (env_uuid E) (ob_id r) \<in> set (stream_ids B b')) \<and>
       (res = Inr (length rows) \<or> (\<exists>e. res = Inl (Errorf ''commit'' e))))"
    by cases (use ids m in auto)
qed

lemma relay_claim_effect:
  assumes "relay_claim E j locked B R (w, b) = (res, w', b')" and "bus_laws B"
  obtains (unmarked) "w_db w' = w_db w" and "set (stream_ids B b) \<subseteq> set (stream_ids B b')"
      and "\<And>n. res = Inr n \<Longrightarrow> n = 0 \<and> take (nat (rl_batch R)) (pending locked (w_db w)) = []"
  | (marked) rows now where "rows = take (nat (rl_batch R)) (pending locked (w_db w))" and "rows \<noteq> []"
      and "w_db w' = snd (mark_published (map ob_id rows) now (w_db w))"
      and "set (stream_ids B b) \<subseteq> set (stream_ids B b')"
      and "\<And>r. r \<in> set rows \<Longrightarrow> uuid_String (env_uuid E) (ob_id r) \<in> set (stream_ids B b')"
      and "res = Inr (length rows) \<or> (\<exists>e. res = Inl (Errorf ''commit'' e))"
  using assms(1)
proof (cases rule: relay_claim_reads)
  case stopped
  then show thesis by (intro unmarked) auto
next
  case (claimed w2)
  note e = publish_and_mark_effect [OF claimed(3) assms(2) claimed(1)]
  show thesis using e(2)
  proof
    assume "isl res \<and> w_db w' = w_db w"
    then show thesis using e(1) by (intro unmarked) auto
  qed (use e(1) claimed(2) in \<open>auto intro!: marked [OF refl]\<close>)
qed

section \<open>Pending rows\<close>

text \<open>Rows have distinct identifiers (the primary key of the outbox).\<close>

definition outbox_ok :: "db \<Rightarrow> bool" where
  "outbox_ok d \<longleftrightarrow> distinct (map ob_id (outbox_events d))"

lemma mark_outbox_ok: "outbox_ok (snd (mark_published ids now d)) = outbox_ok d"
  by (simp add: outbox_ok_def mark_published_def comp_def if_distrib cong: if_cong)

interpretation oo: keyset "pair_before (<) :: time \<times> uuid \<Rightarrow> time \<times> uuid \<Rightarrow> bool"
  by (rule keyset_pair) (unfold_locales; auto)

lemma pending_distinct: "outbox_ok d \<Longrightarrow> distinct (map ob_id (pending locked d))"
proof -
  assume "outbox_ok d"
  then have "inj_on ob_id (set (outbox_events d))" "distinct (outbox_events d)"
    by (auto simp: outbox_ok_def distinct_map)
  then show ?thesis by (auto simp: distinct_map pending_def intro: inj_on_subset)
qed

lemma filter_take_drop:
  assumes "distinct (map k xs)"
  shows "filter (\<lambda>x. k x \<notin> k ` set (take n xs)) xs = drop n xs"
proof -
  let ?Q = "\<lambda>x. k x \<notin> k ` set (take n xs)"
  have "k ` set (take n xs) \<inter> k ` set (drop n xs) = {}"
    using assms append_take_drop_id [of n xs] by (metis distinct_append map_append set_map)
  then have "filter ?Q (drop n xs) = drop n xs" by (auto simp: filter_id_conv)
  moreover have "filter ?Q (take n xs) = []" by (auto simp: filter_empty_conv)
  ultimately have "filter ?Q (take n xs) @ filter ?Q (drop n xs) = drop n xs" by simp
  then show ?thesis by (metis append_take_drop_id filter_append)
qed

text \<open>Marking the first rows of the queue leaves the rest of it.\<close>

lemma pending_marked:
  assumes "outbox_ok d"
  shows "pending locked (snd (mark_published (map ob_id (take n (pending locked d))) now d)) = drop n (pending locked d)"
proof -
  let ?P = "\<lambda>r. ob_published_at r = None \<and> \<not> locked (ob_id r)" and ?key = "\<lambda>r. (ob_created_at r, ob_id r)"
  define ids where "ids = map ob_id (take n (pending locked d))"
  let ?f = "\<lambda>r. if ob_id r \<in> set ids then r\<lparr>ob_published_at := Some (timestamptz now)\<rparr> else r"
  have f: "filter ?P (map ?f rs) = filter (\<lambda>r. ob_id r \<notin> set ids) (filter ?P rs)" for rs
    by (induction rs) auto
  have "distinct (map ?key (filter ?P (outbox_events d)))"
    using assms by (auto simp: outbox_ok_def distinct_map inj_on_def)
  then have "sort_by outbox_order (filter (\<lambda>r. ob_id r \<notin> set ids) (filter ?P (outbox_events d))) =
      filter (\<lambda>r. ob_id r \<notin> set ids) (pending locked d)"
    unfolding pending_def outbox_order_def [abs_def] by (rule oo.sort_by_filter)
  then have "pending locked (snd (mark_published ids now d)) = filter (\<lambda>r. ob_id r \<notin> set ids) (pending locked d)"
    unfolding mark_published_def snd_conv
    by (simp add: pending_def [of locked "outbox_events_update _ d"] f del: filter_filter)
  also have "\<dots> = drop n (pending locked d)"
    unfolding ids_def using filter_take_drop [OF pending_distinct [OF assms], of n locked] by simp
  finally show ?thesis unfolding ids_def .
qed

section \<open>Draining\<close>

text \<open>A batch that came back full has made the queue shorter.\<close>

lemma claim_progress:
  assumes "relay_claim E j locked B R (w, b) = (Inr n, w', b')" and "bus_laws B" and "outbox_ok (w_db w)"
  shows "outbox_ok (w_db w')" and "pending locked (w_db w') = drop n (pending locked (w_db w))"
    and "n = min (nat (rl_batch R)) (length (pending locked (w_db w)))"
proof -
  have "outbox_ok (w_db w') \<and> pending locked (w_db w') = drop n (pending locked (w_db w)) \<and>
    n = min (nat (rl_batch R)) (length (pending locked (w_db w)))"
    using assms(1,2)
  proof (cases rule: relay_claim_effect)
    case unmarked
    then show ?thesis using assms(3) by auto
  next
    case (marked rows now)
    then show ?thesis
      using assms(3) pending_marked [OF assms(3), of locked "nat (rl_batch R)" now]
      by (auto simp: mark_outbox_ok min_def)
  qed
  then show "outbox_ok (w_db w')" and "pending locked (w_db w') = drop n (pending locked (w_db w))"
    and "n = min (nat (rl_batch R)) (length (pending locked (w_db w)))" by simp_all
qed

text \<open>
  The loop ends, and what every claim keeps holds at its end: with nothing left unlocked, or with the
  error of a claim.
\<close>

lemma drain_total:
  assumes "bus_laws B" and "0 < rl_batch R"
    and step: "\<And>w b r w' b'. P w b \<Longrightarrow> relay_claim E j locked B R (w, b) = (r, w', b') \<Longrightarrow> P w' b'"
    and "outbox_ok (w_db w)" and "P w b"
  obtains res w' b' where "drain_from E j locked B R k (w, b) = Some (res, w', b')" and "P w' b'"
    and "case snd res of None \<Rightarrow> pending locked (w_db w') = []
      | Some e \<Rightarrow> \<exists>w1 b1 s. P w1 b1 \<and> relay_claim E j locked B R (w1, b1) = (Inl e, s)"
  using assms(4,5)
proof (induction "length (pending locked (w_db w))" arbitrary: w b k thesis rule: less_induct)
  case less
  obtain r w' b' where c: "relay_claim E j locked B R (w, b) = (r, w', b')" by (metis prod.exhaust)
  have P: "P w' b'" by (rule step [OF less.prems(3) c])
  show ?case
  proof (cases r)
    case (Inl e)
    with c P less.prems(3) show ?thesis
      by (intro less.prems(1) [of "(k, Some e)" w' b']) (auto simp: drain_from.simps [of E j locked B R k])
  next
    case (Inr n)
    note p = claim_progress [OF c [unfolded Inr] assms(1) less.prems(2)]
    show ?thesis
    proof (cases "int n < rl_batch R")
      case True
      moreover have "pending locked (w_db w') = []" using True p(2,3) assms(2) by (auto simp: min_def split: if_splits)
      ultimately show ?thesis using c Inr P
        by (intro less.prems(1) [of "(k + n, None)" w' b']) (simp_all add: drain_from.simps [of E j locked B R k])
    next
      case False
      have shorter: "length (pending locked (w_db w')) < length (pending locked (w_db w))"
        using p(2,3) False assms(2) by auto
      obtain res w2 b2 where "drain_from E j locked B R (k + n) (w', b') = Some (res, w2, b2)" "P w2 b2"
        "case snd res of None \<Rightarrow> pending locked (w_db w2) = []
          | Some e \<Rightarrow> \<exists>w1 b1 s. P w1 b1 \<and> relay_claim E j locked B R (w1, b1) = (Inl e, s)"
        by (rule less.hyps [OF shorter _ p(1) P])
      with c Inr False show ?thesis
        by (intro less.prems(1) [of res w2 b2]) (simp_all add: drain_from.simps [of E j locked B R k])
    qed
  qed
qed

section \<open>Without faults\<close>

definition message_of :: "relay \<Rightarrow> uuid_lib \<Rightarrow> (json \<Rightarrow> string) \<Rightarrow> outbox_row \<Rightarrow> bus_message" where
  "message_of R U j row =
     (let rec = record_of U j row in (subjectFor R rec, rr_ID rec, rr_Payload rec))"

definition bus_accepts :: "'b bus_lib \<Rightarrow> bool" where
  "bus_accepts B \<longleftrightarrow> (\<forall>subject msgID data b. fst (bus_publish B subject msgID data b) = None)"

text \<open>A claim errs only when a statement or the bus does.\<close>

lemma publish_all_accepted:
  assumes "bus_accepts B"
  shows "fst (publish_all (\<lambda>rec. Publish B (f rec) (rr_ID rec) (g rec)) rs b) = None"
proof (induction rs arbitrary: b)
  case (Cons x rs)
  obtain b1 where "bus_publish B (f x) (rr_ID x) (g x) b = (None, b1)"
    using assms by (metis bus_accepts_def prod.collapse)
  with Cons show ?case by (simp add: Publish_def)
qed simp

lemma relay_claim_accepted:
  assumes "bus_accepts B" and "env_fault E = (\<lambda>n. None)"
  shows "\<not> isl (fst (relay_claim E j locked B R (w, b)))"
proof -
  let ?rows = "take (nat (rl_batch R)) (pending locked (w_db w))"
  obtain r b1 where p: "publish_all (\<lambda>rec. Publish B (subjectFor R rec) (rr_ID rec) (rr_Payload rec))
      (map (record_of (env_uuid E) j) ?rows) b = (r, b1)" by fastforce
  have "r = None"
    using publish_all_accepted [OF assms(1), where f = "subjectFor R" and g = rr_Payload
        and rs = "map (record_of (env_uuid E) j) ?rows" and b = b] p by simp
  with p show ?thesis
    by (simp add: relay_claim_def ClaimBatch_def publish_and_mark_def sql_no_fault assms(2) claim_rows_def
        mark_published_def Let_def)
qed

lemma publish_all_exact:
  assumes "bus_laws B" and "bus_accepts B" and "distinct (map rr_ID rs)"
    and "\<forall>x \<in> set rs. rr_ID x \<notin> set (stream_ids B b)"
  shows "\<exists>b'. publish_all (\<lambda>rec. Publish B (f rec) (rr_ID rec) (g rec)) rs b = (None, b') \<and>
    bus_stream B b' = bus_stream B b @ map (\<lambda>rec. (f rec, rr_ID rec, g rec)) rs"
  using assms(3,4)
proof (induction rs arbitrary: b)
  case (Cons x rs)
  obtain b1 where p: "bus_publish B (f x) (rr_ID x) (g x) b = (None, b1)"
    using assms(2) by (metis bus_accepts_def prod.collapse)
  have "bus_stream B b1 = bus_stream B b \<or> bus_stream B b1 = bus_stream B b @ [(f x, rr_ID x, g x)]"
    "rr_ID x \<in> set (stream_ids B b1)"
    using assms(1) p unfolding bus_laws_def by blast+
  then have b1: "bus_stream B b1 = bus_stream B b @ [(f x, rr_ID x, g x)]"
    using Cons.prems(2) by (metis list.set_intros(1) stream_ids_def)
  then have "stream_ids B b1 = stream_ids B b @ [rr_ID x]" by (simp add: stream_ids_def)
  then have "\<forall>y \<in> set rs. rr_ID y \<notin> set (stream_ids B b1)"
    using Cons.prems by (simp add: image_iff) metis
  with Cons.IH [of b1] Cons.prems(1) obtain b' where
    "publish_all (\<lambda>rec. Publish B (f rec) (rr_ID rec) (g rec)) rs b1 = (None, b')"
    "bus_stream B b' = bus_stream B b1 @ map (\<lambda>rec. (f rec, rr_ID rec, g rec)) rs" by auto
  moreover have "Publish B (f x) (rr_ID x) (g x) b = (None, b1)" using p by (simp add: Publish_def)
  ultimately show ?case using b1 by simp
qed simp

lemma relay_claim_no_fault:
  assumes "bus_laws B" and "bus_accepts B" and "env_fault E = (\<lambda>n. None)" and "uuid_laws (env_uuid E)"
    and "outbox_ok (w_db w)"
    and "\<forall>r \<in> set (pending locked (w_db w)). uuid_String (env_uuid E) (ob_id r) \<notin> set (stream_ids B b)"
  obtains w' b' where "relay_claim E j locked B R (w, b) =
      (Inr (length (take (nat (rl_batch R)) (pending locked (w_db w)))), w', b')"
    and "bus_stream B b' = bus_stream B b @ map (message_of R (env_uuid E) j) (take (nat (rl_batch R)) (pending locked (w_db w)))"
proof -
  let ?rows = "take (nat (rl_batch R)) (pending locked (w_db w))" and ?recs = "record_of (env_uuid E) j"
  have "distinct (map ob_id ?rows)"
    using pending_distinct [OF assms(5), of locked] by (metis distinct_take take_map)
  then have dist: "distinct (map rr_ID (map ?recs ?rows))"
    using assms(4) by (auto simp: record_of_def distinct_map inj_on_def uuid_laws_inj)
  have new: "\<forall>x \<in> set (map ?recs ?rows). rr_ID x \<notin> set (stream_ids B b)"
    using assms(6) by (auto simp: record_of_def simp del: set_pending dest!: in_set_takeD)
  obtain b' where p: "publish_all (\<lambda>rec. Publish B (subjectFor R rec) (rr_ID rec) (rr_Payload rec)) (map ?recs ?rows) b
      = (None, b')"
    and str: "bus_stream B b' = bus_stream B b @
      map (\<lambda>rec. (subjectFor R rec, rr_ID rec, rr_Payload rec)) (map ?recs ?rows)"
    using publish_all_exact [OF assms(1,2) dist new, of "subjectFor R" rr_Payload] by blast
  have m: "map (\<lambda>rec. (subjectFor R rec, rr_ID rec, rr_Payload rec)) (map ?recs ?rows) =
      map (message_of R (env_uuid E) j) ?rows"
    by (simp add: message_of_def Let_def)
  show thesis
  proof (cases "?rows = []")
    case True
    then show thesis
      using p str m assms(3)
      by (intro that [of "w\<lparr>w_stmts := Suc (Suc (Suc (w_stmts w))), w_db := w_db w\<rparr>" b])
        (auto simp: relay_claim_def ClaimBatch_def publish_and_mark_def sql_no_fault claim_rows_def)
  next
    case False
    obtain d where d: "mark_published (map ob_id ?rows) (env_now E (w_stmts w)) (w_db w) = (Inr (), d)"
      by (simp add: mark_published_def)
    show thesis
      using False p str m assms(3) d
      by (intro that [of "w\<lparr>w_stmts := Suc (Suc (Suc (Suc (Suc (w_stmts w))))), w_db := d\<rparr>" b'])
        (auto simp: relay_claim_def ClaimBatch_def publish_and_mark_def sql_no_fault claim_rows_def)
  qed
qed

lemma drain_everything:
  assumes "bus_laws B" and "bus_accepts B" and "env_fault E = (\<lambda>n. None)" and "uuid_laws (env_uuid E)"
    and "0 < rl_batch R" and "outbox_ok (w_db w)"
    and "\<forall>r \<in> set (pending locked (w_db w)). uuid_String (env_uuid E) (ob_id r) \<notin> set (stream_ids B b)"
  shows "\<exists>w' b'. drain_from E j locked B R k (w, b) = Some ((k + length (pending locked (w_db w)), None), w', b') \<and>
    pending locked (w_db w') = [] \<and>
    bus_stream B b' = bus_stream B b @ map (message_of R (env_uuid E) j) (pending locked (w_db w))"
  using assms(6,7)
proof (induction "length (pending locked (w_db w))" arbitrary: w b k rule: less_induct)
  case less
  let ?q = "pending locked (w_db w)" and ?L = "nat (rl_batch R)"
  obtain w1 b1 where c: "relay_claim E j locked B R (w, b) = (Inr (length (take ?L ?q)), w1, b1)"
    and str: "bus_stream B b1 = bus_stream B b @ map (message_of R (env_uuid E) j) (take ?L ?q)"
    using relay_claim_no_fault [OF assms(1-4) less.prems] by metis
  note p = claim_progress [OF c assms(1) less.prems(1)]
  have q1: "pending locked (w_db w1) = drop ?L ?q" using p(2) by (simp add: min_def)
  show ?case
  proof (cases "length ?q < ?L")
    case True
    then have "int (length (take ?L ?q)) < rl_batch R" by simp
    with c str q1 True show ?thesis by (simp add: drain_from.simps [of E j locked B R k])
  next
    case False
    then have n: "\<not> int (length (take ?L ?q)) < rl_batch R" using assms(5) by simp
    have "length (pending locked (w_db w1)) < length ?q" using q1 False assms(5) by simp
    moreover have "\<forall>r \<in> set (pending locked (w_db w1)). uuid_String (env_uuid E) (ob_id r) \<notin> set (stream_ids B b1)"
    proof
      fix r assume r: "r \<in> set (pending locked (w_db w1))"
      have "distinct (map ob_id (take ?L ?q @ drop ?L ?q))"
        using pending_distinct [OF less.prems(1), of locked] by simp
      then have "ob_id r \<notin> ob_id ` set (take ?L ?q)" using r unfolding q1 map_append distinct_append by auto
      moreover have "uuid_String (env_uuid E) (ob_id r) \<notin> set (stream_ids B b)"
        using less.prems(2) r unfolding q1 by (meson in_set_dropD)
      moreover have "stream_ids B b1 = stream_ids B b @ map (\<lambda>r. uuid_String (env_uuid E) (ob_id r)) (take ?L ?q)"
        by (simp add: stream_ids_def str message_of_def record_of_def Let_def)
      ultimately show "uuid_String (env_uuid E) (ob_id r) \<notin> set (stream_ids B b1)"
        using uuid_laws_inj [OF assms(4)] by auto
    qed
    ultimately obtain w' b' where "drain_from E j locked B R (k + length (take ?L ?q)) (w1, b1) =
        Some ((k + length (take ?L ?q) + length (pending locked (w_db w1)), None), w', b')"
      "pending locked (w_db w') = []"
      "bus_stream B b' = bus_stream B b1 @ map (message_of R (env_uuid E) j) (pending locked (w_db w1))"
      using less.hyps p(1) by blast
    moreover have "length (take ?L ?q) + length (drop ?L ?q) = length ?q"
      by (metis append_take_drop_id length_append)
    moreover have "map (message_of R (env_uuid E) j) (take ?L ?q) @ map (message_of R (env_uuid E) j) (drop ?L ?q) =
        map (message_of R (env_uuid E) j) ?q" by (metis append_take_drop_id map_append)
    ultimately show ?thesis using c n str q1
      by (simp add: drain_from.simps [of E j locked B R k] add.assoc del: length_take length_drop)
  qed
qed

section \<open>Properties\<close>

text \<open>
  The state of the outbox against the stream: rows have distinct identifiers, and a row marked
  published is in the stream. \<open>unmark\<close> forgets the mark, the only column the relay writes.
\<close>

definition published_in_stream :: "uuid_lib \<Rightarrow> 'b bus_lib \<Rightarrow> db \<Rightarrow> 'b \<Rightarrow> bool" where
  "published_in_stream U B d b \<longleftrightarrow>
     (\<forall>r \<in> set (outbox_events d). ob_published_at r \<noteq> None \<longrightarrow> uuid_String U (ob_id r) \<in> set (stream_ids B b))"

definition delivered :: "uuid_lib \<Rightarrow> 'b bus_lib \<Rightarrow> db \<Rightarrow> 'b \<Rightarrow> db \<Rightarrow> 'b \<Rightarrow> bool" where
  "delivered U B d b d' b' \<longleftrightarrow> outbox_ok d' \<and> published_in_stream U B d' b' \<and>
     map unmark (outbox_events d') = map unmark (outbox_events d) \<and>
     set (stream_ids B b) \<subseteq> set (stream_ids B b')"

lemma delivered_refl: "outbox_ok d \<Longrightarrow> published_in_stream U B d b \<Longrightarrow> delivered U B d b d b"
  by (simp add: delivered_def)

lemma delivered_trans:
  "delivered U B d b d1 b1 \<Longrightarrow> delivered U B d1 b1 d2 b2 \<Longrightarrow> delivered U B d b d2 b2"
  by (auto simp: delivered_def)

lemma relay_claim_delivered:
  assumes "relay_claim E j locked B R (w, b) = (res, w', b')" and "bus_laws B" and "env_uuid E = U"
    and "delivered U B d0 b0 (w_db w) b"
  shows "delivered U B d0 b0 (w_db w') b'"
proof -
  have inv: "outbox_ok (w_db w)" "published_in_stream U B (w_db w) b" using assms(4) by (auto simp: delivered_def)
  have "delivered U B (w_db w) b (w_db w') b'"
  proof (cases rule: relay_claim_effect [OF assms(1,2)])
    case 1
    then show ?thesis using inv by (auto simp: delivered_def published_in_stream_def)
  next
    case (2 rows now)
    have "r \<in> set rows \<Longrightarrow> uuid_String U (ob_id r) \<in> set (stream_ids B b')" for r
      using 2(5) assms(3) by auto
    moreover have "map unmark (outbox_events (w_db w')) = map unmark (outbox_events (w_db w))"
      unfolding 2(3) by (simp add: mark_published_def unmark_def)
    ultimately show ?thesis
      using inv 2(4) mark_outbox_ok [of "map ob_id rows" now "w_db w"]
      unfolding delivered_def published_in_stream_def 2(3)
      by (auto simp: mark_published_def split: if_splits)
  qed
  with assms(4) show ?thesis by (rule delivered_trans)
qed

lemma Relay_New_batch [simp]: "0 < rl_batch (Relay_New prefix batch interval)"
  by (simp add: Relay_New_def)

lemma drain_once_delivered:
  assumes "bus_laws B" and "0 < rl_batch R" and "env_uuid E = U"
    and "outbox_ok (w_db w)" and "published_in_stream U B (w_db w) b"
  obtains res w' b' where "DrainOnce E j locked B R (w, b) = Some (res, w', b')"
    and "delivered U B (w_db w) b (w_db w') b'"
  unfolding DrainOnce_def
  by (rule drain_total [OF assms(1,2) _ assms(4), where P = "\<lambda>w' b'. delivered U B (w_db w) b (w_db w') b'"])
    (auto intro: relay_claim_delivered [OF _ assms(1,3)] delivered_refl [OF assms(4,5)])

text \<open>
  \<^verbatim>\<open>Run\<close>: one drain for each tick before the context is cancelled; an error is logged and the
  next tick tries again. Each tick comes with what happens during it: the faults of its
  statements and the rows other replicas hold.
\<close>

fun Run :: "(json \<Rightarrow> string) \<Rightarrow> 'b bus_lib \<Rightarrow> relay \<Rightarrow> (env \<times> (uuid \<Rightarrow> bool)) list \<Rightarrow> world \<times> 'b \<Rightarrow> (world \<times> 'b) option" where
  "Run jsonb_out B R [] s = Some s"
| "Run jsonb_out B R ((E, locked) # ticks) s =
     (case DrainOnce E jsonb_out locked B R s of
        None \<Rightarrow> None
      | Some (res, s') \<Rightarrow> Run jsonb_out B R ticks s')"

text \<open>
  A bus that keeps its messages in a list, drops a message whose identifier it holds, and
  acknowledges every publish: an instance of the parameter.
\<close>

definition list_bus :: "bus_message list bus_lib" where
  "list_bus = \<lparr>bus_publish = (\<lambda>subject msgID data b.
     (None, if msgID \<in> set (map (\<lambda>(s, i, d). i) b) then b else b @ [(subject, msgID, data)])), bus_stream = (\<lambda>b. b)\<rparr>"

lemma list_bus_laws [simp]: "bus_laws list_bus" "bus_accepts list_bus"
  by (auto simp: bus_laws_def bus_accepts_def list_bus_def stream_ids_def)

definition example_event :: "uuid \<Rightarrow> time \<Rightarrow> outbox_row" where
  "example_event i t = \<lparr>ob_id = i, ob_aggregate_id = 1, ob_event_type = ''catalog.service.registered'',
     ob_payload = JObj [], ob_occurred_at = t, ob_published_at = None, ob_created_at = t\<rparr>"

definition example_outbox :: world where
  "example_outbox = empty_world\<lparr>w_db := empty_db\<lparr>outbox_events := [example_event 5 2000, example_event 6 1000]\<rparr>\<rparr>"

lemma example_outbox_ok [simp]: "outbox_ok (w_db example_outbox)"
  and example_outbox_published [simp]: "published_in_stream U B (w_db example_outbox) b"
  by (simp_all add: outbox_ok_def published_in_stream_def example_outbox_def example_event_def)

text \<open>
  Draining the outbox always ends. Whatever faults the statements meet, whatever the bus
  answers and whichever rows other replicas hold, the loop of \<^verbatim>\<open>DrainOnce\<close> returns, for a
  relay built by \<^verbatim>\<open>New\<close> from any batch size: each turn but the last takes rows out of the
  queue.
\<close>

lemma drain_once_returns:
  assumes "bus_laws B" and "outbox_ok (w_db w)"
  shows "\<exists>res w' b'. DrainOnce E j locked B (Relay_New prefix batch interval) (w, b) = Some (res, w', b')"
  unfolding DrainOnce_def
  by (rule drain_total [OF assms(1) Relay_New_batch _ assms(2), where P = "\<lambda>w b. True"]) auto

lemma drain_once_returns_witness:
  "\<exists>res w' b'. DrainOnce plain_env Marshal (\<lambda>u. False) list_bus (Relay_New ''forge'' (- 3) 0) (example_outbox, []) =
     Some (res, w', b')"
  by (rule drain_once_returns) simp_all



text \<open>
  C15: A drain without faults publishes everything, in order. When the statements succeed and the
  bus acknowledges, one \<^verbatim>\<open>DrainOnce\<close> returns the number of pending rows, leaves no unlocked row
  unpublished, and, if none of them was in the stream, appends exactly their messages, each
  once, oldest first by \<^verbatim>\<open>(created_at, id)\<close>, whatever the batch size.
\<close>

theorem drain_once_publishes_all:
  assumes "bus_laws B" and "bus_accepts B" and "env_fault E = (\<lambda>n. None)" and "uuid_laws (env_uuid E)"
    and "outbox_ok (w_db w)"
    and "\<forall>r \<in> set (pending locked (w_db w)). uuid_String (env_uuid E) (ob_id r) \<notin> set (stream_ids B b)"
  shows "\<exists>w' b'. DrainOnce E j locked B (Relay_New prefix batch interval) (w, b) =
      Some ((length (pending locked (w_db w)), None), w', b') \<and>
    pending locked (w_db w') = [] \<and>
    bus_stream B b' = bus_stream B b @
      map (message_of (Relay_New prefix batch interval) (env_uuid E) j) (pending locked (w_db w))"
  unfolding DrainOnce_def
  using drain_everything [OF assms(1-4) Relay_New_batch assms(5,6), where k = 0] by simp

lemma example_pending: "pending (\<lambda>u. False) (w_db example_outbox) = [example_event 6 1000, example_event 5 2000]"
  by code_simp

theorem drain_once_publishes_all_witness:
  "\<exists>w' b'. DrainOnce plain_env Marshal (\<lambda>u. False) list_bus (Relay_New ''forge'' 1 0) (example_outbox, []) =
      Some ((2, None), w', b') \<and>
    pending (\<lambda>u. False) (w_db w') = [] \<and>
    map fst b' = [''forge.catalog.service.registered'', ''forge.catalog.service.registered'']"
proof -
  have "env_fault plain_env = (\<lambda>n. None)" "stream_ids list_bus [] = []"
    by (simp_all add: plain_env_def stream_ids_def list_bus_def)
  then obtain w' b' where "DrainOnce plain_env Marshal (\<lambda>u. False) list_bus (Relay_New ''forge'' 1 0) (example_outbox, []) =
      Some ((length (pending (\<lambda>u. False) (w_db example_outbox)), None), w', b')"
    "pending (\<lambda>u. False) (w_db w') = []"
    "bus_stream list_bus b' = bus_stream list_bus [] @
      map (message_of (Relay_New ''forge'' 1 0) (env_uuid plain_env) Marshal) (pending (\<lambda>u. False) (w_db example_outbox))"
    using drain_once_publishes_all [of list_bus plain_env example_outbox "\<lambda>u. False" "[]" Marshal "''forge''" 1 0]
    by auto
  then show ?thesis unfolding example_pending
    by (auto simp: list_bus_def message_of_def record_of_def subjectFor_def Relay_New_def example_event_def Let_def)
qed

end
