(* ===== verification/Control_Plane.thy ===== *)
theory Control_Plane
  imports Catalog_Log Tenant_Log Outbox_Relay Idempotency
begin

text \<open>
  The control plane as a transition system. Its processes (the API's catalog and tenant modules,
  the idempotency store, the outbox relay) meet in the database and the event stream; a step is
  one transaction of one of them, with any faults, and a run is any interleaving of such steps.
  What the components prove about their own tables is carried here to every reachable state: each
  step keeps the tables of the others, and extends or marks the outbox they share.
\<close>

section \<open>Steps\<close>

inductive tx_step :: "uuid_lib \<Rightarrow> 'b bus_lib \<Rightarrow> db \<times> 'b \<Rightarrow> db \<times> 'b \<Rightarrow> bool" for U B where
  catalog: "env_uuid E = U \<Longrightarrow> catalog_command E now q w = (r, w') \<Longrightarrow> tx_step U B (w_db w, b) (w_db w', b)"
| tenant: "env_uuid E = U \<Longrightarrow> tenant_command E now q w = (r, w') \<Longrightarrow> tx_step U B (w_db w, b) (w_db w', b)"
| idempotency: "Idempotency_Save E key hash status body w = (r, w') \<Longrightarrow> tx_step U B (w_db w, b) (w_db w', b)"
| relay: "env_uuid E = U \<Longrightarrow> relay_claim E j locked B R (w, b) = (res, w', b') \<Longrightarrow>
    tx_step U B (w_db w, b) (w_db w', b')"

definition sound :: "uuid_lib \<Rightarrow> 'b bus_lib \<Rightarrow> db \<times> 'b \<Rightarrow> bool" where
  "sound U B s \<longleftrightarrow> (case s of (d, b) \<Rightarrow>
     catalog_ok d \<and> log_ok d \<and> tenants_ok d \<and> tenant_log_ok d \<and> keys_ok d \<and> outbox_ok d \<and>
     published_in_stream U B d b)"

lemma sound_empty: "sound U B (empty_db, b)"
proof -
  have "idempotency_keys empty_db = []" "outbox_events empty_db = []" by (simp_all add: empty_db_def)
  then show ?thesis by (simp add: sound_def keys_ok_def outbox_ok_def published_in_stream_def)
qed

section \<open>What a step leaves alone\<close>

text \<open>A command appends unpublished rows of its own module to the outbox.\<close>

definition appends :: "string \<Rightarrow> db \<Rightarrow> db \<Rightarrow> bool" where
  "appends prefix d d' \<longleftrightarrow> (\<exists>new. outbox_events d' = outbox_events d @ new \<and>
     (\<forall>x \<in> set new. ob_published_at x = None \<and> HasPrefix (ob_event_type x) prefix))"

lemma appends_refl: "outbox_events d' = outbox_events d \<Longrightarrow> appends prefix d d'"
  by (simp add: appends_def)

lemma appends_published:
  assumes "appends prefix d d'" and "published_in_stream U B d b"
  shows "published_in_stream U B d' b"
  using assms by (auto simp: appends_def published_in_stream_def)

lemma catalog_command_frame:
  assumes "catalog_command E now q w = (r, w')" and "catalog_ok (w_db w)" and "uuid_laws (env_uuid E)"
  shows "tenants (w_db w') = tenants (w_db w)" and "idempotency_keys (w_db w') = idempotency_keys (w_db w)"
    and "appends ''catalog.'' (w_db w) (w_db w')"
proof -
  have new: "\<forall>x \<in> set (outbox_rows_of E n k es). ob_published_at x = None \<and> HasPrefix (ob_event_type x) ''catalog.''" for n k es
    by (induction es arbitrary: k) (auto simp: outbox_row_of_def)
  have "tenants (w_db w') = tenants (w_db w) \<and> idempotency_keys (w_db w') = idempotency_keys (w_db w) \<and>
      appends ''catalog.'' (w_db w) (w_db w')"
    using assms
  proof (cases rule: catalog_command_effect)
    case (registered svc tenantID name d t u own i k n)
    then show ?thesis using new by (auto simp: appends_def)
  next
    case (changed s x svc k n)
    then show ?thesis using new by (auto simp: appends_def)
  qed (simp add: appends_refl)
  then show "tenants (w_db w') = tenants (w_db w)" "idempotency_keys (w_db w') = idempotency_keys (w_db w)"
    "appends ''catalog.'' (w_db w) (w_db w')" by simp_all
qed

lemma tenant_command_frame:
  assumes "tenant_command E now q w = (r, w')" and "tenants_ok (w_db w)" and "uuid_laws (env_uuid E)"
  shows "catalog_services (w_db w') = catalog_services (w_db w)"
    and "catalog_ownership_history (w_db w') = catalog_ownership_history (w_db w)"
    and "idempotency_keys (w_db w') = idempotency_keys (w_db w)" and "appends ''tenant.'' (w_db w) (w_db w')"
proof -
  have new: "\<forall>x \<in> set (tenant_outbox_rows E n k es). ob_published_at x = None \<and> HasPrefix (ob_event_type x) ''tenant.''" for n k es
    by (induction es arbitrary: k) (auto simp: tenant_outbox_row_def)
  have "catalog_services (w_db w') = catalog_services (w_db w) \<and>
      catalog_ownership_history (w_db w') = catalog_ownership_history (w_db w) \<and>
      idempotency_keys (w_db w') = idempotency_keys (w_db w) \<and> appends ''tenant.'' (w_db w) (w_db w')"
    using assms
  proof (cases rule: tenant_command_effect)
    case (created t i name slg pln qt k n)
    then show ?thesis using new by (auto simp: appends_def)
  next
    case (changed s x t k n)
    then show ?thesis using new by (auto simp: appends_def tenant_cas_db_def)
  qed (simp add: appends_refl)
  then show "catalog_services (w_db w') = catalog_services (w_db w)"
    "catalog_ownership_history (w_db w') = catalog_ownership_history (w_db w)"
    "idempotency_keys (w_db w') = idempotency_keys (w_db w)" "appends ''tenant.'' (w_db w) (w_db w')" by simp_all
qed

text \<open>The primary key of the outbox.\<close>

lemma catalog_command_outbox_ok:
  assumes "catalog_command E now q w = (r, w')" and "outbox_ok (w_db w)"
  shows "outbox_ok (w_db w')"
  using assms(1)
proof (cases rule: catalog_command_cases)
  case (register inp)
  from register(2) show ?thesis
    by (cases rule: RegisterService_cases) (use assms(2) register_work_Inr(4) in \<open>auto simp: outbox_ok_def\<close>)
next
  case (mutation i v x)
  from mutation(2) show ?thesis
    by (cases rule: mutate_cases) (use assms(2) in \<open>auto simp: outbox_ok_def elim: mutate_work_Inr\<close>)
qed (use assms(2) in simp)

lemma tenant_command_outbox_ok:
  assumes "tenant_command E now q w = (r, w')" and "outbox_ok (w_db w)"
  shows "outbox_ok (w_db w')"
  using assms(1)
proof (cases rule: tenant_command_cases)
  case (create t i name slg pln qt w1)
  from create(4) show ?thesis
    by (rule Execute_invariant) (use assms(2) create(3) create_work_Inr(4) in \<open>auto simp: outbox_ok_def\<close>)
next
  case (mutation i v x)
  from mutation(2) show ?thesis
    by (rule Execute_invariant) (use assms(2) in \<open>auto simp: outbox_ok_def elim: tenant_mutate_work_Inr\<close>)
qed (use assms(2) in simp)

section \<open>Every step keeps the system sound\<close>

lemma no_common_prefix: "HasPrefix s ''catalog.'' \<Longrightarrow> \<not> HasPrefix s ''tenant.''"
  by (cases s) (auto simp: HasPrefix_def)

lemma appends_log_ok:
  assumes "log_ok d" and "appends ''tenant.'' d d'" and "catalog_services d' = catalog_services d"
  shows "log_ok d'"
proof -
  obtain new where new: "outbox_events d' = outbox_events d @ new" "\<forall>x \<in> set new. HasPrefix (ob_event_type x) ''tenant.''"
    using assms(2) by (auto simp: appends_def)
  then have "\<forall>x \<in> set new. \<not> HasPrefix (ob_event_type x) ''catalog.''" using no_common_prefix by blast
  with assms(1,3) new(1) show ?thesis unfolding log_ok_def by (rule cl.foreign)
qed

lemma appends_tenant_log_ok:
  assumes "tenant_log_ok d" and "appends ''catalog.'' d d'" and "tenants d' = tenants d"
  shows "tenant_log_ok d'"
proof -
  obtain new where new: "outbox_events d' = outbox_events d @ new" "\<forall>x \<in> set new. HasPrefix (ob_event_type x) ''catalog.''"
    using assms(2) by (auto simp: appends_def)
  then have "\<forall>x \<in> set new. \<not> HasPrefix (ob_event_type x) ''tenant.''" using no_common_prefix by blast
  with assms(1,3) new(1) show ?thesis unfolding tenant_log_ok_def by (rule tl.foreign)
qed

lemma keys_ok_frame: "idempotency_keys d' = idempotency_keys d \<Longrightarrow> keys_ok d' = keys_ok d"
  by (simp add: keys_ok_def)

lemma catalog_step_sound:
  assumes "catalog_command E now q w = (r, w')" and "env_uuid E = U" and "uuid_laws U" and "sound U B (w_db w, b)"
  shows "sound U B (w_db w', b)"
proof -
  have U: "uuid_laws (env_uuid E)" and ok: "catalog_ok (w_db w)" using assms by (simp_all add: sound_def)
  note frame = catalog_command_frame [OF assms(1) ok U]
  show ?thesis
    using assms(4) catalog_command_ok [OF assms(1) ok U] catalog_command_log_ok [OF assms(1) ok U]
      catalog_command_outbox_ok [OF assms(1)] tenants_ok_frame [OF frame(1)] keys_ok_frame [OF frame(2)]
      appends_tenant_log_ok [OF _ frame(3,1)] appends_published [OF frame(3), of U B b]
    by (simp add: sound_def)
qed

lemma tenant_step_sound:
  assumes "tenant_command E now q w = (r, w')" and "env_uuid E = U" and "uuid_laws U" and "sound U B (w_db w, b)"
  shows "sound U B (w_db w', b)"
proof -
  have U: "uuid_laws (env_uuid E)" and ok: "tenants_ok (w_db w)" using assms by (simp_all add: sound_def)
  note frame = tenant_command_frame [OF assms(1) ok U]
  show ?thesis
    using assms(4) tenant_command_ok [OF assms(1) ok U] tenant_command_log_ok [OF assms(1) ok U]
      tenant_command_outbox_ok [OF assms(1)] catalog_ok_frame [OF frame(1,2)] keys_ok_frame [OF frame(3)]
      appends_log_ok [OF _ frame(4,1)] appends_published [OF frame(4), of U B b]
    by (simp add: sound_def)
qed

lemma idempotency_step_sound:
  assumes "Idempotency_Save E key hash status body w = (r, w')" and "sound U B (w_db w, b)"
  shows "sound U B (w_db w', b)"
proof -
  have frame: "catalog_services (w_db w') = catalog_services (w_db w)" "tenants (w_db w') = tenants (w_db w)"
    "catalog_ownership_history (w_db w') = catalog_ownership_history (w_db w)" "outbox_events (w_db w') = outbox_events (w_db w)"
    using Idempotency_Save_db [OF assms(1)] by auto
  then have log: "log_ok (w_db w') = log_ok (w_db w)" "tenant_log_ok (w_db w') = tenant_log_ok (w_db w)"
    by (simp_all add: log_ok_def tenant_log_ok_def log_inv_def log_of_def)
  show ?thesis
    using assms(2) frame log Idempotency_Save_ok [OF assms(1)] catalog_ok_frame [OF frame(1,3)] tenants_ok_frame [OF frame(2)]
    by (simp add: sound_def outbox_ok_def published_in_stream_def)
qed

lemma relay_step_sound:
  assumes "relay_claim E j locked B R (w, b) = (res, w', b')" and "env_uuid E = U" and "bus_laws B" and "sound U B (w_db w, b)"
  shows "sound U B (w_db w', b')"
proof -
  have frame: "catalog_services (w_db w') = catalog_services (w_db w)" "tenants (w_db w') = tenants (w_db w)"
    "catalog_ownership_history (w_db w') = catalog_ownership_history (w_db w)" "idempotency_keys (w_db w') = idempotency_keys (w_db w)"
    by (cases rule: relay_claim_effect [OF assms(1,3)]; simp add: mark_published_def)+
  have d: "delivered U B (w_db w) b (w_db w') b'"
    using assms(4) by (intro relay_claim_delivered [OF assms(1,3,2)] delivered_refl) (simp_all add: sound_def)
  then have outbox: "map unmark (outbox_events (w_db w')) = map unmark (outbox_events (w_db w))" by (simp add: delivered_def)
  show ?thesis
    using assms(4) d catalog_ok_frame [OF frame(1,3)] tenants_ok_frame [OF frame(2)] keys_ok_frame [OF frame(4)]
      cl.marked [OF _ frame(1) outbox] tl.marked [OF _ frame(2) outbox]
    by (simp add: sound_def delivered_def log_ok_def tenant_log_ok_def)
qed

lemma tx_step_sound:
  assumes "tx_step U B s s'" and "uuid_laws U" and "bus_laws B" and "sound U B s"
  shows "sound U B s'"
  using assms(1,4)
proof (cases rule: tx_step.cases)
  case (catalog E now q w r w' b)
  then show ?thesis using catalog_step_sound [OF catalog(4,3) assms(2)] assms(4) by simp
next
  case (tenant E now q w r w' b)
  then show ?thesis using tenant_step_sound [OF tenant(4,3) assms(2)] assms(4) by simp
next
  case (idempotency E key hash status body w r w' b)
  then show ?thesis using idempotency_step_sound [OF idempotency(3)] assms(4) by simp
next
  case (relay E j locked R w b res w' b')
  then show ?thesis using relay_step_sound [OF relay(4,3) assms(3)] assms(4) by simp
qed

lemma reachable_sound:
  assumes "(tx_step U B)\<^sup>*\<^sup>* s s'" and "uuid_laws U" and "bus_laws B" and "sound U B s"
  shows "sound U B s'"
  using assms(1,4) by (induction rule: rtranclp_induct) (auto intro: tx_step_sound assms(2,3))

text \<open>
  From every reachable state an undisturbed drain returns and delivers everything: each turn of its
  loop is a step, and at its end every row of the outbox is marked and in the stream.
\<close>

lemma drain_delivers_all:
  assumes "uuid_laws U" and "bus_laws B" and "bus_accepts B" and "(tx_step U B)\<^sup>*\<^sup>* (empty_db, b0) (w_db w, b)"
    and "env_uuid E = U" and "env_fault E = (\<lambda>n. None)"
  obtains n w' b' where
    "DrainOnce E j (\<lambda>u. False) B (Relay_New prefix batch interval) (w, b) = Some ((n, None), w', b')"
    and "(tx_step U B)\<^sup>*\<^sup>* (empty_db, b0) (w_db w', b')"
    and "\<And>r. r \<in> set (outbox_events (w_db w')) \<Longrightarrow>
      ob_published_at r \<noteq> None \<and> uuid_String U (ob_id r) \<in> set (stream_ids B b')"
proof -
  let ?P = "\<lambda>w b. (tx_step U B)\<^sup>*\<^sup>* (empty_db, b0) (w_db w, b)" and ?R = "Relay_New prefix batch interval"
  have sound: "sound U B (w_db w, b)" if "?P w b" for w b
    by (rule reachable_sound [OF that assms(1,2) sound_empty])
  have step: "?P w' b'" if "?P w b" "relay_claim E j (\<lambda>u. False) B ?R (w, b) = (r, w', b')" for w b r w' b'
    using that(1) tx_step.relay [OF assms(5) that(2)] by (rule rtranclp.rtrancl_into_rtrancl)
  have ok: "outbox_ok (w_db w)" using sound [OF assms(4)] by (simp add: sound_def)
  obtain res w' b' where d: "DrainOnce E j (\<lambda>u. False) B ?R (w, b) = Some (res, w', b')" and P: "?P w' b'"
    and out: "case snd res of None \<Rightarrow> pending (\<lambda>u. False) (w_db w') = []
      | Some e \<Rightarrow> \<exists>w1 b1 s. ?P w1 b1 \<and> relay_claim E j (\<lambda>u. False) B ?R (w1, b1) = (Inl e, s)"
    unfolding DrainOnce_def
    by (rule drain_total [where P = ?P, OF assms(2) Relay_New_batch step ok assms(4)])
  have none: "snd res = None"
    using out relay_claim_accepted [OF assms(3,6)] by (cases "snd res") (auto, metis fst_conv sum.disc(1))
  then have "set (pending (\<lambda>u. False) (w_db w')) = {}" using out by simp
  then have "ob_published_at r \<noteq> None" if "r \<in> set (outbox_events (w_db w'))" for r using that by auto
  moreover have "published_in_stream U B (w_db w') b'" using sound [OF P] by (simp add: sound_def)
  ultimately show thesis
    using d P none by (cases res) (auto intro!: that simp: published_in_stream_def)
qed

section \<open>Properties\<close>


lemma example_registered:
  "length (catalog_services (w_db (snd (catalog_command plain_env 1000 example_registration empty_world)))) = 1 \<and>
   length (outbox_events (w_db (snd (catalog_command plain_env 1000 example_registration empty_world)))) = 1"
  by code_simp


end
