(* ===== verification/Api_Server.thy ===== *)
theory Api_Server
  imports Catalog_Api Tenant_Api Application_View Provisioning_View Httpx_Auth Control_Plane
begin

text \<open>
  The API process as \<^verbatim>\<open>cmd/api/main.go\<close> composes it: the route tables of the modules
  (\<open>routes.go\<close> and \<open>module.go\<close> of each), the middleware around them, and the server as one function
  of a request.

  The router, chi, is a parameter. \<open>ch_match\<close> is its choice among the routes of a table, for a verb
  and a path, with the parameters of the path; \<open>ch_unmatched\<close> is what it answers when there is none,
  and \<open>ch_pattern\<close> the pattern of the route it took. \<open>chi_laws\<close> is its documented behaviour: it only
  takes routes of the table, and only with their verb. The handler of the metrics registry is the
  parameter \<open>dp_metrics\<close>.
\<close>

section \<open>Routes\<close>

datatype endpoint =
    EpHealthz | EpReadyz | EpMetrics | EpApi
  | EpServiceRegister | EpServiceList | EpServiceGet | EpServiceOwnership | EpServiceLifecycle | EpServiceRetire
  | EpTenantCreate | EpTenantList | EpTenantGet | EpTenantStatus | EpTenantQuota
  | EpApplicationList | EpApplicationGet | EpWorkflowList | EpWorkflowGet

datatype route =
    Handle string string endpoint
  | Route string "route list"
  | Subrouter string endpoint

definition catalog_Mount :: "route list" where
  "catalog_Mount =
     [Route ''/services''
       [Handle ''POST'' ''/'' EpServiceRegister, Handle ''GET'' ''/'' EpServiceList, Handle ''GET'' ''/{id}'' EpServiceGet,
        Handle ''PATCH'' ''/{id}/ownership'' EpServiceOwnership, Handle ''PATCH'' ''/{id}/lifecycle'' EpServiceLifecycle,
        Handle ''DELETE'' ''/{id}'' EpServiceRetire]]"

definition tenant_Mount :: "route list" where
  "tenant_Mount =
     [Route ''/tenants''
       [Handle ''POST'' ''/'' EpTenantCreate, Handle ''GET'' ''/'' EpTenantList, Handle ''GET'' ''/{id}'' EpTenantGet,
        Handle ''PATCH'' ''/{id}/status'' EpTenantStatus, Handle ''PATCH'' ''/{id}/quota'' EpTenantQuota]]"

definition application_Mount :: "route list" where
  "application_Mount =
     [Route ''/applications''
       [Handle ''GET'' ''/'' EpApplicationList, Handle ''GET'' ''/{namespace}/{name}'' EpApplicationGet]]"

definition provisioning_Mount :: "route list" where
  "provisioning_Mount =
     [Route ''/provisioning''
       [Handle ''GET'' ''/workflows'' EpWorkflowList, Handle ''GET'' ''/workflows/{workflowId}'' EpWorkflowGet]]"

definition api_routes :: "route list" where
  "api_routes = catalog_Mount @ tenant_Mount @ application_Mount @ provisioning_Mount"

definition root_routes :: "route list" where
  "root_routes =
     [Handle ''GET'' ''/healthz'' EpHealthz, Handle ''GET'' ''/readyz'' EpReadyz, Handle ''GET'' ''/metrics'' EpMetrics,
      Subrouter ''/api/v1'' EpApi]"

fun serves :: "route \<Rightarrow> string \<Rightarrow> endpoint \<Rightarrow> bool" where
  "serves (Handle verb pattern e) v e' = (verb = v \<and> e = e')"
| "serves (Route pattern rs) v e' = (\<exists>r \<in> set rs. serves r v e')"
| "serves (Subrouter pattern e) v e' = (e = e')"

record chi =
  ch_match :: "route list \<Rightarrow> string \<Rightarrow> string \<Rightarrow> (endpoint \<times> (string \<Rightarrow> string)) option"
  ch_unmatched :: "route list \<Rightarrow> string \<Rightarrow> string \<Rightarrow> response"
  ch_pattern :: "string \<Rightarrow> string \<Rightarrow> string"

definition chi_laws :: "chi \<Rightarrow> bool" where
  "chi_laws C \<longleftrightarrow> (\<forall>rs verb path e ps. ch_match C rs verb path = Some (e, ps) \<longrightarrow> (\<exists>r \<in> set rs. serves r verb e))"

section \<open>The server\<close>

text \<open>What the handlers reach: the database, the cluster and Temporal.\<close>

record ('k, 't) backend =
  bk_world :: world
  bk_kube :: 'k
  bk_temporal :: 't

record ('k, 't, 'l) deps =
  dp_chi :: chi
  dp_http :: http_lib
  dp_jwt :: "jwks_verifier jwt_lib"
  dp_fetch :: key_endpoint
  dp_verb :: "string \<Rightarrow> string"
  dp_rate :: "'l rate_lib"
  dp_apps :: "'k application_reader"
  dp_workflows :: "'t workflow_reader"
  dp_metrics :: "request \<Rightarrow> response"
  dp_fresh :: "request \<Rightarrow> string"
  dp_elapsed :: "request \<Rightarrow> time"

definition on_world :: "world handler \<Rightarrow> ('k, 't) backend handler" where
  "on_world h r b = (case h r (bk_world b) of (out, w) \<Rightarrow> (out, b\<lparr>bk_world := w\<rparr>))"

definition on_kube :: "'k handler \<Rightarrow> ('k, 't) backend handler" where
  "on_kube h r b = (case h r (bk_kube b) of (out, k) \<Rightarrow> (out, b\<lparr>bk_kube := k\<rparr>))"

definition on_temporal :: "'t handler \<Rightarrow> ('k, 't) backend handler" where
  "on_temporal h r b = (case h r (bk_temporal b) of (out, t) \<Rightarrow> (out, b\<lparr>bk_temporal := t\<rparr>))"

text \<open>
  The handlers of the endpoints; the path parameter \<^verbatim>\<open>{id}\<close> is \<open>rq_id\<close>. The API is built with an
  idempotency store.
\<close>

definition dispatch :: "env \<Rightarrow> ('k, 't, 'l) deps \<Rightarrow> endpoint \<Rightarrow> (string \<Rightarrow> string) \<Rightarrow> ('k, 't) backend handler" where
  "dispatch E D e ps r b =
     (let q = r\<lparr>rq_id := ps ''id''\<rparr>; H = dp_http D
      in case e of
           EpServiceRegister \<Rightarrow> on_world (Register_handler E H True) q b
         | EpServiceList \<Rightarrow> on_world (List_handler E) q b
         | EpServiceGet \<Rightarrow> on_world (Get_handler E) q b
         | EpServiceOwnership \<Rightarrow> on_world (ChangeOwnership_handler E H) q b
         | EpServiceLifecycle \<Rightarrow> on_world (ChangeLifecycle_handler E H) q b
         | EpServiceRetire \<Rightarrow> on_world (Retire_handler E) q b
         | EpTenantCreate \<Rightarrow> on_world (Tenant_Create_handler E H) q b
         | EpTenantList \<Rightarrow> on_world (Tenant_List_handler E) q b
         | EpTenantGet \<Rightarrow> on_world (Tenant_Get_handler E) q b
         | EpTenantStatus \<Rightarrow> on_world (ChangeStatus_handler E H) q b
         | EpTenantQuota \<Rightarrow> on_world (UpdateQuota_handler E H) q b
         | EpApplicationList \<Rightarrow> on_kube (Application_List_handler (dp_apps D)) q b
         | EpApplicationGet \<Rightarrow> on_kube (Application_Get_handler (dp_apps D) ps) q b
         | EpWorkflowList \<Rightarrow> on_temporal (Workflow_List_handler (dp_workflows D)) q b
         | EpWorkflowGet \<Rightarrow> on_temporal (Workflow_Get_handler (dp_workflows D) ps) q b
         | _ \<Rightarrow> (Responded (ch_unmatched (dp_chi D) api_routes [] []), b))"

definition api_route :: "env \<Rightarrow> ('k, 't, 'l) deps \<Rightarrow> string \<Rightarrow> string \<Rightarrow> ('k, 't) backend handler" where
  "api_route E D verb path r b =
     (case ch_match (dp_chi D) api_routes verb path of
        None \<Rightarrow> (Responded (ch_unmatched (dp_chi D) api_routes verb path), b)
      | Some (e, ps) \<Rightarrow> dispatch E D e ps r b)"

type_synonym ('k, 't, 'l) protected = "verifier \<times> ('k, 't) backend \<times> 'l keyedLimiter"

definition api_v1 :: "env \<Rightarrow> ('k, 't, 'l) deps \<Rightarrow> string \<Rightarrow> string \<Rightarrow> ('k, 't, 'l) protected handler" where
  "api_v1 E D verb path =
     Authenticate (Verify (dp_jwt D) (dp_fetch D) (dp_verb D))
       (RateLimit (dp_rate D) (api_route E D verb path))"

text \<open>\<^verbatim>\<open>pool.Health\<close> is a ping of the database.\<close>

definition Health :: "env \<Rightarrow> ('k, 't, 'l) protected \<Rightarrow> go_error option" where
  "Health E s = env_fault E (w_stmts (bk_world (fst (snd s))))"

definition root_route :: "env \<Rightarrow> ('k, 't, 'l) deps \<Rightarrow> string \<Rightarrow> string \<Rightarrow> ('k, 't, 'l) protected handler" where
  "root_route E D verb path r s =
     (case ch_match (dp_chi D) root_routes verb path of
        None \<Rightarrow> (Responded (ch_unmatched (dp_chi D) root_routes verb path), s)
      | Some (e, ps) \<Rightarrow>
          (case e of
             EpHealthz \<Rightarrow> Liveness r s
           | EpReadyz \<Rightarrow> Readiness (Health E) r s
           | EpMetrics \<Rightarrow> (Responded (dp_metrics D r), s)
           | _ \<Rightarrow> api_v1 E D verb path r s))"

definition serve ::
    "env \<Rightarrow> ('k, 't, 'l) deps \<Rightarrow> string \<Rightarrow> string \<Rightarrow> (('k, 't, 'l) protected \<times> metrics) handler" where
  "serve E D verb path =
     Recoverer (Correlate (dp_fresh D)
       (Observe (ch_pattern (dp_chi D) verb path) verb (dp_elapsed D) (root_route E D verb path)))"

text \<open>
  The start of the process: the modules of the views fall back to their disabled readers when the
  client of the cluster or of Temporal cannot be built; the verifier is the configured one, and the
  limiter and the metrics are new.
\<close>

definition application_module ::
    "go_error + ('k, 'q) kube \<times> 'k app_lister \<Rightarrow> 'k application_reader" where
  "application_module c = (case c of Inl err \<Rightarrow> DisabledReader | Inr (K, lst) \<Rightarrow> KubeReader K lst)"

definition provisioning_module :: "string \<Rightarrow> go_error + 't temporal_client \<Rightarrow> 't workflow_reader" where
  "provisioning_module namespace c =
     (case c of Inl err \<Rightarrow> DisabledWorkflowReader | Inr C \<Rightarrow> TemporalReader C namespace)"

definition initial_state ::
    "'f config \<Rightarrow> ('k, 't) backend \<Rightarrow> ('k, 't, 'l) protected \<times> metrics" where
  "initial_state cfg b = ((buildVerifier (cf_Auth cfg), b, newKeyedLimiter), NewMetrics)"

section \<open>Requests are transactions\<close>

text \<open>The tables after a handler are those after some transactions of the control plane.\<close>

definition by_transactions :: "uuid_lib \<Rightarrow> 'b bus_lib \<Rightarrow> 'b \<Rightarrow> world \<Rightarrow> world \<Rightarrow> bool" where
  "by_transactions U B b w w' \<longleftrightarrow> (tx_step U B)\<^sup>*\<^sup>* (w_db w, b) (w_db w', b)"

lemma by_reading: "w_db w' = w_db w \<Longrightarrow> by_transactions U B b w w'"
  by (simp add: by_transactions_def)

lemma by_transactions_trans:
  "by_transactions U B b w w1 \<Longrightarrow> by_transactions U B b w1 w2 \<Longrightarrow> by_transactions U B b w w2"
  by (simp add: by_transactions_def)

lemma by_catalog_command:
  "env_uuid E = U \<Longrightarrow> catalog_command E now q w = (r, w') \<Longrightarrow> by_transactions U B b w w'"
  by (auto simp: by_transactions_def intro: r_into_rtranclp tx_step.catalog)

lemma by_tenant_command:
  "env_uuid E = U \<Longrightarrow> w' = w \<or> (\<exists>q. snd (tenant_command E now q w) = w') \<Longrightarrow> by_transactions U B b w w'"
  using tx_step.tenant [OF _ prod.collapse [symmetric], where B = B and b = b and U = U and E = E]
  by (auto simp: by_transactions_def)

lemma by_idempotency_save: "by_transactions U B b w (snd (Idempotency_Save E key hash status body w))"
  using tx_step.idempotency [OF prod.collapse [symmetric], where B = B and b = b and U = U]
  by (simp add: by_transactions_def r_into_rtranclp)

lemma service_answer_world: "service_answer E r res = (out, w') \<Longrightarrow> snd res = w'"
  by (auto simp: service_answer_def split: prod.splits sum.splits)

lemma Get_handler_db: "Get_handler E r w = (out, w') \<Longrightarrow> w_db w' = w_db w"
  by (auto simp: Get_handler_def GetService_def split: sum.splits dest!: service_answer_world)

lemma Repository_List_db:
  assumes "Repository_List E f w = (r, w')"
  shows "w_db w' = w_db w"
proof -
  have sel: "w_db w2 = w_db w1" if "sql E (select_services E f cur) w1 = (res, w2)" for cur w1 res w2
    using that by (rule sql_read) (rule select_services_db)
  have err: "w_db w2 = w_db w1" if "sql E (\<lambda>d. (Inr (), d)) w1 = (res, w2)" for w1 w2 and res :: "go_error + unit"
    using that by (rule sql_read) simp
  show ?thesis
    using assms unfolding Repository_List_def Let_def
    by (auto split: sum.splits prod.splits if_splits dest!: sel err)
qed

lemma List_handler_db: "List_handler E r w = (out, w') \<Longrightarrow> w_db w' = w_db w"
  by (auto simp: List_handler_def ListServices_def dest!: Repository_List_db split: sum.splits prod.splits)

lemma Retire_handler_runs:
  assumes "Retire_handler E r w = (out, w')" and "env_uuid E = U"
  shows "by_transactions U B b w w'"
  using service_answer_world [OF assms(1) [unfolded Retire_handler_def]]
  by (intro by_catalog_command [OF assms(2), of "rq_now r" "RetireRequest q" for q]) (auto intro: prod_eqI)

lemma ChangeOwnership_handler_runs:
  assumes "ChangeOwnership_handler E H r w = (out, w')" and "env_uuid E = U"
  shows "by_transactions U B b w w'"
proof (cases "httpx_Decode (hl_json_error H) ownership_fields \<lparr>cor_OwningTeam = [], cor_OnCallRef = []\<rparr> r")
  case (Inr req)
  let ?q = "\<lparr>co_ServiceID = rq_id r, co_OwningTeam = cor_OwningTeam req, co_OnCallRef = cor_OnCallRef req,
             co_ExpectedVersion = ifMatch r\<rparr>"
  have "snd (catalog_command E (rq_now r) (OwnershipRequest ?q) w) = w'"
    using assms(1) Inr by (auto simp: ChangeOwnership_handler_def dest: service_answer_world)
  then show ?thesis by (metis by_catalog_command [OF assms(2)] prod.collapse)
qed (use assms in \<open>simp add: ChangeOwnership_handler_def by_reading\<close>)

lemma ChangeLifecycle_handler_runs:
  assumes "ChangeLifecycle_handler E H r w = (out, w')" and "env_uuid E = U"
  shows "by_transactions U B b w w'"
proof (cases "httpx_Decode (hl_json_error H) lifecycle_fields [] r")
  case (Inr lc)
  let ?q = "\<lparr>cl_ServiceID = rq_id r, cl_Lifecycle = lc, cl_ExpectedVersion = ifMatch r\<rparr>"
  have "snd (catalog_command E (rq_now r) (LifecycleRequest ?q) w) = w'"
    using assms(1) Inr by (auto simp: ChangeLifecycle_handler_def dest: service_answer_world)
  then show ?thesis by (metis by_catalog_command [OF assms(2)] prod.collapse)
qed (use assms in \<open>simp add: ChangeLifecycle_handler_def by_reading\<close>)

lemma Register_handler_runs:
  assumes run: "Register_handler E H idem r w = (out, w')" and U: "env_uuid E = U"
  shows "by_transactions U B b w w'"
proof (cases "\<exists>body inp. ReadAll r = Some body \<and>
    Option.bind (Unmarshal body) (\<lambda>v. decode_struct False register_fields v empty_register) = Some inp")
  case False
  with run have "w' = w" by (auto simp: Register_handler_def split: option.splits)
  then show ?thesis by (simp add: by_reading)
next
  case True
  then obtain body inp where body: "ReadAll r = Some body"
    and inp: "Option.bind (Unmarshal body) (\<lambda>v. decode_struct False register_fields v empty_register) = Some inp" by blast
  let ?key = "rq_header r ''Idempotency-Key''"
  let ?keyed = "?key \<noteq> [] \<and> idem"
  obtain l w1 where l: "(if ?keyed then Idempotency_Lookup E ?key w else (Inr None, w)) = (l, w1)" by fastforce
  have w1: "by_transactions U B b w w1"
    using l by (intro by_reading) (auto dest: Idempotency_Lookup_db split: if_splits)
  show ?thesis
  proof (cases "l = Inr None")
    case False
    with run body inp l have "w' = w1" by (auto simp: Register_handler_def Let_def split: sum.splits option.splits)
    with w1 show ?thesis by simp
  next
    case True
    obtain q w2 where q: "RegisterService E (rq_now r) inp w1 = (q, w2)" by fastforce
    have w2: "by_transactions U B b w w2"
      by (rule by_transactions_trans [OF w1 by_catalog_command [OF U, of "rq_now r" "RegisterRequest inp"]]) (simp add: q)
    have failed: "w_db (snd (sql E (\<lambda>d. (Inl pg_json_error :: go_error + unit, d)) w3)) = w_db w3" for w3
      by (simp add: sql_def Let_def split: option.splits)
    have "w' = w2 \<or> (\<exists>stored. w' = snd (Idempotency_Save E ?key (hl_sha256_hex H body) 201 stored w2)) \<or> w_db w' = w_db w2"
      using run body inp l True q failed by (auto simp: Register_handler_def Let_def split: sum.splits option.splits if_splits)
    then show ?thesis using w2 by (auto intro: by_transactions_trans by_idempotency_save by_reading)
  qed
qed

lemma dispatch_runs:
  assumes "dispatch E D e ps r k = (out, k')" and U: "env_uuid E = U"
  shows "by_transactions U B b (bk_world k) (bk_world k')"
proof -
  have world: "\<exists>w'. h q (bk_world k) = (out, w') \<and> bk_world k' = w'" if "on_world h q k = (out, k')" for h q
    using that by (auto simp: on_world_def split: prod.splits)
  have other: "on_kube hk q k = (out, k') \<Longrightarrow> bk_world k' = bk_world k"
    "on_temporal ht q k = (out, k') \<Longrightarrow> bk_world k' = bk_world k" for hk ht q
    by (auto simp: on_kube_def on_temporal_def split: prod.splits)
  note reads = Get_handler_db List_handler_db Tenant_Get_handler_db Tenant_List_handler_db
  note writes = Register_handler_runs [OF _ U] ChangeOwnership_handler_runs [OF _ U] ChangeLifecycle_handler_runs [OF _ U]
    Retire_handler_runs [OF _ U] by_tenant_command [OF U Tenant_Create_handler_command]
    by_tenant_command [OF U ChangeStatus_handler_command] by_tenant_command [OF U UpdateQuota_handler_command]
  show ?thesis
  proof (cases e)
    case EpServiceGet
    then show ?thesis using assms(1) by (auto simp: dispatch_def Let_def dest!: world reads intro: by_reading)
  qed (use assms(1) in \<open>auto simp: dispatch_def Let_def by_reading dest!: world other intro: writes by_reading reads\<close>)
qed

lemma api_v1_runs:
  assumes "api_v1 E D verb path r (v, k, lim) = (out, v', k', lim')" and U: "env_uuid E = U"
  shows "by_transactions U B b (bk_world k) (bk_world k')"
proof -
  have "k' = k \<or> (\<exists>q o'. api_route E D verb path q k = (o', k'))"
    using assms(1) by (auto simp: api_v1_def Authenticate_def RateLimit_def split: if_splits prod.splits sum.splits bool.splits)
  then have "k' = k \<or> (\<exists>e ps q o'. dispatch E D e ps q k = (o', k'))"
    by (auto simp: api_route_def split: option.splits)
  then show ?thesis using dispatch_runs [OF _ U] by (auto intro: by_reading)
qed

section \<open>The middleware\<close>

definition correlation_of :: "(request \<Rightarrow> string) \<Rightarrow> request \<Rightarrow> string" where
  "correlation_of fresh r =
     (if rq_header r correlationHeader = '''' then fresh r else rq_header r correlationHeader)"

lemma set_header_Responded [simp]:
  "set_header k v (Responded rs) = Responded (rs\<lparr>rs_headers := [k \<mapsto> v] ++ rs_headers rs\<rparr>)"
  "set_header k v (Panicked hs) = Panicked ([k \<mapsto> v] ++ hs)"
  by (simp_all add: set_header_def)

text \<open>Every request is answered, with a correlation identifier.\<close>

lemma Recoverer_Correlate:
  assumes "Recoverer (Correlate fresh next) r s = (out, s')"
  obtains (answered) rs where "next (r\<lparr>rq_correlation := Some (correlation_of fresh r)\<rparr>) s = (Responded rs, s')"
      and "out = Responded (rs\<lparr>rs_headers := [correlationHeader \<mapsto> correlation_of fresh r] ++ rs_headers rs\<rparr>)"
  | (recovered) hs where "next (r\<lparr>rq_correlation := Some (correlation_of fresh r)\<rparr>) s = (Panicked hs, s')"
      and "out = Responded (httpx_Error ([correlationHeader \<mapsto> correlation_of fresh r] ++ hs) r
             (Internal ''PANIC'' ''an unexpected error occurred''))"
proof (cases "next (r\<lparr>rq_correlation := Some (correlation_of fresh r)\<rparr>) s")
  case (Pair o1 s1)
  then show thesis
    using assms that
    by (cases o1) (auto simp: Recoverer_def Correlate_def Let_def correlation_of_def [symmetric])
qed

lemma Observe_cases:
  assumes "Observe pattern verb elapsed next r (s, m) = (out, s', m')"
  shows "next r s = (out, s')" and "out = Panicked hs \<Longrightarrow> m' = m"
  using assms by (auto simp: Observe_def Let_def split: prod.splits outcome.splits)

lemma serve_root:
  assumes "serve E D verb path r (s, m) = (out, s', m')"
  obtains (answered) rs where "root_route E D verb path (r\<lparr>rq_correlation := Some (correlation_of (dp_fresh D) r)\<rparr>) s = (Responded rs, s')"
      and "out = Responded (rs\<lparr>rs_headers := [correlationHeader \<mapsto> correlation_of (dp_fresh D) r] ++ rs_headers rs\<rparr>)"
  | (recovered) hs where "root_route E D verb path (r\<lparr>rq_correlation := Some (correlation_of (dp_fresh D) r)\<rparr>) s = (Panicked hs, s')"
      and "out = Responded (httpx_Error ([correlationHeader \<mapsto> correlation_of (dp_fresh D) r] ++ hs) r
             (Internal ''PANIC'' ''an unexpected error occurred''))"
  using assms unfolding serve_def
  by (cases rule: Recoverer_Correlate) (auto dest!: Observe_cases(1) intro: that)

lemma root_route_runs:
  assumes "root_route E D verb path r (v, k, lim) = (out, v', k', lim')" and "env_uuid E = U"
  shows "by_transactions U B b (bk_world k) (bk_world k')"
proof -
  have "k' = k \<or> api_v1 E D verb path r (v, k, lim) = (out, v', k', lim')"
    using assms(1) by (auto simp: root_route_def Liveness_def Readiness_def split: option.splits endpoint.splits)
  then show ?thesis using api_v1_runs [OF _ assms(2)] by (auto intro: by_reading)
qed

section \<open>Properties\<close>

text \<open>
  C2: A request is a sequence of transactions. Whatever the request and whatever fails, the server
  answers it, with a correlation identifier in the response's header, and what it did to the tables
  is what some transactions of the catalog, the tenant registry and the idempotency store do, one
  after the other. So what every reachable state of the control plane satisfies, the API keeps,
  however its requests are interleaved.
\<close>

theorem request_is_transactions:
  assumes "env_uuid E = U" and "serve E D verb path r ((v, k, lim), m) = (out, (v', k', lim'), m')"
  shows "(tx_step U B)\<^sup>*\<^sup>* (w_db (bk_world k), b) (w_db (bk_world k'), b) \<and>
    (\<exists>rs. out = Responded rs \<and> rs_headers rs correlationHeader \<noteq> None)"
proof -
  have hd: "rs_headers (httpx_Error ([correlationHeader \<mapsto> c] ++ hs) r e) correlationHeader \<noteq> None" for c hs e
    by (simp add: httpx_Error_def JSON_def map_add_def content_json_def correlationHeader_def split: option.split)
  from assms(2) show ?thesis
  proof (cases rule: serve_root)
    case (answered rs)
    with root_route_runs [OF answered(1) assms(1), of B b] show ?thesis
      by (simp add: by_transactions_def map_add_def split: option.split)
  next
    case (recovered hs)
    with root_route_runs [OF recovered(1) assms(1), of B b] hd show ?thesis by (simp add: by_transactions_def)
  qed
qed

text \<open>A server for the witnesses: it routes one path, and its clients are those of the components.\<close>

definition example_chi :: chi where
  "example_chi =
     \<lparr>ch_match = (\<lambda>rs verb path.
        if path \<noteq> ''/api/v1/services'' then None
        else if rs = root_routes then Some (EpApi, \<lambda>p. [])
        else if rs = api_routes \<and> verb = ''GET'' then Some (EpServiceList, \<lambda>p. [])
        else None),
      ch_unmatched = (\<lambda>rs verb path. \<lparr>rs_status = 404, rs_headers = Map.empty, rs_body = ''404 page not found''\<rparr>),
      ch_pattern = (\<lambda>verb path. path)\<rparr>"

lemma example_chi_laws [simp]: "chi_laws example_chi"
proof -
  have "\<exists>r \<in> set root_routes. serves r verb EpApi" for verb by (simp add: root_routes_def)
  moreover have "\<exists>r \<in> set api_routes. serves r ''GET'' EpServiceList" by (simp add: api_routes_def catalog_Mount_def)
  ultimately show ?thesis unfolding chi_laws_def by (auto simp: example_chi_def split: if_splits)
qed

definition example_deps :: "(string cluster, unit, nat) deps" where
  "example_deps =
     \<lparr>dp_chi = example_chi, dp_http = plain_http_lib, dp_jwt = example_jwt, dp_fetch = example_endpoint, dp_verb = id,
      dp_rate = \<lparr>rl_NewLimiter = 5, rl_Allow = (\<lambda>n now. (0 < n, n - 1))\<rparr>, dp_apps = KubeReader plain_kube example_lister,
      dp_workflows = DisabledWorkflowReader, dp_metrics = (\<lambda>r. \<lparr>rs_status = 200, rs_headers = Map.empty, rs_body = []\<rparr>),
      dp_fresh = (\<lambda>r. ''c-2''), dp_elapsed = (\<lambda>r. 0)\<rparr>"

definition example_backend :: "(string cluster, unit) backend" where
  "example_backend = \<lparr>bk_world = example_world, bk_kube = example_cluster, bk_temporal = ()\<rparr>"

theorem request_is_transactions_witness:
  "\<exists>rs s'. serve plain_env example_deps ''GET'' ''/api/v1/services'' example_request
       ((HMACVerifier ''s'', example_backend, newKeyedLimiter), NewMetrics) = (Responded rs, s') \<and>
     rs_headers rs correlationHeader \<noteq> None \<and>
     (tx_step canonical_uuid_lib list_bus)\<^sup>*\<^sup>* (w_db example_world, []) (w_db (bk_world (fst (snd (fst s')))), [])"
proof -
  obtain out v' k' lim' m' where s: "serve plain_env example_deps ''GET'' ''/api/v1/services'' example_request
       ((HMACVerifier ''s'', example_backend, newKeyedLimiter), NewMetrics) = (out, (v', k', lim'), m')"
    by (metis prod.exhaust)
  have U: "env_uuid plain_env = canonical_uuid_lib" by (simp add: plain_env_def)
  from request_is_transactions [OF U s, of list_bus "[]"] s show ?thesis by (auto simp: example_backend_def)
qed

lemma httpx_Error_correlation:
  "rs_status (httpx_Error hs r (Unauthorized code message)) = 401 \<and>
   rs_headers (httpx_Error Map.empty r err) correlationHeader = None"
  using unauthorized_status [of hs r code message]
  by (simp add: httpx_Error_def JSON_def content_json_def correlationHeader_def)

lemma Verify_refused: "Verify J fetch verb now token vf = (Inl err, vf') \<Longrightarrow> err = invalid_token"
  by (auto simp: Verify_def HMAC_Verify_def JWKS_Verify_def split: verifier.splits prod.splits sum.splits)

text \<open>
  C33: A request that is not authenticated does nothing. When it carries no bearer token, or one
  that the verifier refuses, then whatever its verb, path and body the database, the cluster,
  Temporal and the rate limiter's buckets are exactly as before (only the verifier may have fetched
  keys); and if its path is under \<^verbatim>\<open>/api/v1\<close>, known there or not, it is answered 401 with its
  correlation identifier. Only the probes, the metrics and paths that are not routed are answered
  otherwise.
\<close>

theorem unauthenticated_request_inert:
  assumes "serve E D verb path r ((v, k, lim), m) = (out, (v', k', lim'), m')"
    and "\<not> HasPrefix (rq_header r ''Authorization'') ''Bearer '' \<or>
      isl (fst (Verify (dp_jwt D) (dp_fetch D) (dp_verb D) (rq_now r) (TrimPrefix (rq_header r ''Authorization'') ''Bearer '') v))"
  shows "k' = k \<and> lim' = lim \<and>
    ((\<exists>e ps. ch_match (dp_chi D) root_routes verb path = Some (e, ps) \<and> e \<notin> {EpHealthz, EpReadyz, EpMetrics}) \<longrightarrow>
       (\<exists>rs. out = Responded rs \<and> rs_status rs = 401 \<and>
          rs_headers rs correlationHeader = Some (correlation_of (dp_fresh D) r)))"
proof -
  let ?r = "r\<lparr>rq_correlation := Some (correlation_of (dp_fresh D) r)\<rparr>"
  obtain o1 v1 k1 lim1 where a: "api_v1 E D verb path ?r (v, k, lim) = (o1, v1, k1, lim1)" by (metis prod.exhaust)
  have api: "k1 = k \<and> lim1 = lim \<and> (\<exists>rs. o1 = Responded rs \<and> rs_status rs = 401 \<and> rs_headers rs correlationHeader = None)"
    using a assms(2)
    by (auto simp: api_v1_def Authenticate_def httpx_Error_correlation invalid_token_def
        split: if_splits prod.splits sum.splits dest!: Verify_refused)
  show ?thesis
    using assms(1)
  proof (cases rule: serve_root)
    case (answered rs)
    with a api show ?thesis
      by (auto simp: map_add_def root_route_def Liveness_def Readiness_def split: option.splits endpoint.splits prod.splits)
  next
    case (recovered hs)
    with a api show ?thesis
      by (auto simp: root_route_def Liveness_def Readiness_def split: option.splits endpoint.splits)
  qed
qed

theorem unauthenticated_request_inert_witness:
  "\<exists>rs m'. serve plain_env example_deps ''DELETE'' ''/api/v1/services'' example_request
       ((HMACVerifier ''s'', example_backend, newKeyedLimiter), NewMetrics) =
       (Responded rs, (HMACVerifier ''s'', example_backend, newKeyedLimiter), m') \<and> rs_status rs = 401"
proof -
  obtain out v' k' lim' m' where s: "serve plain_env example_deps ''DELETE'' ''/api/v1/services'' example_request
       ((HMACVerifier ''s'', example_backend, newKeyedLimiter), NewMetrics) = (out, (v', k', lim'), m')"
    by (metis prod.exhaust)
  have h: "\<not> HasPrefix (rq_header example_request ''Authorization'') ''Bearer ''"
    by (simp add: example_request_def HasPrefix_def)
  have "ch_match (dp_chi example_deps) root_routes ''DELETE'' ''/api/v1/services'' = Some (EpApi, \<lambda>p. [])"
    by (simp add: example_deps_def example_chi_def)
  with unauthenticated_request_inert [OF s] h obtain rs where "k' = example_backend" "lim' = newKeyedLimiter"
    "out = Responded rs" "rs_status rs = 401" by (auto simp: example_deps_def)
  moreover from s h have "v' = HMACVerifier ''s''"
    by (auto simp: root_route_def api_v1_def Authenticate_def example_deps_def example_chi_def elim!: serve_root)
  ultimately show ?thesis using s by auto
qed

lemma get_endpoints:
  assumes "chi_laws C" and "ch_match C api_routes ''GET'' path = Some (e, ps)"
  shows "e \<in> {EpServiceList, EpServiceGet, EpTenantList, EpTenantGet, EpApplicationList, EpApplicationGet,
    EpWorkflowList, EpWorkflowGet}"
proof -
  have "\<exists>r \<in> set api_routes. serves r ''GET'' e" using assms unfolding chi_laws_def by blast
  then show ?thesis
    by (auto simp: api_routes_def catalog_Mount_def tenant_Mount_def application_Mount_def provisioning_Mount_def)
qed

lemma on_world_reads:
  assumes "on_world h q k = (out, k')" and "\<And>r w out w'. h r w = (out, w') \<Longrightarrow> w_db w' = w_db w"
  shows "w_db (bk_world k') = w_db (bk_world k) \<and> view (bk_kube k') = view (bk_kube k)"
  using assms(1) assms(2) [of q "bk_world k"] by (auto simp: on_world_def split: prod.splits)

lemma on_kube_reads:
  assumes "on_kube h q k = (out, k')" and "\<And>r x out x'. h r x = (out, x') \<Longrightarrow> view x' = view x"
  shows "w_db (bk_world k') = w_db (bk_world k) \<and> view (bk_kube k') = view (bk_kube k)"
  using assms(1) assms(2) [of q "bk_kube k"] by (auto simp: on_kube_def split: prod.splits)

lemma get_dispatch_reads:
  assumes "dispatch E D e ps r k = (out, k')" and "reader_contract (dp_apps D) view"
    and "e \<in> {EpServiceList, EpServiceGet, EpTenantList, EpTenantGet, EpApplicationList, EpApplicationGet,
      EpWorkflowList, EpWorkflowGet}"
  shows "w_db (bk_world k') = w_db (bk_world k) \<and> view (bk_kube k') = view (bk_kube k)"
proof -
  note reads = on_world_reads [OF _ Get_handler_db] on_world_reads [OF _ List_handler_db]
    on_world_reads [OF _ Tenant_Get_handler_db] on_world_reads [OF _ Tenant_List_handler_db]
    on_kube_reads [where view = view, OF _ reader_contract.list_handler_reads [OF assms(2)]]
    on_kube_reads [where view = view, OF _ reader_contract.get_handler_reads [OF assms(2)]]
  from assms(1,3) show ?thesis
    by (elim insertE emptyE)
      (simp_all add: dispatch_def Let_def reads, auto simp: on_temporal_def split: prod.splits)
qed

text \<open>
  C35: GET is safe. A GET request, to whatever path and whoever sends it, changes no table of the
  database and nothing observable of the cluster, whether the applications view is enabled or
  not: the router takes only routes that were mounted with that verb, and each of their handlers
  only reads.
\<close>

theorem get_is_safe:
  assumes "chi_laws (dp_chi D)" and "kube_laws K" and "list_laws K lst" and "dp_apps D = application_module c"
    and "c = Inr (K, lst) \<or> isl c"
    and "serve E D ''GET'' path r ((v, k, lim), m) = (out, (v', k', lim'), m')"
  shows "w_db (bk_world k') = w_db (bk_world k) \<and> kc_view K (bk_kube k') = kc_view K (bk_kube k)"
proof -
  have "reader_contract DisabledReader (kc_view K)" by unfold_locales (auto simp: DisabledReader_def)
  then have reader: "reader_contract (dp_apps D) (kc_view K)"
    using assms(4,5) KubeReader_contract [OF assms(2,3)] by (auto simp: application_module_def split: sum.splits)
  let ?r = "r\<lparr>rq_correlation := Some (correlation_of (dp_fresh D) r)\<rparr>"
  obtain o1 where "root_route E D ''GET'' path ?r (v, k, lim) = (o1, v', k', lim')"
    using assms(6) by (cases rule: serve_root) auto
  then have "k' = k \<or> api_v1 E D ''GET'' path ?r (v, k, lim) = (o1, v', k', lim')"
    by (auto simp: root_route_def Liveness_def Readiness_def split: option.splits endpoint.splits)
  then have "k' = k \<or> (\<exists>q o2. api_route E D ''GET'' path q k = (o2, k'))"
    by (auto simp: api_v1_def Authenticate_def RateLimit_def split: if_splits prod.splits sum.splits bool.splits)
  then have "k' = k \<or> (\<exists>e ps q o2. ch_match (dp_chi D) api_routes ''GET'' path = Some (e, ps) \<and> dispatch E D e ps q k = (o2, k'))"
    by (auto simp: api_route_def split: option.splits)
  then show ?thesis using get_dispatch_reads [OF _ reader] get_endpoints [OF assms(1)] by metis
qed

theorem get_is_safe_witness:
  "\<exists>out v' k' lim' m'. serve plain_env example_deps ''GET'' ''/api/v1/services'' example_request
       ((HMACVerifier ''s'', example_backend, newKeyedLimiter), NewMetrics) = (out, (v', k', lim'), m') \<and>
     w_db (bk_world k') = w_db example_world \<and> bk_kube k' = example_cluster"
proof -
  obtain out v' k' lim' m' where s: "serve plain_env example_deps ''GET'' ''/api/v1/services'' example_request
       ((HMACVerifier ''s'', example_backend, newKeyedLimiter), NewMetrics) = (out, (v', k', lim'), m')"
    by (metis prod.exhaust)
  have "chi_laws (dp_chi example_deps)" "dp_apps example_deps = application_module (Inr (plain_kube, example_lister))"
    by (simp_all add: example_deps_def application_module_def)
  from get_is_safe [OF this(1) plain_kube_laws example_list_laws this(2) _ s] s show ?thesis
    by (auto simp: example_backend_def plain_kube_def)
qed

text \<open>
  C20: A panic is answered, but cannot be traced from the answer's body. When the handlers behind
  the metrics panic, the client gets status 500 with the fixed code \<^verbatim>\<open>PANIC\<close> and the correlation
  identifier in the header; yet the \<^verbatim>\<open>correlationId\<close> of the body is empty, because the recovering
  middleware runs outside the one that assigns the identifier, and the request is counted in no
  metric.
\<close>

theorem panic_answer_uncorrelated:
  assumes "next (r\<lparr>rq_correlation := Some (correlation_of fresh r)\<rparr>) s = (Panicked hs, s')"
    and "rq_correlation r = None" and "hs correlationHeader = None"
  shows "\<exists>rs. Recoverer (Correlate fresh (Observe pattern verb elapsed next)) r (s, m) = (Responded rs, s', m) \<and>
    rs_status rs = 500 \<and> rs_headers rs correlationHeader = Some (correlation_of fresh r) \<and>
    rs_body rs = Marshal (JObj [(''code'', JStr ''PANIC''), (''message'', JStr ''an unexpected error occurred''),
      (''correlationId'', JStr '''')]) @ [CHR 0x0A]"
proof -
  obtain out t where t: "Recoverer (Correlate fresh (Observe pattern verb elapsed next)) r (s, m) = (out, t)"
    by (metis prod.exhaust)
  have o: "Observe pattern verb elapsed next (r\<lparr>rq_correlation := Some (correlation_of fresh r)\<rparr>) (s, m) = (Panicked hs, s', m)"
    using assms(1) by (simp add: Observe_def)
  from t show ?thesis
  proof (cases rule: Recoverer_Correlate)
    case (recovered hs')
    with t o assms(2,3) show ?thesis
      by (simp add: httpx_Error_def JSON_def error_body_def Internal_def New_def CorrelationID_def content_json_def
          correlationHeader_def map_add_def)
  qed (use o in simp)
qed

theorem panic_answer_uncorrelated_witness:
  "\<exists>rs. Recoverer (Correlate (\<lambda>r. ''c-9'') (Observe ''/x'' ''GET'' (\<lambda>r. 0) (\<lambda>r n. (Panicked Map.empty, Suc n))))
      (example_request\<lparr>rq_correlation := None\<rparr>) (0, NewMetrics) = (Responded rs, 1, NewMetrics) \<and>
     rs_headers rs correlationHeader = Some ''c-9''"
proof -
  let ?r = "example_request\<lparr>rq_correlation := None\<rparr>"
  have "correlation_of (\<lambda>r. ''c-9'') ?r = ''c-9''" by (simp add: correlation_of_def example_request_def)
  with panic_answer_uncorrelated [of "\<lambda>r n. (Panicked Map.empty, Suc n)" "\<lambda>r. ''c-9''" ?r 0 Map.empty 1 "''/x''" "''GET''"
      "\<lambda>r. 0" NewMetrics]
  show ?thesis by auto
qed

end
