(* ===== verification/Platform_Migrate.thy ===== *)
theory Platform_Migrate
  imports Go_Strings Apperr "HOL-Library.Multiset"
begin

text \<open>
  \<^verbatim>\<open>internal/platform/postgres/migrate.go\<close>: applying the pending schema migrations, each in a
  transaction of its own that also records its version.

  What a script does to the schema is PostgreSQL's (\<open>me_exec\<close>); statements fail by \<open>me_fault\<close>, a
  commit that fails may have taken effect (\<open>me_commit_lost\<close>), and the connection may break while
  the applied versions are read (\<open>me_cut\<close>: only so many rows arrive; the code does not look at
  \<^verbatim>\<open>rows.Err()\<close>). \<^verbatim>\<open>sort.Slice\<close> promises a sorted permutation (\<open>sort_laws\<close>), not which one.
\<close>

section \<open>The database and the files\<close>

record migration =
  mg_version :: int
  mg_name :: string

record 'd migrate_env =
  me_fault :: "nat \<Rightarrow> go_error option"
  me_commit_lost :: "nat \<Rightarrow> bool"
  me_cut :: "nat option"
  me_exec :: "string \<Rightarrow> 'd \<Rightarrow> go_error + 'd"
  me_sort :: "migration list \<Rightarrow> migration list"
  me_ReadDir :: "go_error + string list"
  me_ReadFile :: "string \<Rightarrow> go_error + string"
  me_quote :: "string \<Rightarrow> string"

record 'd migrate_db =
  md_versions :: "int list option"
  md_schema :: 'd
  md_stmts :: nat

definition run_stmt ::
    "'d migrate_env \<Rightarrow> ('d migrate_db \<Rightarrow> go_error + 'a \<times> 'd migrate_db) \<Rightarrow> 'd migrate_db \<Rightarrow> (go_error + 'a) \<times> 'd migrate_db" where
  "run_stmt E f d =
     (let d' = d\<lparr>md_stmts := Suc (md_stmts d)\<rparr>
      in case me_fault E (md_stmts d) of
           Some err \<Rightarrow> (Inl err, d')
         | None \<Rightarrow> (case f d' of Inl err \<Rightarrow> (Inl err, d') | Inr (x, d'') \<Rightarrow> (Inr x, d'')))"

definition create_table :: "'d migrate_db \<Rightarrow> go_error + unit \<times> 'd migrate_db" where
  "create_table d = Inr ((), d\<lparr>md_versions := Some (case md_versions d of None \<Rightarrow> [] | Some vs \<Rightarrow> vs)\<rparr>)"

definition versions_of :: "'d migrate_db \<Rightarrow> int list" where
  "versions_of d = (case md_versions d of None \<Rightarrow> [] | Some vs \<Rightarrow> vs)"

definition select_versions :: "nat option \<Rightarrow> 'd migrate_db \<Rightarrow> go_error + int list \<times> 'd migrate_db" where
  "select_versions arrived d = Inr (case arrived of None \<Rightarrow> versions_of d | Some n \<Rightarrow> take n (versions_of d), d)"

definition exec_script :: "'d migrate_env \<Rightarrow> string \<Rightarrow> 'd migrate_db \<Rightarrow> go_error + unit \<times> 'd migrate_db" where
  "exec_script E content d =
     (case me_exec E content (md_schema d) of
        Inl err \<Rightarrow> Inl err
      | Inr s \<Rightarrow> Inr ((), d\<lparr>md_schema := s\<rparr>))"

definition insert_version :: "int \<Rightarrow> 'd migrate_db \<Rightarrow> go_error + unit \<times> 'd migrate_db" where
  "insert_version v d =
     (if v \<in> set (versions_of d)
      then Inl (PgError ''23505'' ''duplicate key value violates unique constraint'')
      else Inr ((), d\<lparr>md_versions := Some (versions_of d @ [v])\<rparr>))"

section \<open>Migrating\<close>

definition parseVersion :: "(string \<Rightarrow> string) \<Rightarrow> string \<Rightarrow> go_error + int" where
  "parseVersion verb name =
     (let idx = IndexByte name (CHR ''_'')
      in if idx \<le> 0 then Inl (OtherError (''migration '' @ verb name @ '' must be named <version>_<desc>.up.sql''))
         else case ParseInt (take (nat idx) name) of
                None \<Rightarrow> Inl (Errorf (''migration '' @ verb name @ '' has non-numeric version'') (OtherError ''strconv.ParseInt''))
              | Some v \<Rightarrow> Inr v)"

fun collect_pending :: "(string \<Rightarrow> string) \<Rightarrow> int set \<Rightarrow> string list \<Rightarrow> go_error + migration list" where
  "collect_pending verb applied [] = Inr []"
| "collect_pending verb applied (name # names) =
     (if \<not> HasSuffix name ''.up.sql'' then collect_pending verb applied names
      else case parseVersion verb name of
             Inl err \<Rightarrow> Inl err
           | Inr version \<Rightarrow>
               (case collect_pending verb applied names of
                  Inl err \<Rightarrow> Inl err
                | Inr rest \<Rightarrow> Inr (if version \<in> applied then rest else \<lparr>mg_version = version, mg_name = name\<rparr> # rest)))"

definition apply_migration :: "'d migrate_env \<Rightarrow> migration \<Rightarrow> 'd migrate_db \<Rightarrow> go_error option \<times> 'd migrate_db" where
  "apply_migration E m d =
     (case me_ReadFile E (mg_name m) of
        Inl err \<Rightarrow> (Some (Errorf (''read '' @ mg_name m) err), d)
      | Inr content \<Rightarrow>
     (case run_stmt E (\<lambda>d. Inr ((), d)) d of
        (Inl err, d1) \<Rightarrow> (Some err, d1)
      | (Inr _, d1) \<Rightarrow>
     (case run_stmt E (exec_script E content) d1 of
        (Inl err, d2) \<Rightarrow> (Some (Errorf (''apply '' @ mg_name m) err), d1\<lparr>md_stmts := md_stmts d2\<rparr>)
      | (Inr _, d2) \<Rightarrow>
     (case run_stmt E (insert_version (mg_version m)) d2 of
        (Inl err, d3) \<Rightarrow> (Some err, d1\<lparr>md_stmts := md_stmts d3\<rparr>)
      | (Inr _, d3) \<Rightarrow>
          (let d4 = d3\<lparr>md_stmts := Suc (md_stmts d3)\<rparr>
           in case me_fault E (md_stmts d3) of
                Some err \<Rightarrow> (Some err, if me_commit_lost E (md_stmts d3) then d4 else d1\<lparr>md_stmts := md_stmts d4\<rparr>)
              | None \<Rightarrow> (None, d4))))))"

fun apply_migrations :: "'d migrate_env \<Rightarrow> migration list \<Rightarrow> 'd migrate_db \<Rightarrow> go_error option \<times> 'd migrate_db" where
  "apply_migrations E [] d = (None, d)"
| "apply_migrations E (m # ms) d =
     (case apply_migration E m d of
        (Some err, d') \<Rightarrow> (Some err, d')
      | (None, d') \<Rightarrow> apply_migrations E ms d')"

definition Migrate :: "'d migrate_env \<Rightarrow> 'd migrate_db \<Rightarrow> go_error option \<times> 'd migrate_db" where
  "Migrate E d =
     (case run_stmt E create_table d of
        (Inl err, d1) \<Rightarrow> (Some (Errorf ''ensure migrations table'' err), d1)
      | (Inr _, d1) \<Rightarrow>
     (case run_stmt E (select_versions (me_cut E)) d1 of
        (Inl err, d2) \<Rightarrow> (Some (Errorf ''read applied migrations'' err), d2)
      | (Inr applied, d2) \<Rightarrow>
     (case me_ReadDir E of
        Inl err \<Rightarrow> (Some (Errorf ''read migrations dir'' err), d2)
      | Inr entries \<Rightarrow>
     (case collect_pending (me_quote E) (set applied) entries of
        Inl err \<Rightarrow> (Some err, d2)
      | Inr pending \<Rightarrow> apply_migrations E (me_sort E pending) d2))))"

definition sort_laws :: "(migration list \<Rightarrow> migration list) \<Rightarrow> bool" where
  "sort_laws f \<longleftrightarrow> (\<forall>ms. mset (f ms) = mset ms \<and> sorted (map mg_version (f ms)))"

section \<open>What has been applied\<close>

fun replay :: "(string \<Rightarrow> 'd \<Rightarrow> go_error + 'd) \<Rightarrow> string list \<Rightarrow> 'd \<Rightarrow> 'd option" where
  "replay exec [] s = Some s"
| "replay exec (c # cs) s = (case exec c s of Inl err \<Rightarrow> None | Inr s' \<Rightarrow> replay exec cs s')"

lemma script_replay_append: "replay exec (cs @ [c]) s = (case replay exec cs s of None \<Rightarrow> None | Some s' \<Rightarrow>
    (case exec c s' of Inl err \<Rightarrow> None | Inr s'' \<Rightarrow> Some s''))"
  by (induction cs arbitrary: s) (auto split: sum.split)

text \<open>
  The schema is the initial one with the scripts of the recorded versions run once each, in the
  order they are recorded in.
\<close>

definition applied_ok :: "(string \<Rightarrow> 'd \<Rightarrow> go_error + 'd) \<Rightarrow> (string \<Rightarrow> string) \<Rightarrow> 'd \<Rightarrow> 'd migrate_db \<Rightarrow> bool" where
  "applied_ok exec content s0 d \<longleftrightarrow>
     (\<exists>ms :: migration list. versions_of d = map mg_version ms \<and> distinct (map mg_version ms) \<and>
        replay exec (map (\<lambda>m. content (mg_name m)) ms) s0 = Some (md_schema d))"

definition same_files :: "(string \<Rightarrow> 'd \<Rightarrow> go_error + 'd) \<Rightarrow> (string \<Rightarrow> string) \<Rightarrow> 'd migrate_env \<Rightarrow> bool" where
  "same_files exec content E \<longleftrightarrow> me_exec E = exec \<and> (\<forall>name c. me_ReadFile E name = Inr c \<longrightarrow> c = content name)"

lemma applied_ok_cong:
  "versions_of d' = versions_of d \<Longrightarrow> md_schema d' = md_schema d \<Longrightarrow> applied_ok exec content s0 d' = applied_ok exec content s0 d"
  by (simp add: applied_ok_def)

lemma run_stmt_cases:
  assumes "run_stmt E f d = (r, d')"
  obtains (failed) err where "r = Inl err" and "d' = d\<lparr>md_stmts := Suc (md_stmts d)\<rparr>"
  | (ran) x where "r = Inr x" and "f (d\<lparr>md_stmts := Suc (md_stmts d)\<rparr>) = Inr (x, d')" and "me_fault E (md_stmts d) = None"
  using assms by (auto simp: run_stmt_def Let_def split: option.splits sum.splits prod.splits)

lemma versions_of_stmts [simp]: "versions_of (d\<lparr>md_stmts := n\<rparr>) = versions_of d"
  by (simp add: versions_of_def)

text \<open>
  One migration: it leaves schema and versions as they are, or runs its script and records its
  version, which was not recorded before.
\<close>

lemma apply_migration_effect:
  assumes "apply_migration E m d = (r, d')"
  obtains (unchanged) "versions_of d' = versions_of d" and "md_schema d' = md_schema d" and "r \<noteq> None"
  | (recorded) c where "me_ReadFile E (mg_name m) = Inr c" and "me_exec E c (md_schema d) = Inr (md_schema d')"
      and "mg_version m \<notin> set (versions_of d)" and "versions_of d' = versions_of d @ [mg_version m]"
proof (cases "me_ReadFile E (mg_name m)")
  case (Inl err)
  with assms show thesis by (intro unchanged) (auto simp: apply_migration_def)
next
  case (Inr c)
  obtain r1 d1 where 1: "run_stmt E (\<lambda>d. Inr ((), d)) d = (r1, d1)" by fastforce
  have d1: "versions_of d1 = versions_of d" "md_schema d1 = md_schema d"
    using 1 by (auto elim!: run_stmt_cases)
  obtain r2 d2 where 2: "run_stmt E (exec_script E c) d1 = (r2, d2)" by fastforce
  obtain r3 d3 where 3: "run_stmt E (insert_version (mg_version m)) d2 = (r3, d3)" by fastforce
  consider e where "r1 = Inl e" | e where "r1 = Inr ()" "r2 = Inl e" | e where "r1 = Inr ()" "r2 = Inr ()" "r3 = Inl e"
    | "r1 = Inr ()" "r2 = Inr ()" "r3 = Inr ()"
    by (cases r1; cases r2; cases r3) auto
  then show thesis
  proof cases
    case 4
    have s2: "me_exec E c (md_schema d1) = Inr (md_schema d2)" "versions_of d2 = versions_of d1"
      using 2 4(2) by (auto elim!: run_stmt_cases simp: exec_script_def versions_of_def split: sum.splits)
    have s3: "mg_version m \<notin> set (versions_of d2)" "versions_of d3 = versions_of d2 @ [mg_version m]" "md_schema d3 = md_schema d2"
      using 3 4(3) by (auto elim!: run_stmt_cases simp: insert_version_def versions_of_def split: if_splits)
    show thesis
    proof (cases "me_fault E (md_stmts d3) = None \<or> me_commit_lost E (md_stmts d3)")
      case True
      with assms 1 2 3 4 Inr s2 s3 d1 show thesis
        by (intro recorded [of c]) (auto simp: apply_migration_def Let_def split: option.splits if_splits)
    next
      case False
      then obtain e where "me_fault E (md_stmts d3) = Some e" "\<not> me_commit_lost E (md_stmts d3)" by auto
      with assms 1 2 3 4 Inr d1 show thesis
        by (intro unchanged) (auto simp: apply_migration_def Let_def, metis)
    qed
  qed (use assms 1 2 3 Inr d1 in \<open>auto intro!: unchanged simp: apply_migration_def\<close>)
qed

lemma apply_migration_ok:
  assumes "apply_migration E m d = (r, d')" and "same_files exec content E" and "applied_ok exec content s0 d"
  shows "applied_ok exec content s0 d'"
  using assms(1)
proof (cases rule: apply_migration_effect)
  case unchanged
  with assms(3) show ?thesis using applied_ok_cong [of d' d exec content s0] by simp
next
  case (recorded c)
  obtain ms :: "migration list" where ms: "versions_of d = map mg_version ms" "distinct (map mg_version ms)"
    "replay exec (map (\<lambda>m. content (mg_name m)) ms) s0 = Some (md_schema d)"
    using assms(3) unfolding applied_ok_def by blast
  have "exec (content (mg_name m)) (md_schema d) = Inr (md_schema d')"
    using recorded(1,2) assms(2) by (auto simp: same_files_def)
  with ms recorded(3,4) show ?thesis
    unfolding applied_ok_def by (intro exI [of _ "ms @ [m]"]) (simp add: script_replay_append)
qed

lemma apply_migrations_ok:
  "apply_migrations E ms d = (r, d') \<Longrightarrow> same_files exec content E \<Longrightarrow> applied_ok exec content s0 d \<Longrightarrow> applied_ok exec content s0 d'"
proof (induction ms arbitrary: d)
  case (Cons m ms)
  obtain r1 d1 where 1: "apply_migration E m d = (r1, d1)" by fastforce
  note ok = apply_migration_ok [OF 1 Cons.prems(2,3)]
  show ?case
  proof (cases r1)
    case None
    with 1 Cons.prems(1) have "apply_migrations E ms d1 = (r, d')" by simp
    then show ?thesis using Cons.IH Cons.prems(2) ok by blast
  qed (use 1 Cons.prems(1) ok in auto)
qed simp

lemma select_effect:
  assumes "run_stmt E (select_versions arrived) d = (r, d')"
  shows "versions_of d' = versions_of d" and "md_schema d' = md_schema d"
    and "r = Inr a \<Longrightarrow> a = (case arrived of None \<Rightarrow> versions_of d | Some n \<Rightarrow> take n (versions_of d))"
  using assms by (auto simp: run_stmt_def select_versions_def Let_def split: option.splits)

lemma Migrate_steps:
  assumes "Migrate E d = (r, d')"
  obtains (stopped) "versions_of d' = versions_of d" and "md_schema d' = md_schema d" and "r \<noteq> None"
  | (applied) applied entries pending d2 where "me_ReadDir E = Inr entries"
      and "collect_pending (me_quote E) (set applied) entries = Inr pending"
      and "applied = (case me_cut E of None \<Rightarrow> versions_of d | Some n \<Rightarrow> take n (versions_of d))"
      and "versions_of d2 = versions_of d" and "md_schema d2 = md_schema d"
      and "apply_migrations E (me_sort E pending) d2 = (r, d')"
proof -
  obtain r1 d1 where 1: "run_stmt E create_table d = (r1, d1)" by fastforce
  have d1: "versions_of d1 = versions_of d" "md_schema d1 = md_schema d"
    using 1 by (auto elim!: run_stmt_cases simp: create_table_def versions_of_def)
  obtain r2 d2 where 2: "run_stmt E (select_versions (me_cut E)) d1 = (r2, d2)" by fastforce
  note sel = select_effect [OF 2, unfolded d1]
  have d2: "versions_of d2 = versions_of d" "md_schema d2 = md_schema d" using sel(1,2) by simp_all
  consider e where "r1 = Inl e" | e where "r1 = Inr ()" "r2 = Inl e" | a where "r1 = Inr ()" "r2 = Inr a"
    by (cases r1; cases r2) auto
  then show thesis
  proof cases
    case (3 a)
    show thesis
    proof (cases "me_ReadDir E")
      case (Inl e)
      with assms 1 2 3 d2 show thesis by (intro stopped) (auto simp: Migrate_def)
    next
      case (Inr entries)
      with assms 1 2 3 d2 sel(3) [OF 3(2)] show thesis
        by (cases "collect_pending (me_quote E) (set a) entries") (auto simp: Migrate_def intro: stopped applied)
    qed
  qed (use assms 1 2 d1 d2 in \<open>auto intro!: stopped simp: Migrate_def\<close>)
qed

section \<open>Pending migrations\<close>

definition up_versions :: "(string \<Rightarrow> string) \<Rightarrow> string list \<Rightarrow> int list" where
  "up_versions verb entries =
     map (\<lambda>name. case parseVersion verb name of Inr v \<Rightarrow> v | Inl _ \<Rightarrow> 0) (filter (\<lambda>name. HasSuffix name ''.up.sql'') entries)"

lemma collect_pending_versions:
  assumes "collect_pending verb applied entries = Inr ms"
  shows "map mg_version ms = filter (\<lambda>v. v \<notin> applied) (up_versions verb entries)"
  using assms
proof (induction entries arbitrary: ms)
  case (Cons name entries)
  then show ?case by (auto simp: up_versions_def split: if_splits sum.splits)
qed (simp add: up_versions_def)

lemma collect_pending_total:
  assumes "\<forall>name \<in> set entries. HasSuffix name ''.up.sql'' \<longrightarrow> \<not> isl (parseVersion verb name)"
  shows "\<exists>ms. collect_pending verb applied entries = Inr ms"
  using assms
proof (induction entries)
  case (Cons name entries)
  then obtain ms where "collect_pending verb applied entries = Inr ms" by auto
  with Cons.prems show ?case by (auto split: sum.split)
qed simp

text \<open>A run that returns without an error leaves no migration out.\<close>

lemma apply_migrations_None:
  "apply_migrations E ms d = (None, d') \<Longrightarrow> versions_of d' = versions_of d @ map mg_version ms"
proof (induction ms arbitrary: d)
  case (Cons m ms)
  obtain r d1 where 1: "apply_migration E m d = (r, d1)" by fastforce
  with Cons.prems have r: "r = None" "apply_migrations E ms d1 = (None, d')" by (auto split: option.splits)
  with 1 have "versions_of d1 = versions_of d @ [mg_version m]"
    by (auto elim: apply_migration_effect)
  with Cons.IH [OF r(2)] show ?case by simp
qed simp

lemma Migrate_complete:
  assumes "Migrate E d = (None, d')" and "sort_laws (me_sort E)"
  obtains entries where "me_ReadDir E = Inr entries" and "set (up_versions (me_quote E) entries) \<subseteq> set (versions_of d')"
  using assms(1)
proof (cases rule: Migrate_steps)
  case (applied vs entries ms d2)
  have "set (me_sort E ms) = set ms" using assms(2) unfolding sort_laws_def by (metis set_mset_mset)
  then have new: "set (map mg_version (me_sort E ms)) = {v \<in> set (up_versions (me_quote E) entries). v \<notin> set vs}"
    using arg_cong [OF collect_pending_versions [OF applied(2)], of set] by auto
  have "set vs \<subseteq> set (versions_of d)" by (auto simp: applied(3) dest: in_set_takeD split: option.splits)
  with new apply_migrations_None [OF applied(6)] applied(4)
  have "set (up_versions (me_quote E) entries) \<subseteq> set (versions_of d')" by auto
  with applied(1) show ?thesis by (rule that)
qed simp

definition undisturbed :: "'d migrate_env \<Rightarrow> bool" where
  "undisturbed E \<longleftrightarrow> me_fault E = (\<lambda>n. None) \<and> me_cut E = None \<and> (\<forall>c s. \<not> isl (me_exec E c s)) \<and>
     (\<forall>name. \<not> isl (me_ReadFile E name)) \<and> \<not> isl (me_ReadDir E)"

lemma run_stmt_undisturbed: "undisturbed E \<Longrightarrow> run_stmt E f d =
    (case f (d\<lparr>md_stmts := Suc (md_stmts d)\<rparr>) of Inl err \<Rightarrow> (Inl err, d\<lparr>md_stmts := Suc (md_stmts d)\<rparr>) | Inr (x, d') \<Rightarrow> (Inr x, d'))"
  by (simp add: run_stmt_def undisturbed_def Let_def)

lemma apply_migration_undisturbed:
  assumes "undisturbed E" and "mg_version m \<notin> set (versions_of d)"
  obtains d' where "apply_migration E m d = (None, d')" and "versions_of d' = versions_of d @ [mg_version m]"
proof -
  obtain c where c: "me_ReadFile E (mg_name m) = Inr c" using assms(1) by (auto simp: undisturbed_def isl_def) (metis sum.exhaust)
  obtain s where s: "me_exec E c (md_schema d) = Inr s" using assms(1) by (auto simp: undisturbed_def isl_def) (metis sum.exhaust)
  have fault: "me_fault E n = None" for n using assms(1) by (simp add: undisturbed_def)
  show thesis
    using c s fault assms(2)
    by (intro that) (auto simp: apply_migration_def run_stmt_undisturbed [OF assms(1)] exec_script_def insert_version_def versions_of_def Let_def)
qed

lemma apply_migrations_undisturbed:
  assumes "undisturbed E" and "distinct (map mg_version ms)" and "\<forall>m \<in> set ms. mg_version m \<notin> set (versions_of d)"
  shows "\<exists>d'. apply_migrations E ms d = (None, d') \<and> versions_of d' = versions_of d @ map mg_version ms"
  using assms(2,3)
proof (induction ms arbitrary: d)
  case (Cons m ms)
  obtain d1 where 1: "apply_migration E m d = (None, d1)" "versions_of d1 = versions_of d @ [mg_version m]"
    using apply_migration_undisturbed [OF assms(1), of m d] Cons.prems(2) by auto
  have "\<forall>m' \<in> set ms. mg_version m' \<notin> set (versions_of d1)" using Cons.prems 1(2) by (auto simp: image_iff)
  with Cons.IH [of d1] Cons.prems(1) 1 show ?case by auto
qed simp

section \<open>Properties\<close>

text \<open>The files of this repository, on a schema that is the list of the scripts run.\<close>

definition example_migrate_env :: "string list migrate_env" where
  "example_migrate_env =
     \<lparr>me_fault = (\<lambda>n. None), me_commit_lost = (\<lambda>n. False), me_cut = None, me_exec = (\<lambda>c s. Inr (s @ [c])),
      me_sort = sort_key mg_version,
      me_ReadDir = Inr [''0001_catalog.down.sql'', ''0001_catalog.up.sql'', ''0002_tenant.down.sql'', ''0002_tenant.up.sql''],
      me_ReadFile = (\<lambda>name. Inr name), me_quote = id\<rparr>"

definition example_migrate_db :: "string list migrate_db" where
  "example_migrate_db = \<lparr>md_versions = None, md_schema = [], md_stmts = 0\<rparr>"

fun migrate_runs :: "'d migrate_env list \<Rightarrow> 'd migrate_db \<Rightarrow> 'd migrate_db" where
  "migrate_runs [] d = d"
| "migrate_runs (E # Es) d = migrate_runs Es (snd (Migrate E d))"




lemma example_up_versions:
  "parseVersion id ''0001_catalog.up.sql'' = Inr 1" "parseVersion id ''0002_tenant.up.sql'' = Inr 2"
  "up_versions id [''0001_catalog.down.sql'', ''0001_catalog.up.sql'', ''0002_tenant.down.sql'', ''0002_tenant.up.sql''] = [1, 2]"
  by code_simp+


end
