(* ===== verification/Processes.thy ===== *)
theory Processes
  imports Api_Server Platform_Migrate Provisioning_Saga
begin

text \<open>
  The processes of the control plane: the \<^verbatim>\<open>run\<close> functions of \<^verbatim>\<open>cmd/api\<close>, \<^verbatim>\<open>cmd/relay\<close>,
  \<^verbatim>\<open>cmd/consumer\<close>, \<^verbatim>\<open>cmd/worker\<close> and \<^verbatim>\<open>cmd/provision\<close> and the main function of \<^verbatim>\<open>cmd/operator\<close>, with
  what they open on the way: the connection pool (\<open>postgres.go\<close>), the event bus and its stream (\<open>events.go\<close>) and the HTTP server
  (\<open>server.go\<close>).

  A process is a sequence of calls into libraries. What each call answers is a parameter (\<open>platform\<close>);
  the model is the order of the calls, the early returns and the deferred releases, as a trace of
  actions. Logging is left out.
\<close>

section \<open>Actions\<close>

datatype storage_type = FileStorage | MemoryStorage
datatype retention_policy = LimitsPolicy | InterestPolicy | WorkQueuePolicy

record stream_config =
  st_Name :: string
  st_Subjects :: "string list"
  st_Storage :: storage_type
  st_Retention :: retention_policy
  st_Duplicates :: time
  st_MaxAge :: time
  st_Description :: string

record consumer_config =
  cc_Durable :: string
  cc_AckExplicit :: bool
  cc_FilterSubject :: string
  cc_AckWait :: time

record manager_options =
  mo_MetricsBindAddress :: string
  mo_HealthProbeBindAddress :: string
  mo_LeaderElection :: bool
  mo_LeaderElectionID :: string

datatype watch = For string | Owns string

datatype action =
    StartTracing | StopTracing
  | OpenPool database_config | Ping | ClosePool
  | RunMigrations
  | Listen string | ShutdownServer
  | ConnectBus string string | NewJetStream | CloseBus
  | CreateStream stream_config
  | CreateConsumer string consumer_config | StartConsuming | StopConsuming
  | RelayLoop relay
  | DialTemporal string string | CloseTemporal
  | RunWorker string | StartWorkflow string string provision_tenant_input | AwaitWorkflow
  | BuildKubeClient | BuildTemporalClient string string
  | CreateManager manager_options | CompleteController "watch list"
  | AddHealthzCheck string | AddReadyzCheck string | StartManager

datatype ending = ServerStopped "go_error option" | Signalled "go_error option"

record platform =
  pf_tracing :: "string \<Rightarrow> go_error option"
  pf_parse_url :: "string \<Rightarrow> go_error option"
  pf_create_pool :: "go_error option"
  pf_ping :: "go_error option"
  pf_ending :: ending
  pf_connect :: "go_error option"
  pf_jetstream :: "go_error option"
  pf_stream :: "go_error option"
  pf_consumer :: "go_error option"
  pf_consume :: "go_error option"
  pf_relay :: "go_error option"
  pf_dial :: "go_error option"
  pf_worker :: "go_error option"
  pf_workflow :: "go_error option"
  pf_result :: "go_error option"
  pf_kube_config :: "go_error option"
  pf_kube_client :: "go_error option"
  pf_lazy_client :: "go_error option"
  pf_manager :: "go_error option"
  pf_controller :: "go_error option"
  pf_healthz :: "go_error option"
  pf_readyz :: "go_error option"
  pf_manager_run :: "go_error option"

type_synonym 'a proc = "action list \<Rightarrow> (go_error + 'a) \<times> action list"

text \<open>A call, sequencing with early return, and a deferred release.\<close>

definition call :: "action \<Rightarrow> go_error option \<Rightarrow> unit proc" where
  "call a res t = (case res of Some err \<Rightarrow> Inl err | None \<Rightarrow> Inr (), t @ [a])"

definition check :: "go_error option \<Rightarrow> unit proc" where
  "check res t = (case res of Some err \<Rightarrow> Inl err | None \<Rightarrow> Inr (), t)"

definition andThen :: "'a proc \<Rightarrow> ('a \<Rightarrow> 'b proc) \<Rightarrow> 'b proc" where
  "andThen p f t = (case p t of (Inl err, t') \<Rightarrow> (Inl err, t') | (Inr x, t') \<Rightarrow> f x t')"

definition deferring :: "action \<Rightarrow> 'a proc \<Rightarrow> 'a proc" where
  "deferring a p t = (case p t of (res, t') \<Rightarrow> (res, t' @ [a]))"

definition wrapped :: "string \<Rightarrow> go_error option \<Rightarrow> go_error option" where
  "wrapped msg = map_option (Errorf msg)"

definition load_config :: "'f go_lib \<Rightarrow> environ \<Rightarrow> 'f config proc" where
  "load_config L e t = (Load L e, t)"

section \<open>The connection pool\<close>

text \<open>\<^verbatim>\<open>postgres.New\<close>: a pool that does not answer a ping is closed again.\<close>

definition pg_New :: "platform \<Rightarrow> database_config \<Rightarrow> unit proc" where
  "pg_New P cfg =
     andThen (check (wrapped ''parse db url'' (pf_parse_url P (db_URL cfg)))) (\<lambda>u.
     case pf_create_pool P of
       Some err \<Rightarrow> check (Some (Errorf ''create pool'' err))
     | None \<Rightarrow> andThen (call (OpenPool cfg) None) (\<lambda>u.
         case pf_ping P of
           Some err \<Rightarrow> andThen (call Ping None) (\<lambda>u. deferring ClosePool (check (Some (Errorf ''ping db'' err))))
         | None \<Rightarrow> call Ping None))"

section \<open>The event bus\<close>

definition Connect :: "platform \<Rightarrow> string \<Rightarrow> string \<Rightarrow> unit proc" where
  "Connect P name url =
     (case pf_connect P of
        Some err \<Rightarrow> check (Some (Errorf ''connect nats'' err))
      | None \<Rightarrow> andThen (call (ConnectBus name url) None) (\<lambda>u.
          case pf_jetstream P of
            Some err \<Rightarrow> andThen (call NewJetStream None) (\<lambda>u. deferring CloseBus (check (Some (Errorf ''create jetstream'' err))))
          | None \<Rightarrow> call NewJetStream None))"

definition stream_of :: "string \<Rightarrow> string \<Rightarrow> stream_config" where
  "stream_of name subjectPrefix =
     \<lparr>st_Name = name, st_Subjects = [subjectPrefix @ ''.>''], st_Storage = FileStorage, st_Retention = LimitsPolicy,
      st_Duplicates = 2 * 60 * second, st_MaxAge = 30 * 24 * 3600 * second,
      st_Description = ''Forge domain events relayed from the transactional outbox''\<rparr>"

text \<open>\<open>verb\<close> is the \<^verbatim>\<open>%q\<close> verb of the error text.\<close>

definition EnsureStream :: "platform \<Rightarrow> (string \<Rightarrow> string) \<Rightarrow> string \<Rightarrow> string \<Rightarrow> unit proc" where
  "EnsureStream P verb name subjectPrefix =
     call (CreateStream (stream_of name subjectPrefix)) (wrapped (''ensure stream '' @ verb name) (pf_stream P))"

section \<open>The API\<close>

definition ErrServerClosed :: go_error where
  "ErrServerClosed = OtherError ''http: Server closed''"

definition unless_closed :: "go_error option \<Rightarrow> go_error option" where
  "unless_closed res = (case res of Some err \<Rightarrow> (if Is err ErrServerClosed then None else Some err) | None \<Rightarrow> None)"

text \<open>\<^verbatim>\<open>Server.Start\<close> runs beside the main routine, which waits for it to stop or for a signal.\<close>

definition serve_until :: "platform \<Rightarrow> string \<Rightarrow> unit proc" where
  "serve_until P addr =
     andThen (call (Listen addr) None) (\<lambda>u.
     case pf_ending P of
       ServerStopped res \<Rightarrow> check (unless_closed res)
     | Signalled res \<Rightarrow> call ShutdownServer (unless_closed res))"

definition InitTracing :: "platform \<Rightarrow> string \<Rightarrow> unit proc" where
  "InitTracing P endpoint =
     (if endpoint = '''' then call StartTracing None
      else case pf_tracing P endpoint of Some err \<Rightarrow> check (Some err) | None \<Rightarrow> call StartTracing None)"

text \<open>
  The clients behind the views. Neither connects when it is built; an error only disables the
  endpoints (\<open>application_module\<close>, \<open>provisioning_module\<close>).
\<close>

definition kube_BuildClient :: "platform \<Rightarrow> unit proc" where
  "kube_BuildClient P =
     andThen (check (wrapped ''resolve kube config'' (pf_kube_config P))) (\<lambda>u.
     call BuildKubeClient (wrapped ''build kube client'' (pf_kube_client P)))"

definition temporal_BuildClient :: "platform \<Rightarrow> string \<Rightarrow> string \<Rightarrow> unit proc" where
  "temporal_BuildClient P hostPort namespace =
     call (BuildTemporalClient hostPort namespace) (wrapped ''build temporal client'' (pf_lazy_client P))"

definition attempted :: "'a proc \<Rightarrow> (go_error + 'a) proc" where
  "attempted p t = (case p t of (res, t') \<Rightarrow> (Inr res, t'))"

definition api_run :: "platform \<Rightarrow> 'd migrate_env \<Rightarrow> 'd migrate_db \<Rightarrow> 'f go_lib \<Rightarrow> environ \<Rightarrow> unit proc" where
  "api_run P M d L e =
     andThen (load_config L e) (\<lambda>cfg.
     andThen (InitTracing P (te_OTLPEndpoint (cf_Telemetry cfg))) (\<lambda>u.
     deferring StopTracing (
     andThen (pg_New P (cf_Database cfg)) (\<lambda>u.
     deferring ClosePool (
     andThen (call RunMigrations (fst (Migrate M d))) (\<lambda>u.
     andThen (attempted (kube_BuildClient P)) (\<lambda>kubeClient.
     andThen (attempted (temporal_BuildClient P (tc_HostPort (cf_Temporal cfg)) (tc_Namespace (cf_Temporal cfg)))) (\<lambda>temporalClient.
     serve_until P (cf_HTTPAddr cfg)))))))))"

section \<open>The other processes\<close>

text \<open>The relay's loop ends with the context; the cancellation is not an error.\<close>

definition Canceled :: go_error where
  "Canceled = OtherError ''context canceled''"

definition relay_run :: "platform \<Rightarrow> 'f go_lib \<Rightarrow> environ \<Rightarrow> unit proc" where
  "relay_run P L e =
     andThen (load_config L e) (\<lambda>cfg.
     andThen (pg_New P (cf_Database cfg)) (\<lambda>u.
     deferring ClosePool (
     andThen (Connect P ''forge-relay'' (ec_NATSURL (cf_Events cfg))) (\<lambda>u.
     deferring CloseBus (
     andThen (EnsureStream P (gl_quote L) (ec_StreamName (cf_Events cfg)) (ec_SubjectPrefix (cf_Events cfg))) (\<lambda>u.
     call (RelayLoop (Relay_New (ec_SubjectPrefix (cf_Events cfg)) (rc_BatchSize (cf_Relay cfg)) (rc_PollInterval (cf_Relay cfg))))
       (case pf_relay P of Some err \<Rightarrow> (if err = Canceled then None else Some err) | None \<Rightarrow> None)))))))"

definition consumer_of :: "string \<Rightarrow> consumer_config" where
  "consumer_of subjectPrefix =
     \<lparr>cc_Durable = ''forge-example-consumer'', cc_AckExplicit = True, cc_FilterSubject = subjectPrefix @ ''.>'',
      cc_AckWait = 30 * second\<rparr>"

definition consumer_run :: "platform \<Rightarrow> 'f go_lib \<Rightarrow> environ \<Rightarrow> unit proc" where
  "consumer_run P L e =
     andThen (load_config L e) (\<lambda>cfg.
     andThen (Connect P ''forge-consumer'' (ec_NATSURL (cf_Events cfg))) (\<lambda>u.
     deferring CloseBus (
     andThen (EnsureStream P (gl_quote L) (ec_StreamName (cf_Events cfg)) (ec_SubjectPrefix (cf_Events cfg))) (\<lambda>u.
     andThen (call (CreateConsumer (ec_StreamName (cf_Events cfg)) (consumer_of (ec_SubjectPrefix (cf_Events cfg)))) (pf_consumer P)) (\<lambda>u.
     case pf_consume P of
       Some err \<Rightarrow> check (Some err)
     | None \<Rightarrow> andThen (call StartConsuming None) (\<lambda>u. deferring StopConsuming (check None)))))))"

definition worker_run :: "platform \<Rightarrow> 'f go_lib \<Rightarrow> environ \<Rightarrow> unit proc" where
  "worker_run P L e =
     andThen (load_config L e) (\<lambda>cfg.
     case pf_dial P of
       Some err \<Rightarrow> check (Some err)
     | None \<Rightarrow>
         andThen (call (DialTemporal (tc_HostPort (cf_Temporal cfg)) (tc_Namespace (cf_Temporal cfg))) None) (\<lambda>u.
         deferring CloseTemporal (call (RunWorker (tc_TaskQueue (cf_Temporal cfg))) (pf_worker P))))"

text \<open>The starter of one workflow; without a slug it exits with status 2 (\<open>None\<close>).\<close>

definition provision_run :: "platform \<Rightarrow> 'f go_lib \<Rightarrow> environ \<Rightarrow> string \<Rightarrow> int \<Rightarrow> unit option proc" where
  "provision_run P L e tenant_slug maxServices =
     andThen (load_config L e) (\<lambda>cfg.
     if tenant_slug = '''' then (\<lambda>t. (Inr None, t))
     else case pf_dial P of
       Some err \<Rightarrow> (\<lambda>t. (Inl err, t))
     | None \<Rightarrow>
         andThen (call (DialTemporal (tc_HostPort (cf_Temporal cfg)) (tc_Namespace (cf_Temporal cfg))) None) (\<lambda>u.
         deferring CloseTemporal (
         andThen (call (StartWorkflow (''provision-tenant-'' @ tenant_slug) (tc_TaskQueue (cf_Temporal cfg))
           \<lparr>pi_Slug = tenant_slug, pi_MaxServices = maxServices\<rparr>) (pf_workflow P)) (\<lambda>u.
         andThen (call AwaitWorkflow (pf_result P)) (\<lambda>u t. (Inr (Some ()), t))))))"

text \<open>
  The operator: \<^verbatim>\<open>SetupWithManager\<close> registers the reconciler for applications and for the deployments
  and services they own. An error at any step is logged and ends the process.
\<close>

definition operator_options :: manager_options where
  "operator_options = \<lparr>mo_MetricsBindAddress = '':8081'', mo_HealthProbeBindAddress = '':8082'',
     mo_LeaderElection = False, mo_LeaderElectionID = ''forge-operator.platform.forge.dev''\<rparr>"

definition SetupWithManager :: "platform \<Rightarrow> unit proc" where
  "SetupWithManager P = call (CompleteController [For ''Application'', Owns ''Deployment'', Owns ''Service'']) (pf_controller P)"

definition operator_run :: "platform \<Rightarrow> unit proc" where
  "operator_run P =
     andThen (check (pf_kube_config P)) (\<lambda>u.
     andThen (call (CreateManager operator_options) (pf_manager P)) (\<lambda>u.
     andThen (SetupWithManager P) (\<lambda>u.
     andThen (call (AddHealthzCheck ''healthz'') (pf_healthz P)) (\<lambda>u.
     andThen (call (AddReadyzCheck ''readyz'') (pf_readyz P)) (\<lambda>u.
     call StartManager (pf_manager_run P))))))"

section \<open>What is opened is released\<close>

fun release :: "action \<Rightarrow> action option" where
  "release StartTracing = Some StopTracing"
| "release (OpenPool cfg) = Some ClosePool"
| "release (ConnectBus name url) = Some CloseBus"
| "release StartConsuming = Some StopConsuming"
| "release (DialTemporal host ns) = Some CloseTemporal"
| "release _ = None"

definition releases :: "action \<Rightarrow> bool" where
  "releases a \<longleftrightarrow> a \<in> {StopTracing, ClosePool, CloseBus, StopConsuming, CloseTemporal}"

text \<open>The trace, read against the stack of what is still to be released.\<close>

fun released :: "action list \<Rightarrow> action list \<Rightarrow> bool" where
  "released st [] = (st = [])"
| "released st (a # t) =
     (case release a of
        Some r \<Rightarrow> released (r # st) t
      | None \<Rightarrow> (if releases a then (case st of r # st' \<Rightarrow> r = a \<and> released st' t | [] \<Rightarrow> False)
                 else released st t))"

definition nested :: "action list \<Rightarrow> bool" where
  "nested t \<longleftrightarrow> (\<forall>st t'. released st (t @ t') = released st t')"

lemma nested_Nil [simp]: "nested []"
  by (simp add: nested_def)

lemma nested_append: "nested t \<Longrightarrow> nested u \<Longrightarrow> nested (t @ u)"
  by (simp add: nested_def)

lemma nested_neutral: "release a = None \<Longrightarrow> \<not> releases a \<Longrightarrow> nested t \<Longrightarrow> nested (a # t)"
  by (simp add: nested_def)

lemma nested_bracket: "release a = Some r \<Longrightarrow> releases r \<Longrightarrow> release r = None \<Longrightarrow> nested t \<Longrightarrow> nested (a # t @ [r])"
  by (simp add: nested_def)

text \<open>
  A process is neat when its own trace is nested; it acquires \<open>r\<close> when it fails with a nested trace,
  or succeeds with something open that \<open>r\<close> releases.
\<close>

definition neat :: "'a proc \<Rightarrow> bool" where
  "neat p \<longleftrightarrow> (\<forall>t. \<exists>u. snd (p t) = t @ u \<and> nested u)"

definition acquires :: "action \<Rightarrow> 'a proc \<Rightarrow> bool" where
  "acquires r p \<longleftrightarrow> (\<forall>t. \<exists>u. snd (p t) = t @ u \<and>
     (if isl (fst (p t)) then nested u else \<forall>v. nested v \<longrightarrow> nested (u @ v @ [r])))"

lemma neat_check [simp]: "neat (check res)"
  by (simp add: neat_def check_def)

lemma neat_load [simp]: "neat (load_config L e)"
  by (simp add: neat_def load_config_def)

lemma neat_pure [simp]: "neat (\<lambda>t. (res, t))"
  by (simp add: neat_def)

lemma neat_call: "release a = None \<Longrightarrow> \<not> releases a \<Longrightarrow> neat (call a res)"
  by (simp add: neat_def call_def nested_neutral)

lemma neat_attempted: "neat p \<Longrightarrow> neat (attempted p)"
  unfolding neat_def attempted_def by (metis case_prod_unfold snd_conv)

lemma neat_andThen:
  assumes "neat p" and "\<And>x. neat (f x)"
  shows "neat (andThen p f)"
  unfolding neat_def
proof
  fix t
  obtain res t' where p: "p t = (res, t')" by fastforce
  with assms(1) obtain u where u: "t' = t @ u" "nested u" unfolding neat_def by (metis snd_conv)
  show "\<exists>u. snd (andThen p f t) = t @ u \<and> nested u"
  proof (cases res)
    case (Inr x)
    from assms(2) [of x] obtain v where "snd (f x t') = t' @ v" "nested v" unfolding neat_def by blast
    with p u Inr show ?thesis by (auto simp: andThen_def intro: nested_append)
  qed (use p u in \<open>simp add: andThen_def\<close>)
qed

lemma neat_bracket:
  assumes "acquires r p" and "\<And>x. neat (f x)"
  shows "neat (andThen p (\<lambda>x. deferring r (f x)))"
  unfolding neat_def
proof
  fix t
  obtain res t' where p: "p t = (res, t')" by fastforce
  with assms(1) obtain u where u: "t' = t @ u" "if isl res then nested u else \<forall>v. nested v \<longrightarrow> nested (u @ v @ [r])"
    unfolding acquires_def by (metis fst_conv snd_conv)
  show "\<exists>u. snd (andThen p (\<lambda>x. deferring r (f x)) t) = t @ u \<and> nested u"
  proof (cases res)
    case (Inr x)
    from assms(2) [of x] obtain v where "snd (f x t') = t' @ v" "nested v" unfolding neat_def by blast
    with p u Inr show ?thesis
      by (intro exI [of _ "u @ v @ [r]"]) (auto simp: andThen_def deferring_def split: prod.split)
  qed (use p u in \<open>simp add: andThen_def\<close>)
qed

lemma acquires_call: "release a = Some r \<Longrightarrow> releases r \<Longrightarrow> release r = None \<Longrightarrow> acquires r (call a None)"
  using nested_bracket by (simp add: acquires_def call_def)

lemma acquires_failed: "acquires r (check (Some err))"
  by (simp add: acquires_def check_def)

lemma acquires_tracing: "acquires StopTracing (InitTracing P endpoint)"
proof -
  have "acquires StopTracing (call StartTracing None)" by (rule acquires_call) (simp_all add: releases_def)
  then show ?thesis by (simp add: InitTracing_def acquires_failed split: option.split)
qed

lemma acquires_pool: "acquires ClosePool (pg_New P cfg)"
proof -
  have "nested (OpenPool cfg # Ping # v @ [ClosePool])" if "nested v" for v
    using nested_bracket [of "OpenPool cfg" ClosePool "Ping # v"] nested_neutral [of Ping v] that by (simp add: releases_def)
  moreover from this [of "[]"] have "nested [OpenPool cfg, Ping, ClosePool]" by simp
  ultimately show ?thesis
    by (auto simp: acquires_def pg_New_def andThen_def check_def call_def deferring_def wrapped_def split: option.split)
qed

lemma acquires_bus: "acquires CloseBus (Connect P name url)"
proof -
  have "nested (ConnectBus name url # NewJetStream # v @ [CloseBus])" if "nested v" for v
    using nested_bracket [of "ConnectBus name url" CloseBus "NewJetStream # v"] nested_neutral [of NewJetStream v] that
    by (simp add: releases_def)
  moreover from this [of "[]"] have "nested [ConnectBus name url, NewJetStream, CloseBus]" by simp
  ultimately show ?thesis
    by (auto simp: acquires_def Connect_def andThen_def check_def call_def deferring_def split: option.split)
qed

lemma neat_released: "neat p \<Longrightarrow> released [] (snd (p []))"
  unfolding neat_def nested_def by (metis append_Nil append_Nil2 released.simps(1))

lemmas neat_rules = neat_andThen neat_bracket neat_call acquires_tracing acquires_pool acquires_bus acquires_call

lemma api_run_neat: "neat (api_run P M d L e)"
proof -
  have "neat (serve_until P addr)" for addr
    by (auto simp: serve_until_def releases_def intro!: neat_andThen neat_call split: ending.split)
  then show ?thesis
    unfolding api_run_def kube_BuildClient_def temporal_BuildClient_def
    by (intro neat_rules neat_attempted) (simp_all add: releases_def)
qed

lemma relay_run_neat: "neat (relay_run P L e)"
  unfolding relay_run_def EnsureStream_def by (intro neat_rules) (simp_all add: releases_def)

lemma consumer_run_neat: "neat (consumer_run P L e)"
proof -
  have "neat (andThen (call StartConsuming None) (\<lambda>u. deferring StopConsuming (check None)))"
    by (intro neat_bracket acquires_call) (simp_all add: releases_def)
  then have "neat (case pf_consume P of Some err \<Rightarrow> check (Some err)
     | None \<Rightarrow> andThen (call StartConsuming None) (\<lambda>u. deferring StopConsuming (check None)))"
    by (simp split: option.split)
  then show ?thesis
    unfolding consumer_run_def EnsureStream_def
    by (intro neat_andThen neat_bracket neat_call acquires_bus) (simp_all add: releases_def)
qed

lemma worker_run_neat: "neat (worker_run P L e)"
proof -
  have "neat (andThen (call (DialTemporal h n) None) (\<lambda>u. deferring CloseTemporal (call (RunWorker q) (pf_worker P))))" for h n q
    by (intro neat_bracket acquires_call neat_call) (simp_all add: releases_def)
  then show ?thesis unfolding worker_run_def by (intro neat_andThen) (simp_all split: option.split)
qed

lemma provision_run_neat: "neat (provision_run P L e tenant_slug maxServices)"
proof -
  let ?rest = "\<lambda>i q inp. andThen (call (StartWorkflow i q inp) (pf_workflow P)) (\<lambda>u.
    andThen (call AwaitWorkflow (pf_result P)) (\<lambda>u t. (Inr (Some ()), t)))"
  have "neat (?rest i q inp)" for i q inp by (intro neat_andThen neat_call) (simp_all add: releases_def)
  then have "neat (andThen (call (DialTemporal h n) None) (\<lambda>u. deferring CloseTemporal (?rest i q inp)))" for h n i q inp
    by (intro neat_bracket acquires_call) (simp_all add: releases_def)
  then show ?thesis
    unfolding provision_run_def by (intro neat_andThen) (simp_all split: option.split)
qed

text \<open>A started workflow is named after the tenant it provisions.\<close>

lemma provision_starts_named:
  assumes "StartWorkflow i queue inp \<in> set (snd (provision_run P L e tenant_slug maxServices []))"
  shows "tenant_slug \<noteq> [] \<and> i = ''provision-tenant-'' @ pi_Slug inp \<and> pi_Slug inp = tenant_slug"
  using assms
  by (auto simp: provision_run_def andThen_def call_def load_config_def deferring_def
      split: sum.splits option.splits if_splits prod.splits)

lemma operator_run_neat: "neat (operator_run P)"
  unfolding operator_run_def SetupWithManager_def by (intro neat_rules) (simp_all add: releases_def)

text \<open>The operator starts only with its controller registered and both probes in place.\<close>

lemma operator_starts_complete:
  assumes "StartManager \<in> set (snd (operator_run P []))"
  shows "snd (operator_run P []) = [CreateManager operator_options,
    CompleteController [For ''Application'', Owns ''Deployment'', Owns ''Service''],
    AddHealthzCheck ''healthz'', AddReadyzCheck ''readyz'', StartManager]"
  using assms by (auto simp: operator_run_def SetupWithManager_def andThen_def call_def check_def split: option.splits)

section \<open>Properties\<close>


lemma andThen_cases:
  assumes "a \<in> set (snd (andThen p f t))" and "a \<notin> set (snd (p t))"
  obtains x where "fst (p t) = Inr x" and "a \<in> set (snd (f x (snd (p t))))"
  using assms by (cases "p t") (auto simp: andThen_def split: sum.splits)

lemma deferring_trace [simp]: "set (snd (deferring a p t)) = insert a (set (snd (p t)))"
  by (auto simp: deferring_def split: prod.split)

lemma before_listening [simp]:
  "snd (load_config L e t) = t" "Listen addr \<notin> set t \<Longrightarrow> Listen addr \<notin> set (snd (InitTracing P endpoint t))"
  "Listen addr \<notin> set t \<Longrightarrow> Listen addr \<notin> set (snd (pg_New P cfg t))"
  "Listen addr \<notin> set t \<Longrightarrow> Listen addr \<notin> set (snd (call RunMigrations res t))"
  "Listen addr \<notin> set t \<Longrightarrow> Listen addr \<notin> set (snd (attempted (kube_BuildClient P) t))"
  "Listen addr \<notin> set t \<Longrightarrow> Listen addr \<notin> set (snd (attempted (temporal_BuildClient P host ns) t))"
  by (auto simp: attempted_def kube_BuildClient_def temporal_BuildClient_def load_config_def InitTracing_def pg_New_def andThen_def check_def call_def deferring_def split: option.splits)

lemma pg_New_Inr: "fst (pg_New P cfg t) = Inr u \<Longrightarrow> pf_ping P = None"
  by (auto simp: pg_New_def andThen_def check_def call_def deferring_def wrapped_def split: option.splits)

lemma serve_until_addr: "Listen addr \<in> set (snd (serve_until P a t)) \<Longrightarrow> Listen addr \<notin> set t \<Longrightarrow> addr = a"
  by (auto simp: serve_until_def andThen_def call_def check_def split: ending.splits option.splits)

text \<open>
  C36: The API takes requests only when it is ready for them. If it ever listens, then its
  configuration was valid, the database answered the ping, and every migration the binary carries
  is recorded as applied, even when the connection broke while the applied ones were read; it
  listens at the configured address, and in production it verifies tokens against an identity
  provider with an issuer and an audience.
\<close>

theorem api_listens_when_ready:
  assumes "Listen addr \<in> set (snd (api_run P M d L e []))" and "sort_laws (me_sort M)"
  shows "\<exists>cfg entries. Load L e = Inr cfg \<and> addr = cf_HTTPAddr cfg \<and> pf_ping P = None \<and>
    me_ReadDir M = Inr entries \<and> set (up_versions (me_quote M) entries) \<subseteq> set (versions_of (snd (Migrate M d))) \<and>
    (IsProduction cfg \<longrightarrow> (\<exists>v. buildVerifier (cf_Auth cfg) = JWKSVerifier v \<and> jv_issuer v \<noteq> [] \<and> jv_audience v \<noteq> []))"
proof -
  let ?serve = "\<lambda>cfg. andThen (attempted (kube_BuildClient P)) (\<lambda>k.
    andThen (attempted (temporal_BuildClient P (tc_HostPort (cf_Temporal cfg)) (tc_Namespace (cf_Temporal cfg)))) (\<lambda>c.
    serve_until P (cf_HTTPAddr cfg)))"
  let ?migrated = "\<lambda>cfg. andThen (call RunMigrations (fst (Migrate M d))) (\<lambda>u. ?serve cfg)"
  let ?pooled = "\<lambda>cfg. andThen (pg_New P (cf_Database cfg)) (\<lambda>u. deferring ClosePool (?migrated cfg))"
  let ?traced = "\<lambda>cfg. andThen (InitTracing P (te_OTLPEndpoint (cf_Telemetry cfg))) (\<lambda>u. deferring StopTracing (?pooled cfg))"
  obtain cfg where cfg: "fst (load_config L e []) = Inr cfg" "Listen addr \<in> set (snd (?traced cfg []))"
    using assms(1) unfolding api_run_def by (rule andThen_cases) simp_all
  then obtain t1 where 1: "Listen addr \<in> set (snd (?pooled cfg t1))" "Listen addr \<notin> set t1"
    by (elim andThen_cases) simp_all
  from 1(1) obtain u t2 where 2: "fst (pg_New P (cf_Database cfg) t1) = Inr u" "Listen addr \<in> set (snd (?migrated cfg t2))"
    "Listen addr \<notin> set t2"
    by (rule andThen_cases) (use 1(2) in simp_all)
  from 2(2) obtain t3 where 3: "fst (Migrate M d) = None" "Listen addr \<in> set (snd (?serve cfg t3))"
    "Listen addr \<notin> set t3"
    by (rule andThen_cases) (use 2(3) in \<open>auto simp: call_def split: option.splits\<close>)
  then obtain t4 where 4: "Listen addr \<in> set (snd (serve_until P (cf_HTTPAddr cfg) t4))" "Listen addr \<notin> set t4"
    by (elim andThen_cases) simp_all
  have load: "Load L e = Inr cfg" using cfg(1) by (simp add: load_config_def)
  obtain entries where e: "me_ReadDir M = Inr entries"
    "set (up_versions (me_quote M) entries) \<subseteq> set (versions_of (snd (Migrate M d)))"
    using Migrate_complete [OF _ assms(2)] 3(1) by (metis prod.collapse)
  have "validate L cfg = None" using load by (auto simp: Load_def split: option.splits)
  then have "IsProduction cfg \<longrightarrow> (\<exists>v. buildVerifier (cf_Auth cfg) = JWKSVerifier v \<and> jv_issuer v \<noteq> [] \<and> jv_audience v \<noteq> [])"
    by (auto simp: validate_None buildVerifier_def NewJWKSVerifier_def)
  with load e pg_New_Inr [OF 2(1)] serve_until_addr [OF 4] show ?thesis by blast
qed

definition example_platform :: platform where
  "example_platform =
     \<lparr>pf_tracing = (\<lambda>ep. None), pf_parse_url = (\<lambda>url. None), pf_create_pool = None, pf_ping = None,
      pf_ending = Signalled None, pf_connect = None, pf_jetstream = None, pf_stream = None, pf_consumer = None,
      pf_consume = None, pf_relay = Some Canceled, pf_dial = None, pf_worker = None, pf_workflow = None, pf_result = None,
      pf_kube_config = Some (OtherError ''no cluster''), pf_kube_client = None, pf_lazy_client = None, pf_manager = None,
      pf_controller = None, pf_healthz = None, pf_readyz = None, pf_manager_run = None\<rparr>"

definition example_go_lib :: "int go_lib" where
  "example_go_lib = \<lparr>gl_ParseFloat = (\<lambda>s. None), gl_float = (\<lambda>i. i), gl_ParseDuration = (\<lambda>s. None), gl_quote = id\<rparr>"

definition example_environ :: environ where
  "example_environ = [''FORGE_ENV'' \<mapsto> ''production'', ''FORGE_DB_URL'' \<mapsto> ''postgres://db'', ''FORGE_AUTH_MODE'' \<mapsto> ''jwks'',
     ''FORGE_AUTH_JWKS_URL'' \<mapsto> ''https://idp/keys'', ''FORGE_AUTH_ISSUER'' \<mapsto> ''idp'', ''FORGE_AUTH_AUDIENCE'' \<mapsto> ''forge'']"

lemma example_migrated: "fst (Migrate example_migrate_env example_migrate_db) = None"
  by code_simp

lemma example_sort_laws: "sort_laws (me_sort example_migrate_env)"
  by (simp add: sort_laws_def example_migrate_env_def)

lemma example_listens:
  "Listen '':8080'' \<in> set (snd (api_run example_platform example_migrate_env example_migrate_db example_go_lib example_environ []))"
proof -
  let ?c = "read_config example_go_lib example_environ"
  have "validate example_go_lib ?c = None"
    by (simp add: validate_None read_config_def getStr_def getInt_def int32_of_def example_environ_def)
  then have "Load example_go_lib example_environ = Inr ?c" by (simp add: Load_def)
  moreover have "cf_HTTPAddr ?c = '':8080''"
    by (simp add: read_config_def httpAddr_def Getenv_def example_environ_def)
  ultimately show ?thesis
    using example_migrated
    by (simp add: api_run_def andThen_def load_config_def InitTracing_def pg_New_def check_def call_def deferring_def
        wrapped_def serve_until_def unless_closed_def example_platform_def attempted_def kube_BuildClient_def temporal_BuildClient_def)
qed

theorem api_listens_when_ready_witness:
  "\<exists>cfg. Load example_go_lib example_environ = Inr cfg \<and> cf_HTTPAddr cfg = '':8080'' \<and>
     (IsProduction cfg \<longrightarrow> (\<exists>v. buildVerifier (cf_Auth cfg) = JWKSVerifier v))"
  using api_listens_when_ready [OF example_listens example_sort_laws] by metis

section \<open>Subjects\<close>

text \<open>
  How the server matches a subject against a filter is NATS's, so it is a parameter; the law is the
  documented meaning of \<^verbatim>\<open>>\<close>: it stands for one or more tokens. A subject is made of tokens that are
  not empty and have neither white space nor a wildcard.
\<close>

fun tokens_ok :: "bool \<Rightarrow> string \<Rightarrow> bool" where
  "tokens_ok started [] = started"
| "tokens_ok started (c # s) =
     (if c = CHR ''.'' then started \<and> tokens_ok False s
      else c \<notin> {CHR '' '', CHR ''*'', CHR ''>'', CHR 0x09, CHR 0x0A, CHR 0x0D} \<and> tokens_ok True s)"

definition valid_subject :: "string \<Rightarrow> bool" where
  "valid_subject s = tokens_ok False s"

definition nats_laws :: "(string \<Rightarrow> string \<Rightarrow> bool) \<Rightarrow> bool" where
  "nats_laws matches \<longleftrightarrow> (\<forall>p s. valid_subject p \<and> valid_subject s \<longrightarrow> matches (p @ ''.>'') (p @ ''.'' @ s))"

lemma EventType_subject: "valid_subject (EventType e)" "valid_subject (Tenant_EventType x)"
  by (cases e; simp add: valid_subject_def) (cases x; simp add: valid_subject_def)

text \<open>Every row of the outbox carries an event of one of the two modules.\<close>

definition typed :: "db \<Rightarrow> bool" where
  "typed d \<longleftrightarrow> (\<forall>x \<in> set (outbox_events d).
     HasPrefix (ob_event_type x) ''catalog.'' \<or> HasPrefix (ob_event_type x) ''tenant.'')"

lemma appends_typed: "appends prefix d d' \<Longrightarrow> prefix \<in> {''catalog.'', ''tenant.''} \<Longrightarrow> typed d \<Longrightarrow> typed d'"
  by (auto simp: appends_def typed_def)

lemma tx_step_typed:
  assumes "tx_step U B s s'" and "uuid_laws U" and "bus_laws B" and "sound U B s" and "typed (fst s)"
  shows "typed (fst s')"
  using assms(1)
proof (cases rule: tx_step.cases)
  case (catalog E now q w r w' b)
  then show ?thesis
    using catalog_command_frame(3) [OF catalog(4)] assms(2,4,5) by (auto simp: sound_def intro: appends_typed)
next
  case (tenant E now q w r w' b)
  then show ?thesis
    using tenant_command_frame(4) [OF tenant(4)] assms(2,4,5) by (auto simp: sound_def intro: appends_typed)
next
  case (idempotency E key hash status body w r w' b)
  then show ?thesis using Idempotency_Save_db [OF idempotency(3)] assms(5) by (auto simp: typed_def)
next
  case (relay E j locked R w b res w' b')
  from relay_claim_effect [OF relay(4) assms(3)] show ?thesis
    by cases (use relay(1,2) assms(5) in \<open>auto simp: typed_def mark_published_def\<close>)
qed

lemma reachable_typed:
  assumes "(tx_step U B)\<^sup>*\<^sup>* (empty_db, b0) s" and "uuid_laws U" and "bus_laws B"
  shows "typed (fst s) \<and> sound U B s"
  using assms(1)
proof (induction rule: rtranclp_induct)
  case base
  have "outbox_events empty_db = []" by (simp add: empty_db_def)
  then show ?case by (simp add: typed_def sound_empty)
next
  case (step s s')
  then show ?case using tx_step_typed [OF step(2) assms(2,3)] tx_step_sound [OF step(2) assms(2,3)] by blast
qed

lemma told_type:
  assumes "log_inv rows rid prefix tells d" and "\<And>xs r. tells xs r \<Longrightarrow> \<exists>es. map ob_event_type xs = map ety es"
    and "x \<in> set (outbox_events d)" and "HasPrefix (ob_event_type x) prefix"
  shows "\<exists>e. ob_event_type x = ety e"
proof -
  have "ob_aggregate_id x \<in> rid ` set (rows d)" using assms(1,3,4) by (auto simp: log_inv_def)
  then obtain r where r: "r \<in> set (rows d)" "ob_aggregate_id x = rid r" by auto
  have "tells (log_of prefix d (rid r)) r" using assms(1) r(1) by (simp add: log_inv_def)
  then obtain es where es: "map ob_event_type (log_of prefix d (rid r)) = map ety es" using assms(2) by blast
  have "x \<in> set (log_of prefix d (rid r))" using assms(3,4) r(2) by (simp add: log_of_def)
  then have "ob_event_type x \<in> set (map ety es)" unfolding es [symmetric] by simp
  then show ?thesis by auto
qed

lemma logged_type:
  assumes "sound U B (d, b)" and "typed d" and "x \<in> set (outbox_events d)"
  shows "valid_subject (ob_event_type x)"
proof -
  have cat: "log_inv catalog_services cs_id ''catalog.'' logs d" and ten: "log_inv tenants tn_id ''tenant.'' tenant_logs d"
    using assms(1) by (simp_all add: sound_def log_ok_def tenant_log_ok_def)
  have c: "\<exists>e. ob_event_type x = EventType e" if "HasPrefix (ob_event_type x) ''catalog.''"
    using cat _ assms(3) that by (rule told_type) (auto simp: logs_def)
  have t: "\<exists>e. ob_event_type x = Tenant_EventType e" if "HasPrefix (ob_event_type x) ''tenant.''"
    using ten _ assms(3) that by (rule told_type) (auto simp: tenant_logs_def)
  consider "HasPrefix (ob_event_type x) ''catalog.''" | "HasPrefix (ob_event_type x) ''tenant.''"
    using assms(2,3) unfolding typed_def by blast
  then show ?thesis
  proof cases
    case 1
    then obtain e where "ob_event_type x = EventType e" using c by blast
    then show ?thesis by (simp add: EventType_subject)
  next
    case 2
    then obtain e where "ob_event_type x = Tenant_EventType e" using t by blast
    then show ?thesis by (simp add: EventType_subject)
  qed
qed

text \<open>
  C16: No event falls through the bus. Under one subject prefix, in every state the control plane
  can reach, the subject under which a relay publishes any row of the outbox is matched by the
  subjects of the stream that \<^verbatim>\<open>EnsureStream\<close> declares and by the filter of the consumer, so the
  event is stored and consumed.
\<close>

theorem every_event_has_a_subject:
  assumes "nats_laws matches" and "uuid_laws U" and "bus_laws B" and "valid_subject prefix"
    and "(tx_step U B)\<^sup>*\<^sup>* (empty_db, b0) (d, b)" and "x \<in> set (outbox_events d)"
  shows "\<forall>filter \<in> insert (cc_FilterSubject (consumer_of prefix)) (set (st_Subjects (stream_of name prefix))).
    matches filter (subjectFor (Relay_New prefix batch interval) (record_of U j x))"
proof -
  have "valid_subject (ob_event_type x)"
    using reachable_typed [OF assms(5,2,3)] logged_type [OF _ _ assms(6), of U B b] by simp
  then show ?thesis
    using assms(1,4) by (simp add: nats_laws_def consumer_of_def stream_of_def subjectFor_def Relay_New_def record_of_def)
qed

text \<open>Matching a literal subject, or the tail of one.\<close>

definition example_match :: "string \<Rightarrow> string \<Rightarrow> bool" where
  "example_match f s =
     (if HasSuffix f ''.>'' then HasPrefix s (butlast f) \<and> length (butlast f) < length s else f = s)"

lemma example_nats_laws: "nats_laws example_match"
proof -
  have "p @ ''.>'' = (p @ ''.'') @ ''>''" for p by simp
  then have "butlast (p @ ''.>'') = p @ ''.''" for p by (metis butlast_snoc)
  moreover have "HasSuffix (p @ ''.>'') ''.>''" for p by (simp add: HasSuffix_def HasPrefix_def)
  moreover have "s \<noteq> []" if "valid_subject s" for s using that by (auto simp: valid_subject_def)
  ultimately show ?thesis by (auto simp: nats_laws_def example_match_def HasPrefix_def)
qed

theorem every_event_has_a_subject_witness:
  "\<exists>d x. (tx_step canonical_uuid_lib list_bus)\<^sup>*\<^sup>* (empty_db, []) (d, []) \<and> x \<in> set (outbox_events d) \<and>
     example_match ''forge.events.>'' (subjectFor (Relay_New ''forge.events'' 10 0) (record_of canonical_uuid_lib Marshal x))"
proof -
  have U: "env_uuid plain_env = canonical_uuid_lib" by (simp add: plain_env_def)
  obtain r w where 1: "catalog_command plain_env 1000 example_registration empty_world = (r, w)" by fastforce
  have "length (outbox_events (w_db w)) = 1" using example_registered 1 by simp
  then obtain x where x: "x \<in> set (outbox_events (w_db w))" by (cases "outbox_events (w_db w)") auto
  have run: "(tx_step canonical_uuid_lib list_bus)\<^sup>*\<^sup>* (empty_db, []) (w_db w, [])"
    using tx_step.catalog [OF U 1, of list_bus "[]"] by simp
  have "valid_subject ''forge.events''" by (simp add: valid_subject_def)
  from every_event_has_a_subject [OF example_nats_laws canonical_uuid_laws list_bus_laws(1) this run x, of "''FORGE''" 10 0 Marshal] run x
  show ?thesis by (auto simp: consumer_of_def)
qed

section \<open>The consumer\<close>

text \<open>
  The callback of the consumer: it logs the message and then acknowledges it; an acknowledgement
  that fails leaves the message to be delivered again.
\<close>

definition on_message ::
    "(bus_message \<Rightarrow> go_error option) \<Rightarrow> bus_message \<Rightarrow> (string \<times> string) list \<times> bus_message list \<Rightarrow>
     (string \<times> string) list \<times> bus_message list" where
  "on_message ack msg s =
     (case (msg, s) of ((subject, i, data), (lines, acked)) \<Rightarrow>
        (lines @ [(subject, data)], case ack msg of None \<Rightarrow> acked @ [msg] | Some err \<Rightarrow> acked))"

lemma acknowledged_is_logged:
  assumes "\<forall>(subject, i, data) \<in> set acked. (subject, data) \<in> set lines"
  shows "case fold (on_message ack) msgs (lines, acked) of (lines', acked') \<Rightarrow>
    \<forall>(subject, i, data) \<in> set acked'. (subject, data) \<in> set lines'"
  using assms
proof (induction msgs arbitrary: lines acked)
  case (Cons m msgs)
  obtain subject i data where m: "m = (subject, i, data)" by (cases m)
  let ?s = "on_message ack m (lines, acked)"
  have "\<forall>(subject, i, data) \<in> set (snd ?s). (subject, data) \<in> set (fst ?s)"
    using Cons.prems by (auto simp: on_message_def m split: option.splits)
  then show ?case using Cons.IH [of "snd ?s" "fst ?s"] by simp
qed simp

end
