(* ===== verification/Spec2Isabelle.thy ===== *)
theory Spec2Isabelle
  imports Catalog_Query Provisioning_Saga Application_Copy Processes
begin

text \<open>
  Verification of the Forge control plane, an internal developer platform in Go: an HTTP API
  over a service catalog and a tenant registry, a transactional outbox with a relay to an event
  stream, a saga that provisions tenant environments, and a Kubernetes operator for applications.

  \<^bold>\<open>The program and its parts.\<close> A request to the API process (\<^verbatim>\<open>cmd/api\<close>) passes the
  middleware (panic recovery, correlation, deadline, metrics, authentication, rate limit) and
  reaches a handler of one of four modules. The catalog and tenant modules run commands, each one
  database transaction that loads an aggregate, changes it, stores it under a version check and
  appends its events to the table \<^verbatim>\<open>outbox_events\<close>. The relay process (\<^verbatim>\<open>cmd/relay\<close>) claims
  unpublished rows, publishes them to NATS and marks them; the consumer (\<^verbatim>\<open>cmd/consumer\<close>) reads
  the stream. The worker (\<^verbatim>\<open>cmd/worker\<close>) runs the provisioning workflow on Temporal, started by
  \<^verbatim>\<open>cmd/provision\<close>. The operator reconciles \<^verbatim>\<open>Application\<close> resources into deployments, services
  and config maps. The application and provisioning modules of the API are read models over
  Kubernetes and Temporal. The processes meet in the database, the stream and the cluster only.

  \<^bold>\<open>Language and libraries of Go.\<close>
  \<^item> \<open>Forge_Prelude\<close>: 64-bit integers with wrap-around, lemmas on lists and sums, and the
    collections \<open>forge_defs\<close> (operations unfolded branch by branch) and \<open>forge_inv\<close> (what keeps an
    invariant).
  \<^item> \<open>Go_Strings\<close>, \<open>Go_Regexp\<close>, \<open>Go_Base64\<close>, \<open>Go_Json\<close>, \<open>Go_Time\<close>: the functions of \<^verbatim>\<open>strings\<close>,
    \<^verbatim>\<open>strconv\<close>, \<^verbatim>\<open>regexp\<close>, \<^verbatim>\<open>encoding/base64\<close>, \<^verbatim>\<open>encoding/json\<close> and \<^verbatim>\<open>time\<close> the sources use, with
    the round trips that cursors, entity tags and stored payloads rest on; the derivative matcher
    of regular expressions is proved equal to their language.
  \<^item> \<open>Go_Memory\<close>: cells, slices and pointers, and the locale \<open>deep_copy\<close> of what a deep copy promises,
    kept by structs, slices and pointers of things that keep it.

  \<^bold>\<open>Shared contracts.\<close>
  \<^item> \<open>Aggregate\<close>: locales \<open>text_enum\<close> (a string enumeration and its parser), \<open>status_machine\<close> (a
    lifecycle with an absorbing state) and \<open>event_recorder\<close> (versions count events), interpreted in
    both domains.
  \<^item> \<open>Keyset\<close>: locales \<open>keyset\<close> and \<open>paged_listing\<close>: skipping the rows up to a key cuts the ordered
    rows exactly there, and following cursors enumerates a listing once. Interpreted on every
    order of the two repositories and of the outbox, and on both listings.
  \<^item> \<open>Event_Log\<close>: locale \<open>event_log\<close>: the outbox rows of an aggregate, replayed, give its stored
    row; appending, marking and foreign rows keep this. Interpreted in \<open>Catalog_Log\<close> and
    \<open>Tenant_Log\<close>.

  \<^bold>\<open>Platform\<close> (\<^verbatim>\<open>internal/platform\<close>).
  \<^item> \<open>Apperr\<close>: \<^verbatim>\<open>apperr/apperr.go\<close>, the error taxonomy, wrapping and HTTP status.
  \<^item> \<open>Forge_Ids\<close>: \<^verbatim>\<open>id/id.go\<close> and \<^verbatim>\<open>catalog/domain/ids.go\<close>, identifiers over the UUID package.
  \<^item> \<open>Forge_Db\<close>: the tables of \<^verbatim>\<open>migrations\<close> as lists of rows with their constraints, single
    statements (\<open>sql\<close>) under a fault oracle, and \<^verbatim>\<open>store.go\<close>'s \<open>Execute\<close>: rollback on error, and
    a commit that may fail with its effect applied or not.
  \<^item> \<open>Httpx\<close>, \<open>Httpx_Auth\<close>: \<^verbatim>\<open>httpx/*.go\<close> and \<^verbatim>\<open>observability\<close>: responses, error bodies, request
    decoding, the middleware, the keyed rate limiter, both token verifiers and the key cache. They
    show what an error answer can reveal, that identities do not share a limit, and that a request
    reaching a handler carried a verified token.
  \<^item> \<open>Idempotency\<close>: \<^verbatim>\<open>idempotency/idempotency.go\<close>, \<open>Idempotency_Lookup\<close> and \<open>Idempotency_Save\<close>.
  \<^item> \<open>Platform_Config\<close>: \<^verbatim>\<open>config/config.go\<close>, reading and validation, 32-bit conversions included.
  \<^item> \<open>Platform_Migrate\<close>: \<^verbatim>\<open>postgres/migrate.go\<close>: over any starts and faults each script is applied
    exactly once, and an undisturbed start applies all that are missing.

  \<^bold>\<open>Catalog\<close> (\<^verbatim>\<open>internal/modules/catalog\<close>).
  \<^item> \<open>Catalog_Service\<close>: \<^verbatim>\<open>domain\<close>: the aggregate as a record, its operations, events, and their
    invariant over any sequence of requests.
  \<^item> \<open>Catalog_Repository\<close>, \<open>Catalog_Commands\<close>: \<^verbatim>\<open>adapters/postgres\<close> and \<^verbatim>\<open>app/commands.go\<close>, every
    statement and every command.
  \<^item> \<open>Catalog_Store\<close>, \<open>Catalog_Log\<close>: the effect of a command on the tables: atomicity, the version
    check, uniqueness of names, ownership history, and the refinement of the row to its event log.
  \<^item> \<open>Catalog_Listing\<close>, \<open>Catalog_Pages\<close>, \<open>Catalog_Query\<close>: \<^verbatim>\<open>app/queries.go\<close> and the listing half of
    \<^verbatim>\<open>repository.go\<close>, as rows and as SQL text with numbered placeholders.
  \<^item> \<open>Catalog_Api\<close>: \<^verbatim>\<open>api/dto.go\<close> and \<^verbatim>\<open>api/handlers.go\<close>: wire formats, entity tags, replay of
    idempotent requests.

  \<^bold>\<open>Tenant registry\<close> (\<^verbatim>\<open>internal/modules/tenant\<close>). \<open>Tenant_Domain\<close>, \<open>Tenant_Repository\<close>,
  \<open>Tenant_Commands\<close>, \<open>Tenant_Store\<close>, \<open>Tenant_Log\<close>, \<open>Tenant_Pages\<close>, \<open>Tenant_Api\<close>, in the same
  order and through the same locales.

  \<^bold>\<open>Relay, saga, operator and views.\<close>
  \<^item> \<open>Outbox_Relay\<close>: \<^verbatim>\<open>internal/relay\<close> and the publisher of \<^verbatim>\<open>internal/platform/events\<close>: claiming,
    publishing and marking in one transaction, the drain and ticker loops. Delivery precedes
    marking under any faults, and a drain without faults publishes everything once and in order.
  \<^item> \<open>Provisioning_Saga\<close>: \<^verbatim>\<open>internal/provisioning\<close>: the workflow, compensations, activities and the
    simulated provisioner, over the locale \<open>provisioner_contract\<close>.
  \<^item> \<open>Application_Controller\<close>: \<^verbatim>\<open>internal/controller\<close> and \<^verbatim>\<open>api/v1alpha1\<close>: the desired objects and
    the whole reconcile with its status update under conflict retry; the cluster invariant and
    idempotence.
  \<^item> \<open>Application_Copy\<close>: \<^verbatim>\<open>api/v1alpha1/zz_generated.deepcopy.go\<close>: the types as they are in memory; a copy
    denotes the same value and writes through it never show in the original.
  \<^item> \<open>Application_View\<close>, \<open>Provisioning_View\<close>: \<^verbatim>\<open>internal/modules/application\<close> and
    \<^verbatim>\<open>internal/modules/provisioning\<close>, the readers, response types and handlers; the locale
    \<open>reader_contract\<close> is what the application handlers rely on.

  \<^bold>\<open>Composition.\<close>
  \<^item> \<open>Control_Plane\<close>: the transition system \<open>tx_step\<close>, one transaction of any process with any
    faults, and its reachable states: every component's invariant holds in all of them together, and
    from each of them an undisturbed drain delivers every event (\<open>drain_delivers_all\<close>).
  \<^item> \<open>Api_Server\<close>: \<^verbatim>\<open>cmd/api/main.go\<close> and the \<^verbatim>\<open>module.go\<close> and \<^verbatim>\<open>routes.go\<close> files: \<open>serve\<close> is one request
    through the whole chain; it refines the transition system, and its reads, refusals and panics
    are described.
  \<^item> \<open>Processes\<close>: the \<^verbatim>\<open>run\<close> functions of the six processes as traces of the calls they make, with
    early returns and deferred releases, the pool, the stream, the consumer and the clients of the
    views.

  \<^bold>\<open>Effects, bounds and fuel.\<close> Code over the database is state passing on a \<open>world\<close> (the tables
  and a count of statements); an environment says which statement fails and how, what the clock
  reads and which identifiers are drawn, and the theorems hold for every environment unless one
  says that no fault occurs. Go's \<^verbatim>\<open>int\<close> is \<^typ>\<open>int\<close> with \<open>int64\<close> where it may wrap. The JSON parser is
  given \<open>2 * length + 1\<close> units of fuel; \<open>parse_fuel_enough\<close> shows that any more gives the same
  result. The client that follows cursors (\<open>read_pages\<close>) is given one page per row and one more, and
  is proved to end within them. The drain loop has no bound in the code, so \<open>drain_from\<close> is a partial
  function into an option, and \<open>drain_once_returns\<close> proves that it returns when outbox rows have
  distinct identifiers, since each turn but the last takes rows out of the queue. All other loops
  recurse over data.

  \<^bold>\<open>Parameters.\<close> Code outside the repository is an argument: the UUID package (\<open>uuid_laws\<close>),
  PostgreSQL's text values and jsonb (\<open>pg_laws\<close>, \<open>jsonb_laws\<close>), NATS (\<open>bus_laws\<close>, \<open>nats_laws\<close>), the
  token bucket, Temporal's delivery of attempts, the Kubernetes API and metadata
  types (\<open>kube_laws\<close>, \<open>list_laws\<close>, \<open>meta_laws\<close>), the JWT
  package (\<open>jwt_laws\<close>) and key endpoint, the chi router (\<open>chi_laws\<close>), the sort of the migrations
  (\<open>sort_laws\<close>), what a migration script does, and the answers of the calls a process starts with.
  Each law has a concrete instance, at which the theorems that assume it are applied.

  \<^bold>\<open>Not modelled.\<close> The scheme registration of \<^verbatim>\<open>api/v1alpha1\<close> and the construction of the logger
  (\<^verbatim>\<open>platform/log\<close>), which only pass options to libraries; log lines and traces, which nothing reads
  back; the request deadline other than as failing statements; the
  interleaving of statements inside two concurrent transactions, where the model takes
  transactions as atomic and the version check and constraints as evaluated on the committed
  tables.
\<close>

end
